(* ===== verification/Prelude.thy ===== *)
theory Prelude
  imports Complex_Main "HOL-Library.AList" "HOL-Library.Sublist"
begin

text \<open>
  What every component shares: the part of Go's standard library the sources use (byte strings,
  \<^verbatim>\<open>strings\<close> and \<^verbatim>\<open>strconv\<close>, 64-bit integers), dynamically typed JSON values, maps, and the generic
  contracts (a keyed store, an invariant of a transition system) as locales.

  Conventions. A Go string is a list of bytes, so a \<^typ>\<open>string\<close>; case mapping and white space are
  those of ASCII, the only ones the program's own constants use. A Go map is an association list
  with distinct keys: the order of the list stands for the iteration order, which Go leaves
  unspecified, so a theorem about every list is a theorem about every iteration order.
  A function with an error result returns a sum, \<^verbatim>\<open>Inl\<close> for the error.
\<close>

named_theorems go_simps \<open>unfolding of the standard-library models\<close>

section \<open>Bytes\<close>

definition byte_in :: "nat \<Rightarrow> nat \<Rightarrow> char \<Rightarrow> bool" where
  "byte_in lo hi c \<longleftrightarrow> lo \<le> of_char c \<and> of_char c \<le> hi"

definition is_letter :: "char \<Rightarrow> bool" where
  "is_letter c \<longleftrightarrow> byte_in 65 90 c \<or> byte_in 97 122 c"

definition is_digit :: "char \<Rightarrow> bool" where
  "is_digit c \<longleftrightarrow> byte_in 48 57 c"

definition is_word_char :: "char \<Rightarrow> bool" where
  "is_word_char c \<longleftrightarrow> is_letter c \<or> is_digit c \<or> c = CHR ''_''"

definition is_space :: "char \<Rightarrow> bool" where
  "is_space c \<longleftrightarrow> of_char c \<in> {9, 10, 11, 12, 13, 32 :: nat}"

definition lower_char :: "char \<Rightarrow> char" where
  "lower_char c = (if byte_in 65 90 c then char_of (of_char c + 32 :: nat) else c)"

definition upper_char :: "char \<Rightarrow> char" where
  "upper_char c = (if byte_in 97 122 c then char_of (of_char c - 32 :: nat) else c)"

abbreviation nl :: char where "nl \<equiv> CHR 0x0A"
abbreviation dquote :: char where "dquote \<equiv> CHR 0x22"

section \<open>Strings\<close>

definition to_lower :: "string \<Rightarrow> string" where
  "to_lower = map lower_char"

definition to_upper :: "string \<Rightarrow> string" where
  "to_upper = map upper_char"

definition equal_fold :: "string \<Rightarrow> string \<Rightarrow> bool" where
  "equal_fold s t \<longleftrightarrow> to_lower s = to_lower t"

definition has_prefix :: "string \<Rightarrow> string \<Rightarrow> bool" where
  "has_prefix p s \<longleftrightarrow> take (length p) s = p"

definition has_suffix :: "string \<Rightarrow> string \<Rightarrow> bool" where
  "has_suffix p s \<longleftrightarrow> has_prefix (rev p) (rev s)"

definition trim_prefix :: "string \<Rightarrow> string \<Rightarrow> string" where
  "trim_prefix p s = (if has_prefix p s then drop (length p) s else s)"

definition trim_right_by :: "(char \<Rightarrow> bool) \<Rightarrow> string \<Rightarrow> string" where
  "trim_right_by P s = rev (dropWhile P (rev s))"

definition trim_space :: "string \<Rightarrow> string" where
  "trim_space s = trim_right_by is_space (dropWhile is_space s)"

definition trim_slashes :: "string \<Rightarrow> string" where
  \<comment> \<open>\<^verbatim>\<open>strings.Trim(s, "/")\<close>\<close>
  "trim_slashes s = trim_right_by (\<lambda>c. c = CHR ''/'') (dropWhile (\<lambda>c. c = CHR ''/'') s)"

fun cut :: "string \<Rightarrow> string \<Rightarrow> (string \<times> string) option" where
  \<comment> \<open>around the first occurrence of the separator\<close>
  "cut sep [] = (if sep = [] then Some ([], []) else None)"
| "cut sep (c # s) =
     (if has_prefix sep (c # s) then Some ([], drop (length sep) (c # s))
      else map_option (\<lambda>(a, b). (c # a, b)) (cut sep s))"

definition contains :: "string \<Rightarrow> string \<Rightarrow> bool" where
  "contains s sub \<longleftrightarrow> cut sub s \<noteq> None"

fun split_by :: "('a \<Rightarrow> bool) \<Rightarrow> 'a list \<Rightarrow> 'a list list" where
  "split_by P [] = [[]]"
| "split_by P (x # xs) =
     (if P x then [] # split_by P xs
      else (case split_by P xs of [] \<Rightarrow> [[x]] | w # ws \<Rightarrow> (x # w) # ws))"

definition split_on :: "char \<Rightarrow> string \<Rightarrow> string list" where
  "split_on c = split_by (\<lambda>x. x = c)"

definition split_n2 :: "string \<Rightarrow> string \<Rightarrow> string list" where
  \<comment> \<open>\<^verbatim>\<open>strings.SplitN(s, sep, 2)\<close>\<close>
  "split_n2 sep s = (case cut sep s of None \<Rightarrow> [s] | Some (a, b) \<Rightarrow> [a, b])"

definition str_fields :: "string \<Rightarrow> string list" where
  "str_fields s = filter (\<lambda>w. w \<noteq> []) (split_by is_space s)"

fun join :: "string \<Rightarrow> string list \<Rightarrow> string" where
  "join sep [] = []"
| "join sep [w] = w"
| "join sep (w # v # ws) = w @ sep @ join sep (v # ws)"

fun last_index :: "char \<Rightarrow> string \<Rightarrow> nat option" where
  "last_index c [] = None"
| "last_index c (x # xs) =
     (case last_index c xs of Some i \<Rightarrow> Some (Suc i) | None \<Rightarrow> if x = c then Some 0 else None)"

section \<open>Integers\<close>

definition max_int :: int where "max_int = 9223372036854775807"
definition min_int :: int where "min_int = - 9223372036854775808"

definition wrap64 :: "int \<Rightarrow> int" where
  \<comment> \<open>two's complement addition on Go's 64-bit \<^verbatim>\<open>int\<close>\<close>
  "wrap64 x = (x + 9223372036854775808) mod 18446744073709551616 - 9223372036854775808"

datatype num_result = NumOk int | NumSyntax | NumRange int

fun parse_uint :: "int \<Rightarrow> string \<Rightarrow> num_result" where
  \<comment> \<open>overflow of 64 bits is reported before a later bad byte is seen\<close>
  "parse_uint acc [] = NumOk acc"
| "parse_uint acc (c # cs) =
     (if \<not> is_digit c then NumSyntax
      else let v = 10 * acc + int (of_char c) - 48
           in if v > 18446744073709551615 then NumRange v else parse_uint v cs)"

definition parse_int :: "string \<Rightarrow> num_result" where
  \<comment> \<open>\<^verbatim>\<open>strconv.ParseInt(s, 10, 64)\<close>, also \<^verbatim>\<open>Atoi\<close>: a value out of range is reported saturated\<close>
  "parse_int s =
     (let neg = (case s of [] \<Rightarrow> False | c # _ \<Rightarrow> c = CHR ''-'');
          body = (case s of [] \<Rightarrow> [] | c # cs \<Rightarrow> if c = CHR ''-'' \<or> c = CHR ''+'' then cs else s)
      in if body = [] then NumSyntax
         else (case parse_uint 0 body of
                 NumSyntax \<Rightarrow> NumSyntax
               | NumRange v \<Rightarrow> NumRange (if neg then min_int else max_int)
               | NumOk v \<Rightarrow>
                   if neg then (if - v < min_int then NumRange min_int else NumOk (- v))
                   else (if v > max_int then NumRange max_int else NumOk v)))"

definition atoi :: "string \<Rightarrow> int option" where
  "atoi s = (case parse_int s of NumOk v \<Rightarrow> Some v | _ \<Rightarrow> None)"

definition atoi_val :: "string \<Rightarrow> int" where
  \<comment> \<open>the value of \<^verbatim>\<open>v, _ := strconv.Atoi(s)\<close>, where the error is ignored\<close>
  "atoi_val s = (case parse_int s of NumOk v \<Rightarrow> v | NumRange v \<Rightarrow> v | NumSyntax \<Rightarrow> 0)"

fun show_nat :: "nat \<Rightarrow> string" where
  "show_nat n = (if n < 10 then [char_of (48 + n)] else show_nat (n div 10) @ [char_of (48 + n mod 10)])"

declare show_nat.simps [simp del]

definition show_int :: "int \<Rightarrow> string" where
  "show_int i = (if i < 0 then ''-'' @ show_nat (nat (- i)) else show_nat (nat i))"

definition hex_digit :: "nat \<Rightarrow> char" where
  "hex_digit n = char_of (if n < 10 then 48 + n else 87 + n)"

definition quote_char :: "char \<Rightarrow> string" where
  "quote_char c =
     (let n = of_char c :: nat in
      if n = 34 \<or> n = 92 then [CHR 0x5C, c]
      else if n = 7 then [CHR 0x5C, CHR ''a'']
      else if n = 8 then [CHR 0x5C, CHR ''b'']
      else if n = 9 then [CHR 0x5C, CHR ''t'']
      else if n = 10 then [CHR 0x5C, CHR ''n'']
      else if n = 11 then [CHR 0x5C, CHR ''v'']
      else if n = 12 then [CHR 0x5C, CHR ''f'']
      else if n = 13 then [CHR 0x5C, CHR ''r'']
      else if n < 32 \<or> n = 127 then [CHR 0x5C, CHR ''x'', hex_digit (n div 16), hex_digit (n mod 16)]
      else [c])"

definition quote :: "string \<Rightarrow> string" where
  \<comment> \<open>the verb \<^verbatim>\<open>%q\<close>; bytes from 128 on are kept, as for a text in valid UTF-8 that is printable\<close>
  "quote s = dquote # concat (map quote_char s) @ [dquote]"

section \<open>JSON values\<close>

text \<open>
  Values of type \<^verbatim>\<open>interface{}\<close> as \<^verbatim>\<open>encoding/json\<close> produces them. A number is a \<^verbatim>\<open>float64\<close> in Go; its
  value is a rational here (rounding inside a conversion to \<^verbatim>\<open>float64\<close> is not modelled).
\<close>

datatype jval =
    JNull
  | JBool bool
  | JNum rat
  | JStr string
  | JArr "jval list"
  | JObj "(string \<times> jval) list"

type_synonym jobj = "(string \<times> jval) list"

definition as_string :: "jval option \<Rightarrow> string" where
  \<comment> \<open>\<^verbatim>\<open>s, _ := v.(string)\<close>: the empty string when the value is absent or of another type\<close>
  "as_string v = (case v of Some (JStr s) \<Rightarrow> s | _ \<Rightarrow> [])"

definition get_str :: "jobj \<Rightarrow> string \<Rightarrow> string" where
  "get_str args k = as_string (map_of args k)"

definition get_num :: "jobj \<Rightarrow> string \<Rightarrow> rat" where
  \<comment> \<open>\<^verbatim>\<open>f, _ := args[k].(float64)\<close>\<close>
  "get_num args k = (case map_of args k of Some (JNum q) \<Rightarrow> q | _ \<Rightarrow> 0)"

definition trunc_rat :: "rat \<Rightarrow> int" where
  \<comment> \<open>\<^verbatim>\<open>int(f)\<close>: truncation towards zero\<close>
  "trunc_rat q = (if q < 0 then \<lceil>q\<rceil> else \<lfloor>q\<rfloor>)"

section \<open>Lemmas on strings\<close>

lemma split_by_nonempty [simp]: "split_by P xs \<noteq> []"
  by (induction xs) (auto split: list.splits)

lemma split_by_none: "\<forall>x \<in> set xs. \<not> P x \<Longrightarrow> split_by P xs = [xs]"
  by (induction xs) auto

lemma split_by_pieces: "w \<in> set (split_by P xs) \<Longrightarrow> x \<in> set w \<Longrightarrow> x \<in> set xs \<and> \<not> P x"
  by (induction xs arbitrary: w) (fastforce split: if_splits list.splits)+

lemma split_by_append:
  "P c \<Longrightarrow> split_by P (xs @ c # ys) = split_by P xs @ split_by P ys"
proof (induction xs)
  case Nil
  then show ?case by simp
next
  case (Cons a xs)
  then show ?case
    by (cases "split_by P xs") (auto split: list.splits)
qed

lemma join_split_on: "join [c] (split_on c s) = s"
proof (induction s)
  case Nil
  then show ?case by (simp add: split_on_def)
next
  case (Cons x s)
  obtain w ws where *: "split_by (\<lambda>x. x = c) s = w # ws"
    by (cases "split_by (\<lambda>x. x = c) s") auto
  with Cons show ?case
    by (cases ws) (auto simp: split_on_def)
qed

lemma split_on_join: "ws \<noteq> [] \<Longrightarrow> list_all (\<lambda>w. c \<notin> set w) ws \<Longrightarrow> split_on c (join [c] ws) = ws"
proof (induction "[c]" ws rule: join.induct)
  case (2 w)
  then show ?case by (auto simp: split_on_def intro: split_by_none)
next
  case (3 w v ws)
  have "split_on c (w @ c # s) = w # split_on c s" if "c \<notin> set w" for s
    using that by (induction w) (auto simp: split_on_def)
  with 3 show ?case by simp
qed simp

lemma set_join: "x \<in> set (join sep ws) \<Longrightarrow> x \<in> set sep \<or> (\<exists>w \<in> set ws. x \<in> set w)"
  by (induction sep ws rule: join.induct) auto

lemma list_all_join:
  "list_all P sep \<Longrightarrow> \<forall>w \<in> set ws. list_all P w \<Longrightarrow> list_all P (join sep ws)"
  by (induction sep ws rule: join.induct) auto

lemma has_prefix_append [simp]: "has_prefix p (p @ s)"
  by (simp add: has_prefix_def)

lemma has_prefixE: "has_prefix p s \<Longrightarrow> \<exists>r. s = p @ r"
  by (metis append_take_drop_id has_prefix_def)

lemma trim_prefix_append [simp]: "trim_prefix p (p @ s) = s"
  by (simp add: trim_prefix_def)

lemma cut_Some: "cut sep s = Some (a, b) \<Longrightarrow> s = a @ sep @ b"
proof (induction sep s arbitrary: a rule: cut.induct)
  case (1 sep)
  then show ?case by (auto split: if_splits)
next
  case (2 sep c s)
  show ?case
  proof (cases "has_prefix sep (c # s)")
    case True
    with 2 show ?thesis by (auto dest: has_prefixE)
  next
    case False
    with 2 show ?thesis by (auto split: if_splits)
  qed
qed

lemma cut_append_fresh:
  "c \<notin> set a \<Longrightarrow> cut [c] (a @ c # b) = Some (a, b)"
  by (induction a) (auto simp: has_prefix_def)

lemma cut_singleton_None: "cut [c] s = None \<longleftrightarrow> c \<notin> set s"
  by (induction s) (auto simp: has_prefix_def)

lemma cut_singleton_fresh: "cut [c] s = Some (a, b) \<Longrightarrow> c \<notin> set a"
  by (induction s arbitrary: a) (auto simp: has_prefix_def split: if_splits)

lemma contains_iff: "contains s sub \<longleftrightarrow> (\<exists>a b. s = a @ sub @ b)"
proof
  assume "contains s sub"
  then show "\<exists>a b. s = a @ sub @ b" by (auto simp: contains_def dest: cut_Some)
next
  assume "\<exists>a b. s = a @ sub @ b"
  then obtain a b where "s = a @ sub @ b" by blast
  moreover have "cut sub (a @ sub @ b) \<noteq> None"
  proof (induction a)
    case Nil
    have "has_prefix sub (sub @ b)" by simp
    then show ?case by (cases "sub @ b") auto
  qed (auto simp: has_prefix_def)
  ultimately show "contains s sub" by (simp add: contains_def)
qed

lemma contains_append: "contains s sub \<Longrightarrow> contains (s @ t) sub" "contains t sub \<Longrightarrow> contains (s @ t) sub"
  by (auto simp: contains_iff) (metis append.assoc)+

lemma to_lower_append [simp]: "to_lower (s @ t) = to_lower s @ to_lower t"
  by (simp add: to_lower_def)

lemma contains_singleton: "contains s [c] \<longleftrightarrow> c \<in> set s"
  by (simp add: contains_def cut_singleton_None)

lemma trim_space_no_space: "\<forall>c \<in> set s. \<not> is_space c \<Longrightarrow> trim_space s = s"
proof -
  assume s: "\<forall>c \<in> set s. \<not> is_space c"
  have "dropWhile P w = w" if "\<forall>c \<in> set w. \<not> P c" for P and w :: string
    using that by (cases w) auto
  from this [of s is_space] this [of "rev s" is_space] s show ?thesis
    by (simp add: trim_space_def trim_right_by_def)
qed

lemma trim_right_by_prefix: "\<exists>suf. s = trim_right_by P s @ suf \<and> (\<forall>c \<in> set suf. P c)"
proof -
  have "s = rev (dropWhile P (rev s)) @ rev (takeWhile P (rev s))"
    by (metis rev_append rev_rev_ident takeWhile_dropWhile_id)
  then show ?thesis unfolding trim_right_by_def by (metis set_rev set_takeWhileD)
qed

lemma trim_right_by_last: "trim_right_by P s \<noteq> [] \<Longrightarrow> \<not> P (last (trim_right_by P s))"
  by (simp add: trim_right_by_def last_rev hd_dropWhile)

lemma last_index_None: "last_index c s = None \<longleftrightarrow> c \<notin> set s"
  by (induction s) (auto split: option.splits)

lemma last_index_Some:
  "last_index c s = Some i \<Longrightarrow> i < length s \<and> s = take i s @ c # drop (Suc i) s \<and> c \<notin> set (drop (Suc i) s)"
proof (induction s arbitrary: i)
  case (Cons a s)
  show ?case
  proof (cases "last_index c s")
    case None
    with Cons.prems show ?thesis by (auto simp: last_index_None split: if_splits)
  next
    case (Some j)
    with Cons.prems Cons.IH [OF Some] show ?thesis by auto
  qed
qed simp

lemma length_to_lower [simp]: "length (to_lower s) = length s"
  by (simp add: to_lower_def)

lemma equal_fold_refl [simp]: "equal_fold s s"
  by (simp add: equal_fold_def)

lemma str_fields_no_space: "w \<in> set (str_fields s) \<Longrightarrow> w \<noteq> [] \<and> (\<forall>c \<in> set w. \<not> is_space c)"
  using split_by_pieces by (fastforce simp: str_fields_def)

section \<open>Lemmas on integers\<close>

lemma wrap64_id: "min_int \<le> x \<Longrightarrow> x \<le> max_int \<Longrightarrow> wrap64 x = x"
  by (simp add: wrap64_def min_int_def max_int_def)

lemma wrap64_bounds: "min_int \<le> wrap64 x \<and> wrap64 x \<le> max_int"
proof -
  have "0 \<le> (x + 9223372036854775808) mod 18446744073709551616"
    and "(x + 9223372036854775808) mod 18446744073709551616 < 18446744073709551616" by simp_all
  then show ?thesis by (simp add: wrap64_def min_int_def max_int_def)
qed

lemma show_nat_digits: "list_all is_digit (show_nat n)"
proof (induction n rule: show_nat.induct)
  case (1 n)
  have d: "is_digit (char_of (48 + k :: nat))" if "k < 10" for k
    using that by (simp add: is_digit_def byte_in_def)
  show ?case
  proof (cases "n < 10")
    case True
    then show ?thesis using d [of n] by (simp add: show_nat.simps [of n])
  next
    case False
    then show ?thesis using d [of "n mod 10"] 1 by (simp add: show_nat.simps [of n])
  qed
qed

lemma show_nat_inj: "show_nat m = show_nat n \<Longrightarrow> m = n"
proof -
  define val :: "string \<Rightarrow> nat" where "val = foldl (\<lambda>a c. 10 * a + (of_char c - 48)) 0"
  have "val (show_nat k) = k" for k
  proof (induction k rule: show_nat.induct)
    case (1 k)
    have d: "val (s @ [char_of (48 + i)]) = 10 * val s + i" if "i < 10" for s i
      using that by (simp add: val_def)
    show ?case
    proof (cases "k < 10")
      case True
      then show ?thesis using d [of k "[]"] by (simp add: show_nat.simps [of k] val_def)
    next
      case False
      then show ?thesis using d [of "k mod 10" "show_nat (k div 10)"] 1 by (simp add: show_nat.simps [of k])
    qed
  qed
  then show "show_nat m = show_nat n \<Longrightarrow> ?thesis" by metis
qed

lemma digit_chars: "\<not> is_digit CHR ''-''" "\<not> is_digit CHR '':''"
  by code_simp+

lemma show_nat_no_sign: "show_nat m \<noteq> CHR ''-'' # s" "CHR '':'' \<notin> set (show_nat m)"
  using show_nat_digits [of m] digit_chars by (auto simp: list_all_iff)

lemma show_int_inj: "show_int i = show_int j \<Longrightarrow> i = j"
  using show_nat_no_sign(1) by (auto simp: show_int_def dest: show_nat_inj split: if_splits) (metis show_nat_no_sign(1))+

lemma show_int_no_colon: "CHR '':'' \<notin> set (show_int i)"
  using show_nat_no_sign(2) by (simp add: show_int_def)

lemma parse_uint_nonneg: "0 \<le> acc \<Longrightarrow> parse_uint acc s = NumOk v \<Longrightarrow> 0 \<le> v"
  by (induction acc s arbitrary: v rule: parse_uint.induct)
    (auto simp: Let_def is_digit_def byte_in_def split: if_splits)

lemma atoi_bounds: "atoi s = Some v \<Longrightarrow> min_int \<le> v \<and> v \<le> max_int"
proof -
  assume "atoi s = Some v"
  then obtain u body where "parse_uint 0 body = NumOk u" and "v = u \<or> v = - u"
    and "v = u \<longrightarrow> u \<le> max_int \<or> v = - u" and "v = - u \<longrightarrow> min_int \<le> - u \<or> v = u"
    by (auto simp: atoi_def parse_int_def Let_def split: num_result.splits if_splits list.splits)
  moreover from parse_uint_nonneg [OF _ this(1)] have "0 \<le> u" by simp
  ultimately show ?thesis by (auto simp: min_int_def max_int_def)
qed

lemma atoi_Some_val: "atoi s = Some v \<Longrightarrow> atoi_val s = v"
  by (auto simp: atoi_def atoi_val_def split: num_result.splits)

section \<open>Lemmas on maps\<close>

lemma map_of_update [simp]: "map_of (AList.update k v m) = (map_of m)(k \<mapsto> v)"
  by (simp add: update_conv')

lemma map_of_delete [simp]: "map_of (AList.delete k m) = (map_of m)(k := None)"
  by (simp add: delete_conv')

lemma set_update_keys:
  "distinct (map fst xs) \<Longrightarrow> (n, d) \<in> set (AList.update k v xs) \<longleftrightarrow> n = k \<and> d = v \<or> n \<noteq> k \<and> (n, d) \<in> set xs"
  by (induction xs) force+

lemma set_delete: "set (AList.delete k xs) \<subseteq> set xs"
  by (auto simp: AList.delete_eq)

lemma distinct_keys_update [simp]: "distinct (map fst m) \<Longrightarrow> distinct (map fst (AList.update k v m))"
  by (rule distinct_update)

lemma distinct_keys_delete [simp]: "distinct (map fst m) \<Longrightarrow> distinct (map fst (AList.delete k m))"
  by (rule distinct_delete)

section \<open>The contract of a keyed store\<close>

text \<open>
  Several components keep a Go map under a mutex and offer registration, removal and lookup:
  the tool registry, the LLM registry, the brain manager's workers, the open site databases,
  the rooms of the WebSocket hub. The contract is stated once; each component interprets it.
\<close>

locale put_store =
  fixes lookup :: "'s \<Rightarrow> 'k \<Rightarrow> 'v option"
    and put :: "'k \<Rightarrow> 'v \<Rightarrow> 's \<Rightarrow> 's"
  assumes lookup_put: "lookup (put k v s) = (lookup s)(k \<mapsto> v)"
begin

lemma put_then_get: "lookup (put k v s) k = Some v"
  by (simp add: lookup_put)

lemma put_frame: "k' \<noteq> k \<Longrightarrow> lookup (put k v s) k' = lookup s k'"
  by (simp add: lookup_put)

lemma dom_put: "dom (lookup (put k v s)) = insert k (dom (lookup s))"
  by (simp add: lookup_put)

end

locale keyed_store = put_store lookup put
  for lookup :: "'s \<Rightarrow> 'k \<Rightarrow> 'v option" and put :: "'k \<Rightarrow> 'v \<Rightarrow> 's \<Rightarrow> 's" +
  fixes remove :: "'k \<Rightarrow> 's \<Rightarrow> 's"
  assumes lookup_remove: "lookup (remove k s) = (lookup s)(k := None)"
begin

lemma remove_then_get: "lookup (remove k s) k = None"
  by (simp add: lookup_remove)

lemma remove_frame: "k' \<noteq> k \<Longrightarrow> lookup (remove k s) k' = lookup s k'"
  by (simp add: lookup_remove)

lemma put_remove_absent: "lookup s k = None \<Longrightarrow> lookup (remove k (put k v s)) = lookup s"
  by (auto simp: lookup_put lookup_remove)

lemma dom_remove: "dom (lookup (remove k s)) = dom (lookup s) - {k}"
  by (simp add: lookup_remove)

end

section \<open>Invariants of transition systems\<close>

text \<open>
  A component that reacts to events is a step relation. The locale states what makes a predicate
  an invariant of it, and derives that it holds in every state a run reaches.
\<close>

inductive reaches :: "('s \<Rightarrow> 's \<Rightarrow> bool) \<Rightarrow> 's \<Rightarrow> 's \<Rightarrow> bool" for step where
  reaches_refl: "reaches step s s"
| reaches_step: "reaches step s t \<Longrightarrow> step t u \<Longrightarrow> reaches step s u"

lemma reaches_trans: "reaches step t u \<Longrightarrow> reaches step s t \<Longrightarrow> reaches step s u"
  by (induction rule: reaches.induct) (auto intro: reaches.intros)

locale step_invariant =
  fixes step :: "'s \<Rightarrow> 's \<Rightarrow> bool"
    and inv :: "'s \<Rightarrow> bool"
  assumes step_inv: "step s t \<Longrightarrow> inv s \<Longrightarrow> inv t"
begin

lemma reaches_inv: "reaches step s t \<Longrightarrow> inv s \<Longrightarrow> inv t"
  by (induction rule: reaches.induct) (auto dest: step_inv)

end

end
