(* ===== verification/GoTime.thy ===== *)
theory GoTime
  imports Prelude
begin

text \<open>
  The part of Go's \<^verbatim>\<open>time\<close> package that the scheduler and \<^verbatim>\<open>internal/cron\<close> use. An instant is the
  number of nanoseconds since Go's zero time (January 1 of year 1, 00:00 UTC), a location is a
  fixed offset from UTC in nanoseconds. Zones with daylight saving change their offset during the
  year; they are outside the model. \<^verbatim>\<open>Truncate\<close> works on the instant, as the package documents, not
  on the local clock.
\<close>

type_synonym instant = int
type_synonym location = int

abbreviation second_ns :: int where "second_ns \<equiv> 1000000000"
abbreviation minute_ns :: int where "minute_ns \<equiv> 60000000000"
abbreviation hour_ns :: int where "hour_ns \<equiv> 3600000000000"
abbreviation day_ns :: int where "day_ns \<equiv> 86400000000000"

section \<open>The civil calendar\<close>

definition leap :: "int \<Rightarrow> bool" where
  "leap y \<longleftrightarrow> y mod 4 = 0 \<and> (y mod 100 \<noteq> 0 \<or> y mod 400 = 0)"

definition month_days :: "int \<Rightarrow> int \<Rightarrow> int" where
  "month_days y m =
     (if m = 2 then (if leap y then 29 else 28) else if m \<in> {4, 6, 9, 11} then 30 else 31)"

definition days_before_year :: "int \<Rightarrow> int" where
  "days_before_year y = 365 * (y - 1) + (y - 1) div 4 - (y - 1) div 100 + (y - 1) div 400"

definition days_before_month :: "int \<Rightarrow> int \<Rightarrow> int" where
  "days_before_month y m = sum_list (map (month_days y) [1..m - 1])"

definition date_days :: "int \<Rightarrow> int \<Rightarrow> int \<Rightarrow> int" where
  \<comment> \<open>days since the zero time; a month or day beyond its end is carried over, as \<^verbatim>\<open>time.Date\<close> does\<close>
  "date_days y m d =
     (let y' = y + (m - 1) div 12; m' = (m - 1) mod 12 + 1
      in days_before_year y' + days_before_month y' m' + d - 1)"

lemma div_pred: "0 < n \<Longrightarrow> (y::int) div n = (y - 1) div n + (if y mod n = 0 then 1 else 0)"
proof -
  assume n: "0 < n"
  define q r where "q = y div n" and "r = y mod n"
  have y: "y = n * q + r" and r: "0 \<le> r" "r < n"
    using n by (simp_all add: q_def r_def)
  show ?thesis
  proof (cases "r = 0")
    case True
    have "(y - 1) div n = q - 1"
      by (rule int_div_pos_eq [where r = "n - 1"]) (use n y True in \<open>auto simp: algebra_simps\<close>)
    with True show ?thesis by (simp add: q_def r_def)
  next
    case False
    have "(y - 1) div n = q"
      by (rule int_div_pos_eq [where r = "r - 1"]) (use n y r False in \<open>auto simp: algebra_simps\<close>)
    with False show ?thesis by (simp add: q_def r_def)
  qed
qed

lemma days_before_year_Suc: "days_before_year (y + 1) = days_before_year y + (if leap y then 366 else 365)"
proof -
  have dvd: "y mod 400 = 0 \<Longrightarrow> y mod 100 = 0" "y mod 100 = 0 \<Longrightarrow> y mod 4 = 0"
    by (simp_all add: mod_eq_0_iff_dvd dvd_trans [of 100 400] dvd_trans [of 4 100])
  have "days_before_year (y + 1) = days_before_year y + 365 + (if y mod 4 = 0 then 1 else 0)
      - (if y mod 100 = 0 then 1 else 0) + (if y mod 400 = 0 then 1 else 0)"
    (is "_ = days_before_year y + 365 + ?a - ?b + ?c")
  proof -
    have "days_before_year (y + 1) =
        365 * y + ((y - 1) div 4 + ?a) - ((y - 1) div 100 + ?b) + ((y - 1) div 400 + ?c)"
      by (simp only: days_before_year_def add_diff_cancel_right'
          div_pred [of 4 y, OF zero_less_numeral] div_pred [of 100 y, OF zero_less_numeral]
          div_pred [of 400 y, OF zero_less_numeral])
    then show ?thesis by (simp only: days_before_year_def right_diff_distrib)
  qed
  then show ?thesis
    by (cases "y mod 400 = 0"; cases "y mod 100 = 0"; cases "y mod 4 = 0") (use dvd in \<open>simp_all add: leap_def\<close>)
qed

lemma days_before_year_step: "days_before_year y < days_before_year (y + 1)"
  by (simp add: days_before_year_Suc)

lemma days_before_year_mono: "y < z \<Longrightarrow> days_before_year (y + 1) \<le> days_before_year z"
proof (induction "nat (z - y)" arbitrary: z)
  case 0
  then show ?case by simp
next
  case (Suc n)
  show ?case
  proof (cases "z = y + 1")
    case False
    with Suc.prems have "y < z - 1" by simp
    moreover have "n = nat (z - 1 - y)" using Suc.hyps(2) by simp
    ultimately have "days_before_year (y + 1) \<le> days_before_year (z - 1)" by (rule Suc.hyps(1) [rotated])
    with days_before_year_step [of "z - 1"] show ?thesis by simp
  qed simp
qed

lemma days_before_year_cycle: "days_before_year (y + 400 * q) = days_before_year y + 146097 * q"
proof -
  have "(y - 1 + 400 * q) div 4 = (y - 1) div 4 + 100 * q"
    and "(y - 1 + 400 * q) div 100 = (y - 1) div 100 + 4 * q"
    and "(y - 1 + 400 * q) div 400 = (y - 1) div 400 + q"
    using div_mult_self2 [of 4 "y - 1" "100 * q"] div_mult_self2 [of 100 "y - 1" "4 * q"]
      div_mult_self2 [of 400 "y - 1" q] by simp_all
  then show ?thesis by (simp add: days_before_year_def algebra_simps)
qed

function year_from :: "int \<Rightarrow> int \<Rightarrow> int" where
  "year_from y d = (if days_before_year (y + 1) \<le> d then year_from (y + 1) d else y)"
  by pat_completeness auto
termination
proof (relation "measure (\<lambda>(y, d). nat (d - days_before_year y))")
  fix y d
  assume "days_before_year (y + 1) \<le> d"
  with days_before_year_step [of y]
  show "((y + 1, d), (y, d)) \<in> measure (\<lambda>(y, d). nat (d - days_before_year y))" by simp
qed simp

declare year_from.simps [simp del]

definition year_of :: "int \<Rightarrow> int" where
  "year_of d = (let r = d mod 146097 in 400 * (d div 146097) + year_from (r div 366 + 1) r)"

function month_from :: "int \<Rightarrow> int \<Rightarrow> int \<Rightarrow> int \<times> int" where
  "month_from y m r =
     (if m < 12 \<and> month_days y m \<le> r then month_from y (m + 1) (r - month_days y m) else (m, r + 1))"
  by pat_completeness auto
termination
  by (relation "measure (\<lambda>(y, m, r). nat (12 - m))") auto

declare month_from.simps [simp del]

definition civil :: "int \<Rightarrow> int \<times> int \<times> int" where
  "civil d = (let y = year_of d in (y, month_from y 1 (d - days_before_year y)))"

lemma year_from_bounds:
  "days_before_year y \<le> d \<Longrightarrow>
     days_before_year (year_from y d) \<le> d \<and> d < days_before_year (year_from y d + 1)"
proof (induction y d rule: year_from.induct)
  case (1 y d)
  then show ?case
    by (cases "days_before_year (y + 1) \<le> d") (auto simp: year_from.simps [of y d])
qed

lemma year_of_bounds: "days_before_year (year_of d) \<le> d \<and> d < days_before_year (year_of d + 1)"
proof -
  define q r where "q = d div 146097" and "r = d mod 146097"
  have d: "d = 146097 * q + r" and r: "0 \<le> r" by (simp_all add: q_def r_def)
  define k where "k = r div 366"
  have k: "0 \<le> k" "366 * k \<le> r" using r by (simp_all add: k_def pos_imp_zdiv_nonneg_iff)
  have "365 * k + k div 4 - k div 100 + k div 400 \<le> 366 * k"
    using zdiv_mono2 [of k 1 4] zdiv_mono2 [of k 100 400] k(1) by simp
  then have "days_before_year (k + 1) \<le> r"
    using k by (simp add: days_before_year_def)
  from year_from_bounds [OF this]
  have "days_before_year (year_from (k + 1) r) \<le> r \<and> r < days_before_year (year_from (k + 1) r + 1)" .
  moreover have "year_of d = year_from (k + 1) r + 400 * q"
    by (simp add: year_of_def Let_def q_def r_def k_def)
  moreover have "days_before_year (year_from (k + 1) r + 400 * q + 1)
      = days_before_year (year_from (k + 1) r + 1) + 146097 * q"
    using days_before_year_cycle [of "year_from (k + 1) r + 1" q] by (simp add: algebra_simps)
  ultimately show ?thesis by (simp add: days_before_year_cycle d)
qed

lemma year_of_unique:
  "days_before_year y \<le> d \<Longrightarrow> d < days_before_year (y + 1) \<Longrightarrow> year_of d = y"
  using year_of_bounds [of d] days_before_year_mono [of y "year_of d"]
    days_before_year_mono [of "year_of d" y]
  by (cases "year_of d" y rule: linorder_cases) auto

lemma month_days_pos: "28 \<le> month_days y m"
  by (simp add: month_days_def)

lemma days_before_month_Suc:
  "1 \<le> m \<Longrightarrow> days_before_month y (m + 1) = days_before_month y m + month_days y m"
  by (simp add: days_before_month_def upto_rec2 [of 1 m])

lemma days_before_month_1: "days_before_month y 1 = 0"
  by (simp add: days_before_month_def)

lemma days_before_month_year: "days_before_month y 13 = (if leap y then 366 else 365)"
  by (simp add: days_before_month_def month_days_def upto.simps)

lemma month_from_spec:
  assumes "1 \<le> m" "m \<le> 12" "0 \<le> r" "days_before_month y m + r < days_before_month y 13"
  shows "case month_from y m r of (m', d) \<Rightarrow>
     m \<le> m' \<and> m' \<le> 12 \<and> 1 \<le> d \<and> d \<le> month_days y m' \<and>
     days_before_month y m' + d - 1 = days_before_month y m + r"
  using assms
proof (induction y m r rule: month_from.induct)
  case (1 y m r)
  show ?case
  proof (cases "m < 12 \<and> month_days y m \<le> r")
    case True
    with 1 days_before_month_Suc [of m y] show ?thesis
      by (auto simp: month_from.simps [of y m r] split: prod.splits)
  next
    case False
    moreover have "m = 12 \<Longrightarrow> r < month_days y m"
      using 1(5) days_before_month_Suc [of 12 y] by simp
    moreover from False have "month_from y m r = (m, r + 1)"
      by (subst month_from.simps) (simp only: if_False)
    ultimately show ?thesis using 1 by auto
  qed
qed

lemma month_from_hit:
  "1 \<le> m \<Longrightarrow> m \<le> m' \<Longrightarrow> m' \<le> 12 \<Longrightarrow> 1 \<le> d \<Longrightarrow> d \<le> month_days y m' \<Longrightarrow>
     month_from y m (days_before_month y m' - days_before_month y m + d - 1) = (m', d)"
proof (induction "nat (m' - m)" arbitrary: m)
  case 0
  then show ?case by (simp add: month_from.simps [of y m])
next
  case (Suc n)
  from Suc.hyps(2) have lt: "m < m'" by simp
  define r where "r = days_before_month y m' - days_before_month y (m + 1) + d - 1"
  have step: "days_before_month y m' - days_before_month y m + d - 1 = r + month_days y m"
    using days_before_month_Suc [of m y] Suc.prems by (simp add: r_def)
  have IH: "month_from y (m + 1) r = (m', d)"
    unfolding r_def by (rule Suc.hyps(1)) (use Suc lt in auto)
  have "1 \<le> m'" using lt Suc.prems by simp
  have "0 \<le> r"
  proof -
    have "days_before_month y (m + 1) \<le> days_before_month y m'"
      using lt
    proof (induction "nat (m' - m)" arbitrary: m')
      case (Suc k)
      show ?case
      proof (cases "m' = m + 1")
        case False
        with Suc have "days_before_month y (m + 1) \<le> days_before_month y (m' - 1)" by simp
        moreover have "days_before_month y m' = days_before_month y (m' - 1) + month_days y (m' - 1)"
          using days_before_month_Suc [of "m' - 1" y] False Suc.prems \<open>1 \<le> m\<close> by simp
        ultimately show ?thesis using month_days_pos [of y "m' - 1"] by simp
      qed simp
    qed simp
    with Suc.prems show ?thesis by (simp add: r_def)
  qed
  with IH lt Suc.prems show ?case by (simp add: step month_from.simps [of y m])
qed

text \<open>A date is valid when its month and day are in range; \<^term>\<open>civil\<close> and \<^term>\<open>date_days\<close> are inverse there.\<close>

definition valid_date :: "int \<Rightarrow> int \<Rightarrow> int \<Rightarrow> bool" where
  "valid_date y m d \<longleftrightarrow> 1 \<le> m \<and> m \<le> 12 \<and> 1 \<le> d \<and> d \<le> month_days y m"

lemma date_days_plain: "1 \<le> m \<Longrightarrow> m \<le> 12 \<Longrightarrow>
    date_days y m d = days_before_year y + days_before_month y m + d - 1"
  by (simp add: date_days_def div_pos_pos_trivial)

lemma date_days_next_month: "1 \<le> m \<Longrightarrow> m \<le> 12 \<Longrightarrow>
    date_days y (m + 1) 1 = days_before_year y + days_before_month y m + month_days y m"
proof (cases "m = 12")
  case True
  then show ?thesis
    using days_before_month_Suc [of 12 y] days_before_month_1 [of "y + 1"]
    by (simp add: date_days_def days_before_year_Suc days_before_month_year)
next
  case False
  assume "1 \<le> m" "m \<le> 12"
  with False show ?thesis by (simp add: date_days_plain days_before_month_Suc)
qed

lemma civil_valid: "civil n = (y, m, d) \<Longrightarrow> valid_date y m d \<and> date_days y m d = n"
proof -
  assume c: "civil n = (y, m, d)"
  then have y: "y = year_of n" and md: "month_from y 1 (n - days_before_year y) = (m, d)"
    by (auto simp: civil_def Let_def)
  have "days_before_month y 1 + (n - days_before_year y) < days_before_month y 13"
    using year_of_bounds [of n] by (simp add: y days_before_month_1 days_before_month_year days_before_year_Suc)
  with month_from_spec [of 1 "n - days_before_year y" y] year_of_bounds [of n] md y
  show ?thesis by (auto simp: valid_date_def days_before_month_1 date_days_plain)
qed

lemma civil_date: "valid_date y m d \<Longrightarrow> civil (date_days y m d) = (y, m, d)"
proof -
  assume v: "valid_date y m d"
  then have m: "1 \<le> m" "m \<le> 12" and d: "1 \<le> d" "d \<le> month_days y m" by (simp_all add: valid_date_def)
  have hit: "month_from y 1 (days_before_month y m - days_before_month y 1 + d - 1) = (m, d)"
    by (rule month_from_hit) (use m d in auto)
  define r where "r = days_before_month y m + d - 1"
  have n: "date_days y m d = days_before_year y + r" using m by (simp add: date_days_plain r_def)
  have "0 \<le> sum_list (map (month_days y) [1..m - 1])"
    by (rule sum_list_nonneg) (use month_days_pos in \<open>auto intro: order_trans [of 0 28]\<close>)
  then have r0: "0 \<le> r" using d by (simp add: r_def days_before_month_def)
  have r1: "r < (if leap y then 366 else 365)"
  proof -
    have "date_days y (m + 1) 1 \<le> days_before_year (y + 1)"
    proof (cases "m = 12")
      case True
      then show ?thesis
        by (simp add: date_days_def days_before_month_1)
    next
      case False
      have "days_before_month y (m + 1) \<le> days_before_month y 13"
      proof -
        have "[1..12] = [1..m] @ [m + 1..12]"
          by (rule upto_split1 [where i = 1 and j = "m + 1" and k = 12, simplified]) (use m False in auto)
        moreover have "0 \<le> sum_list (map (month_days y) [m + 1..12])"
          by (rule sum_list_nonneg) (use month_days_pos in \<open>auto intro: order_trans [of 0 28]\<close>)
        ultimately show ?thesis by (simp add: days_before_month_def)
      qed
      with m False show ?thesis
        by (simp add: date_days_plain days_before_year_Suc days_before_month_year)
    qed
    with d m show ?thesis
      by (simp add: date_days_next_month r_def days_before_year_Suc)
  qed
  have "year_of (date_days y m d) = y"
    by (rule year_of_unique) (use r0 r1 n in \<open>simp_all add: days_before_year_Suc\<close>)
  with hit n show ?thesis by (simp add: civil_def r_def days_before_month_1)
qed

lemma civil_same_month:
  assumes "civil n = (y, m, d)" "n \<le> n'" "n' < date_days y (m + 1) 1"
  shows "civil n' = (y, m, d + (n' - n))"
proof -
  from civil_valid [OF assms(1)] have v: "valid_date y m d" and n: "date_days y m d = n" by simp_all
  then have m: "1 \<le> m" "m \<le> 12" by (simp_all add: valid_date_def)
  have "valid_date y m (d + (n' - n))"
    using v n assms(2,3) m by (auto simp: valid_date_def date_days_plain date_days_next_month)
  moreover have "date_days y m (d + (n' - n)) = n'"
    using n m by (simp add: date_days_plain)
  ultimately show ?thesis using civil_date by fastforce
qed

lemma civil_before_next_month: "civil n = (y, m, d) \<Longrightarrow> n < date_days y (m + 1) 1"
  using civil_valid [of n y m d] by (auto simp: valid_date_def date_days_plain date_days_next_month)

section \<open>Instants\<close>

definition local_day :: "location \<Rightarrow> instant \<Rightarrow> int" where
  "local_day loc t = (t + loc) div day_ns"

definition Year :: "location \<Rightarrow> instant \<Rightarrow> int" where
  "Year loc t = fst (civil (local_day loc t))"

definition Month :: "location \<Rightarrow> instant \<Rightarrow> int" where
  "Month loc t = fst (snd (civil (local_day loc t)))"

definition Day :: "location \<Rightarrow> instant \<Rightarrow> int" where
  "Day loc t = snd (snd (civil (local_day loc t)))"

definition Weekday :: "location \<Rightarrow> instant \<Rightarrow> int" where
  \<comment> \<open>Sunday is 0; the zero time is a Monday\<close>
  "Weekday loc t = (local_day loc t + 1) mod 7"

definition Hour :: "location \<Rightarrow> instant \<Rightarrow> int" where
  "Hour loc t = (t + loc) div hour_ns mod 24"

definition Minute :: "location \<Rightarrow> instant \<Rightarrow> int" where
  "Minute loc t = (t + loc) div minute_ns mod 60"

definition midnight :: "location \<Rightarrow> int \<Rightarrow> int \<Rightarrow> int \<Rightarrow> instant" where
  \<comment> \<open>\<^verbatim>\<open>time.Date(y, m, d, 0, 0, 0, 0, loc)\<close>\<close>
  "midnight loc y m d = date_days y m d * day_ns - loc"

definition Truncate :: "instant \<Rightarrow> int \<Rightarrow> instant" where
  "Truncate t d = t - t mod d"

lemma div_less_iff: "(0::int) < b \<Longrightarrow> a div b < n \<longleftrightarrow> a < n * b"
  using div_mult_self1 [of b a "- n"] pos_imp_zdiv_nonneg_iff [of b "a - n * b"] by auto

lemma div_same_block: "(0::int) < b \<Longrightarrow> c \<le> t \<Longrightarrow> t < c - c mod b + b \<Longrightarrow> t div b = c div b"
proof (rule int_div_pos_eq)
  assume b: "0 < b" and ct: "c \<le> t" and tb: "t < c - c mod b + b"
  have c: "c = b * (c div b) + c mod b" by simp
  show "t = b * (c div b) + (t - b * (c div b))" by simp
  have "0 \<le> c mod b" using b by simp
  with c ct show "0 \<le> t - b * (c div b)" by linarith
  from c tb show "t - b * (c div b) < b" by linarith
qed

lemma Truncate_le: "0 < d \<Longrightarrow> Truncate t d \<le> t \<and> t < Truncate t d + d"
  using pos_mod_sign [of d t] pos_mod_bound [of d t] by (simp add: Truncate_def)

lemma Truncate_mod: "0 < d \<Longrightarrow> Truncate t d mod d = 0"
  by (simp add: Truncate_def minus_mod_eq_mult_div)

end
