(* ===== verification/Cron.thy ===== *)
theory Cron
  imports GoTime
begin

text \<open>
  The cron expressions of \<^verbatim>\<open>internal/cron/cron.go\<close>: the validator, the parser of a field and the
  search for the next firing time. Field values are Go \<^verbatim>\<open>int\<close>s; the loops that fill a set wrap
  around at 64 bits and may not end, so \<^verbatim>\<open>parseField\<close> is partial. The results: an expression the
  validator accepts (with a step below $2^{62}$) always parses, to sets inside the limits; the search
  terminates; in a location whose offset is a whole number of hours it returns the least matching
  minute of the window; in a half-hour location it can miss a time that matches.
\<close>

section \<open>Validation\<close>

datatype cron_error =
    FieldCount nat
  | FieldError nat string cron_error
  | EmptyValue
  | InvalidStep string
  | InvalidValue string
  | OutOfRange int int int
  | InvalidRangeStart string
  | InvalidRangeEnd string
  | InvalidRange int int int int

definition validate_value :: "string \<Rightarrow> int \<Rightarrow> int \<Rightarrow> cron_error option" where
  "validate_value expr mn mx =
     (case atoi expr of
        None \<Rightarrow> Some (InvalidValue expr)
      | Some val \<Rightarrow> if val < mn \<or> val > mx then Some (OutOfRange val mn mx) else None)"

definition validateRange :: "string \<Rightarrow> int \<Rightarrow> int \<Rightarrow> cron_error option" where
  "validateRange expr mn mx =
     (case cut ''-'' expr of
        None \<Rightarrow> validate_value expr mn mx
      | Some (a, b) \<Rightarrow>
          (case atoi a of
             None \<Rightarrow> Some (InvalidRangeStart a)
           | Some start \<Rightarrow>
               (case atoi b of
                  None \<Rightarrow> Some (InvalidRangeEnd b)
                | Some stop \<Rightarrow>
                    if start < mn \<or> stop > mx \<or> start > stop
                    then Some (InvalidRange start stop mn mx) else None)))"

definition validate_part :: "int \<Rightarrow> int \<Rightarrow> string \<Rightarrow> cron_error option" where
  "validate_part mn mx raw =
     (let part = trim_space raw in
      if part = [] then Some EmptyValue
      else if part = ''*'' then None
      else (case cut ''/'' part of
              Some (rng, step) \<Rightarrow>
                (case atoi step of
                   None \<Rightarrow> Some (InvalidStep step)
                 | Some n \<Rightarrow>
                     if n \<le> 0 then Some (InvalidStep step)
                     else if rng \<noteq> ''*'' then validateRange rng mn mx
                     else None)
            | None \<Rightarrow>
                if contains part ''-'' then validateRange part mn mx
                else validate_value part mn mx))"

fun first_error :: "('a \<Rightarrow> cron_error option) \<Rightarrow> 'a list \<Rightarrow> cron_error option" where
  "first_error f [] = None"
| "first_error f (x # xs) = (case f x of Some e \<Rightarrow> Some e | None \<Rightarrow> first_error f xs)"

definition validateField :: "string \<Rightarrow> int \<Rightarrow> int \<Rightarrow> cron_error option" where
  "validateField field mn mx = first_error (validate_part mn mx) (split_on CHR '','' field)"

definition field_limits :: "(string \<times> int \<times> int) list" where
  "field_limits =
     [(''minute'', 0, 59), (''hour'', 0, 23), (''day_of_month'', 1, 31), (''month'', 1, 12),
      (''day_of_week'', 0, 6)]"

definition Validate :: "string \<Rightarrow> cron_error option" where
  "Validate expr =
     (let fs = str_fields expr in
      if length fs \<noteq> 5 then Some (FieldCount (length fs))
      else first_error
             (\<lambda>(i, field, name, mn, mx).
                map_option (FieldError (i + 1) name) (validateField field mn mx))
             (zip [0..<5] (zip fs field_limits)))"

section \<open>Parsing a field\<close>

partial_function (option) fill_range :: "int \<Rightarrow> int \<Rightarrow> int \<Rightarrow> int list \<Rightarrow> int list option" where
  \<comment> \<open>\<^verbatim>\<open>for i := start; i <= end; i += step { set[i] = true }\<close>\<close>
  "fill_range i stop step acc =
     (if i \<le> stop then fill_range (wrap64 (i + step)) stop step (i # acc) else Some acc)"

definition parse_part :: "int \<Rightarrow> int \<Rightarrow> string \<Rightarrow> int list \<Rightarrow> int list option" where
  "parse_part mn mx raw acc =
     (let part = trim_space raw in
      case cut ''/'' part of
        Some (rng, st) \<Rightarrow>
          (let step = (case atoi st of None \<Rightarrow> 1 | Some n \<Rightarrow> if n \<le> 0 then 1 else n);
               (start, stop) =
                 (if rng = ''*'' then (mn, mx)
                  else (case cut ''-'' rng of
                          Some (a, b) \<Rightarrow> (atoi_val a, atoi_val b)
                        | None \<Rightarrow> (atoi_val rng, mx)))
           in fill_range start stop step acc)
      | None \<Rightarrow>
          if part = ''*'' then Some (rev [mn..mx] @ acc)
          else (case cut ''-'' part of
                  Some (a, b) \<Rightarrow>
                    (case (atoi a, atoi b) of
                       (Some start, Some stop) \<Rightarrow> fill_range start stop 1 acc
                     | _ \<Rightarrow> Some acc)
                | None \<Rightarrow>
                    (case atoi part of
                       Some v \<Rightarrow> Some (if mn \<le> v \<and> v \<le> mx then v # acc else acc)
                     | None \<Rightarrow> Some acc)))"

fun parse_parts :: "int \<Rightarrow> int \<Rightarrow> string list \<Rightarrow> int list \<Rightarrow> int list option" where
  "parse_parts mn mx [] acc = Some acc"
| "parse_parts mn mx (p # ps) acc = Option.bind (parse_part mn mx p acc) (parse_parts mn mx ps)"

definition parseField :: "string \<Rightarrow> int \<Rightarrow> int \<Rightarrow> int list option" where
  "parseField field mn mx =
     map_option (\<lambda>s. if s = [] then [mn..mx] else s)
       (parse_parts mn mx (split_on CHR '','' field) [])"

section \<open>The next firing time\<close>

record cron_sets =
  minuteSet :: "int list"
  hourSet :: "int list"
  domSet :: "int list"
  monthSet :: "int list"
  dowSet :: "int list"

definition parse_sets :: "string list \<Rightarrow> cron_sets option" where
  "parse_sets fs =
     Option.bind (parseField (fs ! 0) 0 59) (\<lambda>mi.
     Option.bind (parseField (fs ! 1) 0 23) (\<lambda>ho.
     Option.bind (parseField (fs ! 2) 1 31) (\<lambda>dm.
     Option.bind (parseField (fs ! 3) 1 12) (\<lambda>mo.
     Option.bind (parseField (fs ! 4) 0 6) (\<lambda>dw.
       Some \<lparr>minuteSet = mi, hourSet = ho, domSet = dm, monthSet = mo, dowSet = dw\<rparr>)))))"

definition matches :: "location \<Rightarrow> cron_sets \<Rightarrow> instant \<Rightarrow> bool" where
  "matches loc cs c \<longleftrightarrow>
     Month loc c \<in> set (monthSet cs) \<and> Day loc c \<in> set (domSet cs) \<and>
     Weekday loc c \<in> set (dowSet cs) \<and> Hour loc c \<in> set (hourSet cs) \<and>
     Minute loc c \<in> set (minuteSet cs)"

definition advance :: "location \<Rightarrow> cron_sets \<Rightarrow> instant \<Rightarrow> instant" where
  "advance loc cs c =
     (if Month loc c \<notin> set (monthSet cs) then midnight loc (Year loc c) (Month loc c + 1) 1
      else if Day loc c \<notin> set (domSet cs) \<or> Weekday loc c \<notin> set (dowSet cs)
        then midnight loc (Year loc c) (Month loc c) (Day loc c + 1)
      else if Hour loc c \<notin> set (hourSet cs) then Truncate c hour_ns + hour_ns
      else c + minute_ns)"

lemma local_day_midnight:
  "civil (local_day loc c) = (y, m, d) \<Longrightarrow>
     midnight loc y m (d + 1) = (local_day loc c + 1) * day_ns - loc"
  using civil_valid [of "local_day loc c" y m d]
  by (auto simp: midnight_def valid_date_def date_days_plain algebra_simps)

lemma before_local_day_end: "n * day_ns - loc > c \<longleftrightarrow> local_day loc c < n"
  unfolding local_day_def by (subst div_less_iff) auto

lemma advance_gt: "c < advance loc cs c"
proof -
  obtain y m d where ymd: "civil (local_day loc c) = (y, m, d)" by (cases "civil (local_day loc c)")
  then have fields: "Year loc c = y" "Month loc c = m" "Day loc c = d"
    by (simp_all add: Year_def Month_def Day_def)
  have "c < midnight loc y (m + 1) 1"
    unfolding midnight_def before_local_day_end by (rule civil_before_next_month [OF ymd])
  moreover have "c < midnight loc y m (d + 1)"
    unfolding local_day_midnight [OF ymd] before_local_day_end by simp
  moreover have "c < Truncate c hour_ns + hour_ns" using Truncate_le by simp
  ultimately show ?thesis by (simp add: advance_def fields)
qed

function next_loop :: "location \<Rightarrow> cron_sets \<Rightarrow> instant \<Rightarrow> instant \<Rightarrow> instant option" where
  "next_loop loc cs limit c =
     (if c < limit then if matches loc cs c then Some c else next_loop loc cs limit (advance loc cs c)
      else None)"
  by pat_completeness auto
termination
proof (relation "measure (\<lambda>(loc, cs, limit, c). nat (limit - c))")
  fix loc cs and limit c :: instant
  assume "c < limit"
  then show "((loc, cs, limit, advance loc cs c), (loc, cs, limit, c))
      \<in> measure (\<lambda>(loc, cs, limit, c). nat (limit - c))"
    using advance_gt [of c loc cs] by simp
qed simp

declare next_loop.simps [simp del]

definition search_start :: "instant \<Rightarrow> instant" where
  "search_start after = Truncate after minute_ns + minute_ns"

definition search_limit :: "instant \<Rightarrow> instant" where
  "search_limit after = search_start after + 366 * 24 * hour_ns"

definition NextTime :: "location \<Rightarrow> string \<Rightarrow> instant \<Rightarrow> instant option" where
  \<comment> \<open>\<^term>\<open>None\<close>: a loop of \<^verbatim>\<open>parseField\<close> does not end\<close>
  "NextTime loc expr after =
     (let fs = str_fields expr in
      if length fs \<noteq> 5 then Some (after + hour_ns)
      else map_option
             (\<lambda>cs. case next_loop loc cs (search_limit after) (search_start after) of
                     Some c \<Rightarrow> c
                   | None \<Rightarrow> after + hour_ns)
             (parse_sets fs))"

section \<open>Validated fields parse to sets inside their limits\<close>

lemma fill_range_mono:
  assumes "0 < step" "min_int \<le> i" "stop + step \<le> max_int"
  shows "\<exists>s. fill_range i stop step acc = Some (s @ acc) \<and> set s = {j. i \<le> j \<and> j \<le> stop \<and> step dvd j - i}"
  using assms(2)
proof (induction "nat (stop + 1 - i)" arbitrary: i acc rule: less_induct)
  case less
  show ?case
  proof (cases "i \<le> stop")
    case True
    with less.prems assms have w: "wrap64 (i + step) = i + step"
      by (intro wrap64_id) (auto simp: min_int_def max_int_def)
    have "nat (stop + 1 - (i + step)) < nat (stop + 1 - i)" using True assms(1) by simp
    moreover have "min_int \<le> i + step" using less.prems assms(1) by simp
    ultimately obtain s where s: "fill_range (i + step) stop step (i # acc) = Some (s @ i # acc)"
      and set_s: "set s = {j. i + step \<le> j \<and> j \<le> stop \<and> step dvd j - (i + step)}"
      using less.hyps by blast
    have "set (s @ [i]) = {j. i \<le> j \<and> j \<le> stop \<and> step dvd j - i}"
    proof (intro set_eqI iffI)
      fix j assume "j \<in> set (s @ [i])"
      then show "j \<in> {j. i \<le> j \<and> j \<le> stop \<and> step dvd j - i}"
        using True assms(1) dvd_add [of step "j - (i + step)" step] by (auto simp: set_s)
    next
      fix j assume j: "j \<in> {j. i \<le> j \<and> j \<le> stop \<and> step dvd j - i}"
      show "j \<in> set (s @ [i])"
      proof (cases "j = i")
        case False
        with j have "0 < j - i" "step dvd j - i" by auto
        then have "step \<le> j - i" by (rule zdvd_imp_le [rotated])
        with j show ?thesis using dvd_diff [of step "j - i" step] by (auto simp: set_s algebra_simps)
      qed simp
    qed
    moreover have "fill_range i stop step acc = Some ((s @ [i]) @ acc)"
      using True s by (simp add: fill_range.simps [of i] w)
    ultimately show ?thesis by blast
  next
    case False
    then show ?thesis by (auto simp: fill_range.simps [of i])
  qed
qed

definition step_small :: "string \<Rightarrow> bool" where
  \<comment> \<open>every step of the field is below $2^{62}$\<close>
  "step_small field \<longleftrightarrow>
     list_all (\<lambda>p. case cut ''/'' (trim_space p) of
                     Some (a, st) \<Rightarrow> atoi_val st < 4611686018427387904 | None \<Rightarrow> True)
       (split_on CHR '','' field)"

lemma validate_value_None:
  "validate_value e mn mx = None \<longleftrightarrow> (\<exists>v. atoi e = Some v \<and> mn \<le> v \<and> v \<le> mx)"
  by (auto simp: validate_value_def split: option.splits)

lemma validateRange_None:
  "validateRange e mn mx = None \<longleftrightarrow>
     (case cut ''-'' e of
        None \<Rightarrow> validate_value e mn mx = None
      | Some (a, b) \<Rightarrow> \<exists>i j. atoi a = Some i \<and> atoi b = Some j \<and> mn \<le> i \<and> i \<le> j \<and> j \<le> mx)"
  by (auto simp: validateRange_def split: option.splits)

lemma fill_range_field:
  assumes "0 \<le> mn" "mx \<le> 59" "mn \<le> i" "i \<le> stop" "stop \<le> mx" "0 < step" "step < 4611686018427387904"
  shows "\<exists>s. fill_range i stop step acc = Some (s @ acc) \<and> s \<noteq> [] \<and> set s \<subseteq> {mn..mx}"
proof -
  from fill_range_mono [of step i stop acc] assms
  obtain s where s: "fill_range i stop step acc = Some (s @ acc)"
    and set_s: "set s = {j. i \<le> j \<and> j \<le> stop \<and> step dvd j - i}"
    by (auto simp: min_int_def max_int_def)
  from set_s assms have "i \<in> set s" "set s \<subseteq> {mn..mx}" by auto
  with s show ?thesis by (metis empty_iff list.set(1))
qed

lemma parse_part_valid:
  assumes v: "validate_part mn mx p = None" and lim: "0 \<le> mn" "mn \<le> mx" "mx \<le> 59"
    and small: "case cut ''/'' (trim_space p) of Some (a, st) \<Rightarrow> atoi_val st < 4611686018427387904 | None \<Rightarrow> True"
  shows "\<exists>s. parse_part mn mx p acc = Some (s @ acc) \<and> s \<noteq> [] \<and> set s \<subseteq> {mn..mx}"
proof (cases "cut ''/'' (trim_space p)")
  case None
  show ?thesis
  proof (cases "trim_space p = ''*''")
    case True
    with None lim show ?thesis by (simp add: parse_part_def)
  next
    case False
    with v None have v': "if contains (trim_space p) ''-'' then validateRange (trim_space p) mn mx = None
        else validate_value (trim_space p) mn mx = None"
      by (auto simp: validate_part_def Let_def split: if_splits)
    show ?thesis
    proof (cases "cut ''-'' (trim_space p)")
      case cNone: None
      with v' obtain w where "atoi (trim_space p) = Some w" "mn \<le> w" "w \<le> mx"
        by (auto simp: contains_def validate_value_None)
      with None False cNone show ?thesis by (simp add: parse_part_def)
    next
      case (Some ab)
      with v' obtain a b i j where ab: "ab = (a, b)" "atoi a = Some i" "atoi b = Some j" "mn \<le> i" "i \<le> j" "j \<le> mx"
        by (auto simp: contains_def validateRange_None)
      with fill_range_field [of mn mx i j 1 acc] lim Some None False show ?thesis
        by (simp add: parse_part_def)
    qed
  qed
next
  case (Some rs)
  obtain rng st where rs: "rs = (rng, st)" by (cases rs)
  have ne: "trim_space p \<noteq> []" using Some by (cases "trim_space p") auto
  have star: "trim_space p \<noteq> ''*''" using Some by (auto simp: has_prefix_def)
  from v Some rs ne star obtain n where n: "atoi st = Some n" "0 < n"
    and rv: "rng \<noteq> ''*'' \<Longrightarrow> validateRange rng mn mx = None"
    by (auto simp: validate_part_def Let_def split: if_splits option.splits)
  from small Some rs n have n62: "n < 4611686018427387904" by (simp add: atoi_Some_val)
  obtain start stop where ss: "mn \<le> start" "start \<le> stop" "stop \<le> mx"
    and eq: "(if rng = ''*'' then (mn, mx)
              else (case cut ''-'' rng of Some (a, b) \<Rightarrow> (atoi_val a, atoi_val b)
                    | None \<Rightarrow> (atoi_val rng, mx))) = (start, stop)"
  proof (cases "rng = ''*''")
    case True
    with that lim show ?thesis by simp
  next
    case False
    with rv show ?thesis
      using that by (fastforce simp: validateRange_None validate_value_None atoi_Some_val split: option.splits prod.splits)
  qed
  from fill_range_field [of mn mx start stop n acc] lim ss n n62 Some rs eq
  show ?thesis by (simp add: parse_part_def Let_def)
qed

lemma first_error_None: "first_error f xs = None \<longleftrightarrow> (\<forall>x \<in> set xs. f x = None)"
  by (induction xs) (auto split: option.splits)

lemma parse_parts_valid:
  assumes "\<forall>p \<in> set ps. validate_part mn mx p = None" "0 \<le> mn" "mn \<le> mx" "mx \<le> 59"
    and "\<forall>p \<in> set ps. case cut ''/'' (trim_space p) of Some (a, st) \<Rightarrow> atoi_val st < 4611686018427387904 | None \<Rightarrow> True"
  shows "\<exists>s. parse_parts mn mx ps acc = Some (s @ acc) \<and> (ps \<noteq> [] \<longrightarrow> s \<noteq> []) \<and> set s \<subseteq> {mn..mx}"
  using assms(1,5)
proof (induction ps arbitrary: acc)
  case (Cons p ps)
  then obtain s1 where s1: "parse_part mn mx p acc = Some (s1 @ acc)" "s1 \<noteq> []" "set s1 \<subseteq> {mn..mx}"
    using parse_part_valid [of mn mx p acc] assms(2-4) by auto
  from Cons obtain s2 where s2: "parse_parts mn mx ps (s1 @ acc) = Some (s2 @ s1 @ acc)" "set s2 \<subseteq> {mn..mx}"
    by (metis list.set_intros(2))
  from s1 s2 show ?case by (intro exI [of _ "s2 @ s1"]) auto
qed simp

lemma parseField_valid:
  assumes "validateField field mn mx = None" "step_small field" "0 \<le> mn" "mn \<le> mx" "mx \<le> 59"
  shows "\<exists>s. parseField field mn mx = Some s \<and> s \<noteq> [] \<and> set s \<subseteq> {mn..mx}"
proof -
  from assms have "\<forall>p \<in> set (split_on CHR '','' field). validate_part mn mx p = None"
    by (simp add: validateField_def first_error_None)
  moreover from assms(2) have "\<forall>p \<in> set (split_on CHR '','' field).
      case cut ''/'' (trim_space p) of Some (a, st) \<Rightarrow> atoi_val st < 4611686018427387904 | None \<Rightarrow> True"
    by (simp add: step_small_def list_all_iff)
  moreover have "split_on CHR '','' field \<noteq> []" by (simp add: split_on_def)
  ultimately show ?thesis
    using parse_parts_valid [of "split_on CHR '','' field" mn mx "[]"] assms(3-5)
    by (auto simp: parseField_def)
qed

lemma length_5: "length xs = 5 \<Longrightarrow> \<exists>a b c d e. xs = [a, b, c, d, e]"
  by (auto simp: numeral_eq_Suc length_Suc_conv)

lemma Validate_fields:
  "Validate expr = None \<longleftrightarrow>
     (\<exists>a b c d e. str_fields expr = [a, b, c, d, e] \<and> validateField a 0 59 = None \<and> validateField b 0 23 = None \<and>
        validateField c 1 31 = None \<and> validateField d 1 12 = None \<and> validateField e 0 6 = None)"
proof
  assume v: "Validate expr = None"
  then obtain a b c d e where f: "str_fields expr = [a, b, c, d, e]"
    using length_5 [of "str_fields expr"] by (auto simp: Validate_def Let_def split: if_splits)
  with v show "\<exists>a b c d e. str_fields expr = [a, b, c, d, e] \<and> validateField a 0 59 = None \<and> validateField b 0 23 = None \<and>
        validateField c 1 31 = None \<and> validateField d 1 12 = None \<and> validateField e 0 6 = None"
    by (simp add: Validate_def field_limits_def upt_rec split: option.splits)
next
  assume "\<exists>a b c d e. str_fields expr = [a, b, c, d, e] \<and> validateField a 0 59 = None \<and> validateField b 0 23 = None \<and>
        validateField c 1 31 = None \<and> validateField d 1 12 = None \<and> validateField e 0 6 = None"
  then show "Validate expr = None"
    by (auto simp: Validate_def field_limits_def upt_rec)
qed

definition sets_in_limits :: "cron_sets \<Rightarrow> bool" where
  "sets_in_limits cs \<longleftrightarrow>
     minuteSet cs \<noteq> [] \<and> set (minuteSet cs) \<subseteq> {0..59} \<and> hourSet cs \<noteq> [] \<and> set (hourSet cs) \<subseteq> {0..23} \<and>
     domSet cs \<noteq> [] \<and> set (domSet cs) \<subseteq> {1..31} \<and> monthSet cs \<noteq> [] \<and> set (monthSet cs) \<subseteq> {1..12} \<and>
     dowSet cs \<noteq> [] \<and> set (dowSet cs) \<subseteq> {0..6}"

lemma parse_sets_valid:
  assumes "Validate expr = None" "list_all step_small (str_fields expr)"
  shows "length (str_fields expr) = 5 \<and> (\<exists>cs. parse_sets (str_fields expr) = Some cs \<and> sets_in_limits cs)"
proof -
  from assms(1) obtain a b c d e where f: "str_fields expr = [a, b, c, d, e]"
    and v: "validateField a 0 59 = None" "validateField b 0 23 = None" "validateField c 1 31 = None"
      "validateField d 1 12 = None" "validateField e 0 6 = None"
    by (auto simp: Validate_fields)
  from f assms(2) have s: "step_small a" "step_small b" "step_small c" "step_small d" "step_small e"
    by simp_all
  from parseField_valid [OF v(1) s(1)] parseField_valid [OF v(2) s(2)] parseField_valid [OF v(3) s(3)]
    parseField_valid [OF v(4) s(4)] parseField_valid [OF v(5) s(5)]
  show ?thesis by (auto simp: f parse_sets_def sets_in_limits_def)
qed

section \<open>The search skips no matching minute\<close>

definition fires :: "location \<Rightarrow> cron_sets \<Rightarrow> instant \<Rightarrow> instant \<Rightarrow> bool" where
  \<comment> \<open>the reference: a whole minute after \<^term>\<open>after\<close>, inside the window, that matches\<close>
  "fires loc cs after t \<longleftrightarrow>
     after < t \<and> t < search_limit after \<and> minute_ns dvd t \<and> matches loc cs t"

lemma same_local_day:
  assumes "c \<le> t" "t < (local_day loc c + 1) * day_ns - loc"
  shows "local_day loc t = local_day loc c"
proof -
  have "local_day loc c \<le> local_day loc t" unfolding local_day_def by (rule zdiv_mono1) (use assms in simp_all)
  moreover from assms(2) have "local_day loc t < local_day loc c + 1" by (simp only: before_local_day_end)
  ultimately show ?thesis by simp
qed

lemma same_month:
  assumes "c \<le> t" "t < midnight loc (Year loc c) (Month loc c + 1) 1"
  shows "Month loc t = Month loc c"
proof -
  obtain y m d where ymd: "civil (local_day loc c) = (y, m, d)" by (cases "civil (local_day loc c)")
  have "local_day loc c \<le> local_day loc t" unfolding local_day_def by (rule zdiv_mono1) (use assms in simp_all)
  moreover from assms(2) have "local_day loc t < date_days y (m + 1) 1"
    by (simp add: midnight_def before_local_day_end Year_def Month_def ymd)
  ultimately show ?thesis using civil_same_month [OF ymd] by (simp add: Month_def ymd)
qed

lemma same_hour:
  assumes "hour_ns dvd loc" "c \<le> t" "t < Truncate c hour_ns + hour_ns"
  shows "Hour loc t = Hour loc c"
proof -
  from assms(1) obtain k where k: "loc = hour_ns * k" ..
  have "t div hour_ns = c div hour_ns"
    by (rule div_same_block) (use assms in \<open>simp_all add: Truncate_def\<close>)
  then show ?thesis by (simp add: Hour_def k)
qed

lemma advance_skips:
  assumes "hour_ns dvd loc" "minute_ns dvd c" "\<not> matches loc cs c"
    and "c \<le> t" "t < advance loc cs c" "minute_ns dvd t"
  shows "\<not> matches loc cs t"
proof (cases "Month loc c \<in> set (monthSet cs)")
  case False
  with assms same_month [of c t loc] show ?thesis by (simp add: advance_def matches_def)
next
  case month: True
  show ?thesis
  proof (cases "Day loc c \<in> set (domSet cs) \<and> Weekday loc c \<in> set (dowSet cs)")
    case False
    obtain y m d where ymd: "civil (local_day loc c) = (y, m, d)" by (cases "civil (local_day loc c)")
    have "local_day loc t = local_day loc c"
      by (rule same_local_day)
        (use assms False month local_day_midnight [OF ymd] in \<open>auto simp: advance_def Year_def Month_def Day_def ymd\<close>)
    with False show ?thesis by (auto simp: matches_def Day_def Weekday_def)
  next
    case day: True
    show ?thesis
    proof (cases "Hour loc c \<in> set (hourSet cs)")
      case False
      with assms month day same_hour [of loc c t] show ?thesis by (simp add: advance_def matches_def)
    next
      case True
      with assms month day have "t < c + minute_ns" by (simp add: advance_def)
      with assms(4) have "t = c"
        using assms(2,6) by (elim dvdE) simp
      with assms show ?thesis by simp
    qed
  qed
qed

lemma advance_aligned:
  assumes "hour_ns dvd loc" "minute_ns dvd c"
  shows "minute_ns dvd advance loc cs c"
proof -
  from assms(1) have loc: "minute_ns dvd loc" by (rule dvd_trans [rotated]) simp
  have dvd: "minute_ns dvd day_ns" "minute_ns dvd hour_ns" by simp_all
  have "hour_ns dvd Truncate c hour_ns"
    by (rule mod_0_imp_dvd) (rule Truncate_mod, simp)
  then have "hour_ns dvd Truncate c hour_ns + hour_ns" by (rule dvd_add) (rule dvd_refl)
  with dvd(2) have "minute_ns dvd Truncate c hour_ns + hour_ns" by (rule dvd_trans)
  moreover have "minute_ns dvd d * day_ns - loc" for d by (intro dvd_diff dvd_mult dvd loc)
  moreover have "minute_ns dvd c + minute_ns" by (intro dvd_add assms(2) dvd_refl)
  ultimately show ?thesis by (simp only: advance_def midnight_def split: if_splits) (simp only: simp_thms)
qed

lemma next_loop_least:
  assumes "hour_ns dvd loc" "minute_ns dvd c"
  shows "case next_loop loc cs limit c of
      Some r \<Rightarrow> c \<le> r \<and> r < limit \<and> minute_ns dvd r \<and> matches loc cs r \<and>
        (\<forall>t. c \<le> t \<and> t < r \<and> minute_ns dvd t \<longrightarrow> \<not> matches loc cs t)
    | None \<Rightarrow> \<forall>t. c \<le> t \<and> t < limit \<and> minute_ns dvd t \<longrightarrow> \<not> matches loc cs t"
  using assms
proof (induction loc cs limit c rule: next_loop.induct)
  case (1 loc cs limit c)
  show ?case
  proof (cases "c < limit \<and> \<not> matches loc cs c")
    case True
    from 1 True advance_aligned have IH: "case next_loop loc cs limit (advance loc cs c) of
        Some r \<Rightarrow> advance loc cs c \<le> r \<and> r < limit \<and> minute_ns dvd r \<and> matches loc cs r \<and>
          (\<forall>t. advance loc cs c \<le> t \<and> t < r \<and> minute_ns dvd t \<longrightarrow> \<not> matches loc cs t)
      | None \<Rightarrow> \<forall>t. advance loc cs c \<le> t \<and> t < limit \<and> minute_ns dvd t \<longrightarrow> \<not> matches loc cs t"
      by blast
    have skip: "\<not> matches loc cs t" if "c \<le> t" "t < advance loc cs c" "minute_ns dvd t" for t
      using advance_skips [of loc c cs t] 1 True that by blast
    have eq: "next_loop loc cs limit c = next_loop loc cs limit (advance loc cs c)"
      using True by (simp add: next_loop.simps [of loc cs limit c])
    show ?thesis
    proof (cases "next_loop loc cs limit (advance loc cs c)")
      case None
      with IH skip show ?thesis unfolding eq by (auto simp: not_less [symmetric])
    next
      case (Some r)
      with IH skip advance_gt [of c loc cs] show ?thesis
        unfolding eq by (auto simp: not_less [symmetric])
    qed
  next
    case False
    with 1 show ?thesis by (auto simp: next_loop.simps [of loc cs limit c])
  qed
qed

lemma minute_after: "minute_ns dvd t \<Longrightarrow> search_start after \<le> t \<longleftrightarrow> after < t"
proof -
  assume "minute_ns dvd t"
  then obtain k where t: "t = k * minute_ns" by (auto simp: mult.commute)
  have "search_start after = (after div minute_ns + 1) * minute_ns"
    by (simp add: search_start_def Truncate_def minus_mod_eq_mult_div algebra_simps)
  then have "search_start after \<le> t \<longleftrightarrow> after div minute_ns < k"
    by (simp only: t mult_le_cancel_right_pos zero_less_numeral add1_zle_eq)
  then show ?thesis by (simp only: div_less_iff t zero_less_numeral)
qed

lemma search_start_aligned: "minute_ns dvd search_start after"
  using Truncate_mod [of minute_ns after] by (auto simp: search_start_def)

text \<open>
  C1. A validated expression (steps below $2^{62}$) in a location that is a whole number of hours
  from UTC: \<^verbatim>\<open>NextTime\<close> returns, and returns the first matching minute strictly after its argument
  within 366 days, or one hour later when there is none.
\<close>
theorem NextTime_least:
  assumes "Validate expr = None" "list_all step_small (str_fields expr)" "hour_ns dvd loc"
  shows "\<exists>cs. parse_sets (str_fields expr) = Some cs \<and> sets_in_limits cs \<and>
     (\<exists>r. NextTime loc expr after = Some r \<and>
        (fires loc cs after r \<and> (\<forall>t. fires loc cs after t \<longrightarrow> r \<le> t) \<or>
         (\<forall>t. \<not> fires loc cs after t) \<and> r = after + hour_ns))"
proof -
  from parse_sets_valid [OF assms(1,2)] obtain cs
    where cs: "length (str_fields expr) = 5" "parse_sets (str_fields expr) = Some cs" "sets_in_limits cs"
    by blast
  note least = next_loop_least [OF assms(3) search_start_aligned [of after], where cs = cs and limit = "search_limit after"]
  show ?thesis
  proof (cases "next_loop loc cs (search_limit after) (search_start after)")
    case None
    with least have "\<not> fires loc cs after t" for t by (auto simp: fires_def minute_after)
    with cs None show ?thesis by (simp add: NextTime_def)
  next
    case (Some r)
    with least minute_after [of r after] have "fires loc cs after r" by (simp add: fires_def)
    moreover have "r \<le> t" if "fires loc cs after t" for t
      using least Some that minute_after [of t after] by (fastforce simp: fires_def)
    ultimately show ?thesis using cs Some by (auto simp: NextTime_def)
  qed
qed

lemma Validate_weekdays_at_nine: "Validate ''0 9 * * 1-5'' = None"
  by code_simp

lemma step_small_weekdays_at_nine: "list_all step_small (str_fields ''0 9 * * 1-5'')"
  by code_simp

theorem NextTime_least_witness:
  "Validate ''0 9 * * 1-5'' = None \<and> list_all step_small (str_fields ''0 9 * * 1-5'') \<and>
   (\<exists>cs r. parse_sets (str_fields ''0 9 * * 1-5'') = Some cs \<and> NextTime (2 * hour_ns) ''0 9 * * 1-5'' 17 = Some r \<and>
      (fires (2 * hour_ns) cs 17 r \<and> (\<forall>t. fires (2 * hour_ns) cs 17 t \<longrightarrow> r \<le> t) \<or>
       (\<forall>t. \<not> fires (2 * hour_ns) cs 17 t) \<and> r = 17 + hour_ns))"
  using NextTime_least [OF Validate_weekdays_at_nine step_small_weekdays_at_nine, of "2 * hour_ns" 17]
    Validate_weekdays_at_nine step_small_weekdays_at_nine dvd_triv_right [of hour_ns 2]
  by blast

section \<open>Half-hour locations\<close>

text \<open>
  In India (UTC+5:30) a truncated hour ends at half past on the local clock. For a daily task at
  09:00 the search then visits 09:30 instead of 09:00, every day of the window.
\<close>

abbreviation india :: location where "india \<equiv> 19800000000000"

definition nine_daily :: cron_sets where
  "nine_daily = \<lparr>minuteSet = [0], hourSet = [9], domSet = rev [1..31], monthSet = rev [1..12], dowSet = rev [0..6]\<rparr>"

lemma nine_daily_parses: "parse_sets (str_fields ''0 9 * * *'') = Some nine_daily"
  unfolding nine_daily_def by code_simp

lemma civil_fields: "1 \<le> Month loc t \<and> Month loc t \<le> 12 \<and> 1 \<le> Day loc t \<and> Day loc t \<le> 31"
proof -
  obtain y m d where ymd: "civil (local_day loc t) = (y, m, d)" by (cases "civil (local_day loc t)")
  from civil_valid [OF ymd] show ?thesis
    by (auto simp: Month_def Day_def ymd valid_date_def month_days_def split: if_splits)
qed

lemma nine_daily_matches: "matches loc nine_daily t \<longleftrightarrow> Hour loc t = 9 \<and> Minute loc t = 0"
proof -
  have "Weekday loc t \<in> {0..6}" by (simp add: Weekday_def)
  with civil_fields [of loc t] show ?thesis by (auto simp: matches_def nine_daily_def)
qed

lemma nine_daily_advance:
  "advance loc nine_daily t = (if Hour loc t \<noteq> 9 then Truncate t hour_ns + hour_ns else t + minute_ns)"
proof -
  have "Weekday loc t \<in> {0..6}" by (simp add: Weekday_def)
  with civil_fields [of loc t] show ?thesis by (auto simp: advance_def nine_daily_def)
qed

lemma india_minutes:
  "Minute india (n * minute_ns) = (n + 330) mod 60" "Hour india (n * minute_ns) = (n + 330) div 60 mod 24"
  "Truncate (n * minute_ns) hour_ns = (n - n mod 60) * minute_ns"
proof -
  have "n * minute_ns + india = (n + 330) * minute_ns" by simp
  moreover have "x * minute_ns div hour_ns = x div 60" for x :: int
    using div_mult_mult2 [of minute_ns x 60] by simp
  moreover have "n * minute_ns mod hour_ns = n mod 60 * minute_ns"
    using mult_mod_right [of minute_ns n 60] by (simp add: mult.commute)
  ultimately show "Minute india (n * minute_ns) = (n + 330) mod 60"
    "Hour india (n * minute_ns) = (n + 330) div 60 mod 24"
    "Truncate (n * minute_ns) hour_ns = (n - n mod 60) * minute_ns"
    by (simp_all only: Minute_def Hour_def Truncate_def left_diff_distrib) simp_all
qed

lemma india_skips_nine:
  assumes "minute_ns dvd c" "\<not> matches india nine_daily c"
  shows "minute_ns dvd advance india nine_daily c \<and> \<not> matches india nine_daily (advance india nine_daily c)"
proof -
  from assms(1) obtain n where c: "c = n * minute_ns" by (auto simp: mult.commute)
  define q r where "q = (n + 330) div 60" and "r = (n + 330) mod 60"
  have n: "n = 60 * q + r - 330" and r: "0 \<le> r" "r < 60" by (simp_all add: q_def r_def)
  show ?thesis
  proof (cases "q mod 24 = 9")
    case False
    have "(n - n mod 60 + 60 + 330) mod 60 = (60 * (n div 60) + 390) mod 60"
      by (simp only: minus_mod_eq_mult_div add.assoc) simp
    also have "\<dots> = 30" by simp
    finally have "(n - n mod 60 + 60 + 330) mod 60 = 30" .
    then have "Minute india ((n - n mod 60 + 60) * minute_ns) = 30" by (simp only: india_minutes)
    moreover have "advance india nine_daily c = (n - n mod 60 + 60) * minute_ns"
      using False by (simp add: nine_daily_advance c india_minutes q_def algebra_simps)
    ultimately show ?thesis by (simp add: nine_daily_matches)
  next
    case True
    with assms(2) have "r \<noteq> 0" by (auto simp: nine_daily_matches c india_minutes q_def r_def)
    have adv: "advance india nine_daily c = (n + 1) * minute_ns"
      using True by (simp add: nine_daily_advance c india_minutes q_def algebra_simps)
    have "Minute india ((n + 1) * minute_ns) = 0 \<Longrightarrow> Hour india ((n + 1) * minute_ns) \<noteq> 9"
    proof -
      assume "Minute india ((n + 1) * minute_ns) = 0"
      moreover have "n + 1 + 330 = 60 * q + (r + 1)" by (simp add: n)
      ultimately have "(60 * q + (r + 1)) mod 60 = 0" by (simp only: india_minutes)
      with r have "r = 59" by (cases "r = 59") simp_all
      then have "Hour india ((n + 1) * minute_ns) = (q + 1) mod 24"
        by (simp only: india_minutes n) (simp add: algebra_simps)
      moreover have "(q + 1) mod 24 = (q mod 24 + 1) mod 24" by (rule mod_add_left_eq [symmetric])
      ultimately show ?thesis using True by simp
    qed
    with adv show ?thesis by (auto simp: nine_daily_matches)
  qed
qed

lemma india_never_nine:
  "minute_ns dvd c \<Longrightarrow> \<not> matches india nine_daily c \<Longrightarrow> next_loop india nine_daily limit c = None"
proof (induction india nine_daily limit c rule: next_loop.induct)
  case (1 limit c)
  with india_skips_nine [of c] show ?case by (simp add: next_loop.simps [of india nine_daily limit c])
qed

lemma nine_within_a_day: "\<exists>t. fires india nine_daily after t \<and> t \<le> after + day_ns"
proof -
  define L where "L = local_day india after"
  define t where "t d = ((L + d) * 1440 + 210) * minute_ns" for d
  have "((L + d) * 1440 + 210 + 330) div 60 mod 24 = (24 * (L + d) + 9) mod 24" for d
    by (simp add: add.commute)
  also have "(24 * (L + d) + 9) mod 24 = 9" for d
    using mod_mult_self4 [of 24 "L + d" 9] by simp
  finally have "Hour india (t d) = 9 \<and> Minute india (t d) = 0" for d
    by (simp only: t_def india_minutes) simp
  then have match: "matches india nine_daily (t d) \<and> minute_ns dvd t d" for d
    by (simp add: nine_daily_matches t_def)
  have L: "L * day_ns \<le> after + india" "after + india < L * day_ns + day_ns"
    using pos_mod_bound [of day_ns "after + india"] pos_mod_sign [of day_ns "after + india"]
      minus_mod_eq_mult_div [of "after + india" day_ns]
    by (simp_all add: L_def local_day_def mult.commute)
  have "after < search_start after" using Truncate_le [of minute_ns after] by (simp add: search_start_def)
  with L have "after < t 0 \<and> t 0 < search_limit after \<and> t 0 \<le> after + day_ns \<or>
      after < t 1 \<and> t 1 < search_limit after \<and> t 1 \<le> after + day_ns"
    by (simp add: t_def search_limit_def algebra_simps) linarith
  with match show ?thesis by (auto simp: fires_def)
qed

text \<open>
  A daily 09:00 task in a location 5:30 ahead of UTC: unless the search happens to start at
  09:00, \<^verbatim>\<open>NextTime\<close> finds no time and falls back to one hour later, although a whole minute at
  09:00 local time lies within the next day.
\<close>
theorem NextTime_half_hour_zone:
  assumes "\<not> (Hour india (search_start after) = 9 \<and> Minute india (search_start after) = 0)"
  shows "NextTime india ''0 9 * * *'' after = Some (after + hour_ns) \<and>
    (\<exists>t. fires india nine_daily after t \<and> t \<le> after + day_ns)"
proof -
  have "next_loop india nine_daily (search_limit after) (search_start after) = None"
    by (rule india_never_nine) (use assms search_start_aligned in \<open>simp_all add: nine_daily_matches\<close>)
  moreover have "length (str_fields ''0 9 * * *'') = 5" by code_simp
  ultimately have "NextTime india ''0 9 * * *'' after = Some (after + hour_ns)"
    by (simp add: NextTime_def nine_daily_parses)
  with nine_within_a_day [of after] show ?thesis by blast
qed

theorem NextTime_half_hour_zone_witness:
  "NextTime india ''0 9 * * *'' 0 = Some hour_ns"
  using NextTime_half_hour_zone [of 0]
  by (simp add: search_start_def Truncate_def Hour_def)

end
