(* ===== verification/Plan.thy ===== *)
theory Plan
  imports Prelude
begin

text \<open>
  \<^verbatim>\<open>brain/plan.go\<close>: the build plan and its patches, the clean-up of the model's JSON text, and the
  validator. Go's \<^verbatim>\<open>nil\<close> pointers and \<^verbatim>\<open>nil\<close> maps are \<^term>\<open>None\<close>, so that a write into a nil map is a
  panic of \<^verbatim>\<open>ApplyPatch\<close>. \<^verbatim>\<open>encoding/json\<close>'s conversion between text and structs is an argument of
  \<^verbatim>\<open>ParsePlan\<close>; the two custom decoders of the file work on a decoded value. The results: the validator
  accepts exactly the well-formed plans, a patch keeps a plan well formed, and the repair of a
  truncated text closes every bracket.
\<close>

section \<open>The plan\<close>

record TypographySpec =
  HeadingFont :: string
  BodyFont :: string
  Scale :: string

record DesignSystem =
  Colors :: "(string \<times> string) list option"
  Typography :: "TypographySpec option"
  Spacing :: string
  Radius :: string
  DarkMode :: bool
  Components :: "(string \<times> string) list option"

record LayoutSpec =
  Style :: string
  NavItems :: "string list"

record SectionSpec =
  SecName :: string
  SecPurpose :: string
  SecEndpoints :: "string list"
  DataFlow :: string

record PageSpec =
  PagePath :: string
  PageTitle :: string
  PagePurpose :: string
  Sections :: "SectionSpec list"
  PageEndpoints :: "string list"
  PageAuth :: bool
  Notes :: string

record WebhookSpec =
  HookName :: string
  Direction :: string
  HookURL :: string
  HookEvents :: "string list"

record TaskSpec =
  TaskName :: string
  TaskDescription :: string
  TaskPrompt :: string
  TaskCron :: string
  IntervalSec :: int

record EndpointSpec =
  EpAction :: string
  EpPath :: string
  EpTableName :: string
  RequiresAuth :: bool
  PublicRead :: bool
  RoomColumn :: string
  WriteTable :: string
  EventTypes :: "string list"
  UsernameCol :: string
  PasswordCol :: string
  DefaultRole :: string
  RoleColumn :: string
  JWTExpiryHours :: int
  PublicColumns :: "string list"

record ColumnDef =
  ColName :: string
  ColType :: string
  ColPrimary :: bool
  ColRequired :: bool

record TableSpec =
  TabName :: string
  TabPurpose :: string
  Columns :: "ColumnDef list"
  SeedData :: jval
  SearchableColumns :: "string list"

record PlanQuestion =
  Question :: string
  QType :: string
  Options :: "string list"

record Plan =
  AppType :: string
  Architecture :: string
  AuthStrategy :: string
  PlanDesign :: "DesignSystem option"
  PlanLayout :: "LayoutSpec option"
  Tables :: "TableSpec list"
  Endpoints :: "EndpointSpec list"
  Pages :: "PageSpec list"
  Exclusions :: "string list"
  Webhooks :: "WebhookSpec list"
  ScheduledTasks :: "TaskSpec list"
  Questions :: "PlanQuestion list"

record PlanPatch =
  AddPages :: "PageSpec list"
  ModifyPages :: "PageSpec list"
  RemovePages :: "string list"
  AddEndpoints :: "EndpointSpec list"
  AddTables :: "TableSpec list"
  AddWebhooks :: "WebhookSpec list"
  AddTasks :: "TaskSpec list"
  UpdateCSS :: bool
  UpdateNav :: bool
  UpdateAuthStrategy :: string
  UpdateDesignSystem :: "DesignSystem option"
  UpdateLayout :: "LayoutSpec option"

definition SectionNames :: "PageSpec \<Rightarrow> string list" where
  "SectionNames p = map SecName (Sections p)"

section \<open>The decoders that accept a plain string\<close>

definition json_field :: "string \<Rightarrow> jobj \<Rightarrow> jval list" where
  \<comment> \<open>the values \<^verbatim>\<open>encoding/json\<close> stores into the field of that tag: names match up to case, a null
     stores nothing, a repeated name stores again\<close>
  "json_field name obj = map snd (filter (\<lambda>(k, v). equal_fold k name \<and> v \<noteq> JNull) obj)"

definition dec_string :: "string \<Rightarrow> jobj \<Rightarrow> string option" where
  "dec_string name obj =
     (let vs = json_field name obj in
      if list_all (\<lambda>v. case v of JStr _ \<Rightarrow> True | _ \<Rightarrow> False) vs
      then Some (if vs = [] then [] else as_string (Some (last vs))) else None)"

definition string_elem :: "jval \<Rightarrow> string option" where
  "string_elem v = (case v of JStr s \<Rightarrow> Some s | JNull \<Rightarrow> Some [] | _ \<Rightarrow> None)"

definition string_array :: "jval \<Rightarrow> string list option" where
  "string_array v = (case v of JArr xs \<Rightarrow> those (map string_elem xs) | _ \<Rightarrow> None)"

definition dec_strings :: "string \<Rightarrow> jobj \<Rightarrow> string list option" where
  "dec_strings name obj =
     (let vs = map string_array (json_field name obj) in
      if list_all (\<lambda>v. v \<noteq> None) vs then (if vs = [] then Some [] else last vs) else None)"

definition unmarshal_section :: "jval \<Rightarrow> SectionSpec option" where
  \<comment> \<open>\<^verbatim>\<open>SectionSpec.UnmarshalJSON\<close>; a null decodes into a string without an error\<close>
  "unmarshal_section v =
     (case v of
        JStr s \<Rightarrow> Some \<lparr>SecName = s, SecPurpose = [], SecEndpoints = [], DataFlow = []\<rparr>
      | JNull \<Rightarrow> Some \<lparr>SecName = [], SecPurpose = [], SecEndpoints = [], DataFlow = []\<rparr>
      | JObj ob \<Rightarrow>
          (case (dec_string ''name'' ob, dec_string ''purpose'' ob, dec_strings ''endpoints'' ob,
                 dec_string ''data_flow'' ob) of
             (Some n, Some p, Some e, Some d) \<Rightarrow>
               Some \<lparr>SecName = n, SecPurpose = p, SecEndpoints = e, DataFlow = d\<rparr>
           | _ \<Rightarrow> None)
      | _ \<Rightarrow> None)"

definition unmarshal_question :: "jval \<Rightarrow> PlanQuestion option" where
  \<comment> \<open>\<^verbatim>\<open>PlanQuestion.UnmarshalJSON\<close>\<close>
  "unmarshal_question v =
     (case v of
        JStr s \<Rightarrow> Some \<lparr>Question = s, QType = ''open'', Options = []\<rparr>
      | JNull \<Rightarrow> Some \<lparr>Question = [], QType = ''open'', Options = []\<rparr>
      | JObj ob \<Rightarrow>
          (case (dec_string ''question'' ob, dec_string ''type'' ob, dec_strings ''options'' ob) of
             (Some q, Some t, Some opts) \<Rightarrow>
               Some \<lparr>Question = q,
                     QType = (if t = [] then (if opts \<noteq> [] then ''single_choice'' else ''open'') else t),
                     Options = opts\<rparr>
           | _ \<Rightarrow> None)
      | _ \<Rightarrow> None)"

section \<open>Applying a patch\<close>

definition filter_endpoints :: "string list \<Rightarrow> EndpointSpec list \<Rightarrow> EndpointSpec list" where
  "filter_endpoints excl eps =
     (if excl \<noteq> []
      then filter (\<lambda>ep. \<not> (EpAction ep = ''create_auth'' \<and> contains (join '' '' excl) ''no auth'')) eps
      else eps)"

fun remove_page :: "PageSpec list \<Rightarrow> string \<Rightarrow> PageSpec list" where
  "remove_page [] rm = []"
| "remove_page (pg # pgs) rm = (if PagePath pg = rm then pgs else pg # remove_page pgs rm)"

fun modify_page :: "PageSpec list \<Rightarrow> PageSpec \<Rightarrow> PageSpec list" where
  "modify_page [] m = []"
| "modify_page (pg # pgs) m = (if PagePath pg = PagePath m then m # pgs else pg # modify_page pgs m)"

definition patch_pages :: "PlanPatch \<Rightarrow> PageSpec list \<Rightarrow> PageSpec list" where
  "patch_pages patch pgs =
     foldl modify_page (foldl remove_page pgs (RemovePages patch)) (ModifyPages patch) @ AddPages patch"

definition assign_all :: "(string \<times> string) list option \<Rightarrow> (string \<times> string) list \<Rightarrow> (string \<times> string) list option option" where
  \<comment> \<open>\<^verbatim>\<open>for k, v := range upd { m[k] = v }\<close>: \<^term>\<open>None\<close> is the panic of a write into a nil map\<close>
  "assign_all m upd =
     (case m of
        Some kvs \<Rightarrow> Some (Some (foldl (\<lambda>m (k, v). AList.update k v m) kvs upd))
      | None \<Rightarrow> if upd = [] then Some None else None)"

definition the_map :: "(string \<times> string) list option \<Rightarrow> (string \<times> string) list" where
  "the_map m = (case m of Some kvs \<Rightarrow> kvs | None \<Rightarrow> [])"

definition patch_design :: "DesignSystem \<Rightarrow> DesignSystem \<Rightarrow> DesignSystem option" where
  "patch_design ds upd =
     Option.bind (assign_all (Colors ds) (the_map (Colors upd))) (\<lambda>cols.
     Option.bind
       (case Components upd of
          None \<Rightarrow> Some (Components ds)
        | Some comps \<Rightarrow> assign_all (Some (the_map (Components ds))) comps) (\<lambda>comps.
     Some (ds\<lparr>Colors := cols,
              Typography := (if Typography upd \<noteq> None then Typography upd else Typography ds),
              Spacing := (if Spacing upd \<noteq> [] then Spacing upd else Spacing ds),
              Radius := (if Radius upd \<noteq> [] then Radius upd else Radius ds),
              DarkMode := DarkMode upd,
              Components := comps\<rparr>)))"

definition ApplyPatch :: "PlanPatch \<Rightarrow> Plan \<Rightarrow> Plan option" where
  \<comment> \<open>\<^term>\<open>None\<close>: the call panics\<close>
  "ApplyPatch patch p =
     (let p = p\<lparr>Pages := patch_pages patch (Pages p),
                Endpoints := Endpoints p @ filter_endpoints (Exclusions p) (AddEndpoints patch),
                Tables := Tables p @ AddTables patch,
                Webhooks := Webhooks p @ AddWebhooks patch,
                ScheduledTasks := ScheduledTasks p @ AddTasks patch,
                AuthStrategy := (if UpdateAuthStrategy patch \<noteq> [] then UpdateAuthStrategy patch else AuthStrategy p),
                PlanLayout := (if UpdateLayout patch \<noteq> None then UpdateLayout patch else PlanLayout p)\<rparr>
      in case UpdateDesignSystem patch of
           None \<Rightarrow> Some p
         | Some upd \<Rightarrow>
             (case PlanDesign p of
                None \<Rightarrow> Some (p\<lparr>PlanDesign := Some upd\<rparr>)
              | Some ds \<Rightarrow> map_option (\<lambda>ds. p\<lparr>PlanDesign := Some ds\<rparr>) (patch_design ds upd)))"

section \<open>The text of a model's answer\<close>

definition re_space :: "char \<Rightarrow> bool" where
  \<comment> \<open>the class \<^verbatim>\<open>\s\<close> of Go's regular expressions\<close>
  "re_space c \<longleftrightarrow> of_char c \<in> {9, 10, 12, 13, 32 :: nat}"

abbreviation fence :: string where "fence \<equiv> [CHR 0x60, CHR 0x60, CHR 0x60]"

function fences :: "string \<Rightarrow> string list" where
  \<comment> \<open>the submatches of \<^verbatim>\<open>jsonFenceRe\<close>: an opening fence, an optional \<^verbatim>\<open>json\<close>, white space, and the
     text up to the next fence\<close>
  "fences s =
     (case cut fence s of
        None \<Rightarrow> []
      | Some (_, r) \<Rightarrow>
          (case cut fence (dropWhile re_space (trim_prefix ''json'' r)) of
             None \<Rightarrow> []
           | Some (m, r') \<Rightarrow> m # fences r'))"
  by pat_completeness auto
termination
proof (relation "measure length")
  fix s ab a r cd m r'
  assume "cut fence s = Some ab" "(a, r) = ab"
    "cut fence (dropWhile re_space (trim_prefix ''json'' r)) = Some cd" "(m, r') = cd"
  then have "s = a @ fence @ r" and *: "dropWhile re_space (trim_prefix ''json'' r) = m @ fence @ r'"
    by (auto dest: cut_Some)
  moreover have "length (dropWhile re_space (trim_prefix ''json'' r)) \<le> length r"
    by (rule order_trans [OF length_dropWhile_le]) (simp add: trim_prefix_def)
  ultimately show "(r', s) \<in> measure length" by simp
qed simp

declare fences.simps [simp del]

definition opens_json :: "string \<Rightarrow> bool" where
  "opens_json s \<longleftrightarrow> (case s of [] \<Rightarrow> False | c # _ \<Rightarrow> c = CHR ''{'' \<or> c = CHR ''['')"

definition between_braces :: "string \<Rightarrow> string option" where
  \<comment> \<open>from the first opening to the last closing brace, when it lies behind\<close>
  "between_braces raw =
     (case cut ''{'' raw of
        None \<Rightarrow> None
      | Some (a, b) \<Rightarrow>
          (case last_index CHR ''}'' raw of
             None \<Rightarrow> None
           | Some e \<Rightarrow> if length a < e then Some (take (e + 1 - length a) (drop (length a) raw)) else None))"

definition extractJSON :: "string \<Rightarrow> string" where
  "extractJSON raw0 =
     (let raw = trim_space raw0 in
      if raw = [] then raw
      else (case map trim_space (fences raw) of
              m # ms \<Rightarrow> (case find opens_json (m # ms) of Some cand \<Rightarrow> cand | None \<Rightarrow> m)
            | [] \<Rightarrow>
                if opens_json raw then raw
                else (case between_braces raw of Some s \<Rightarrow> s | None \<Rightarrow> raw)))"

definition strip_comments :: "string \<Rightarrow> string" where
  "strip_comments s =
     join [nl] (filter (\<lambda>line. \<not> has_prefix ''//'' (trim_space line)) (split_on nl s))"

function strip_commas :: "string \<Rightarrow> string" where
  \<comment> \<open>\<^verbatim>\<open>trailingCommaRe.ReplaceAllString(s, "$1")\<close>\<close>
  "strip_commas [] = []"
| "strip_commas (c # s) =
     (if c = CHR '','' then
        (case dropWhile re_space s of
           d # s' \<Rightarrow> if d = CHR '']'' \<or> d = CHR ''}'' then d # strip_commas s' else c # strip_commas s
         | [] \<Rightarrow> c # strip_commas s)
      else c # strip_commas s)"
  by pat_completeness auto
termination
proof (relation "measure length")
  fix c d s s'
  assume "dropWhile re_space s = d # s'"
  then have "length (d # s') \<le> length s" by (metis length_dropWhile_le)
  then show "(s', c # s) \<in> measure length" by simp
qed auto

record json_scan =
  stack :: "char list"
  inString :: bool
  escaped :: bool

abbreviation scan_start :: json_scan where
  "scan_start \<equiv> \<lparr>stack = [], inString = False, escaped = False\<rparr>"

definition pop_match :: "char \<Rightarrow> char list \<Rightarrow> char list" where
  \<comment> \<open>the last element of the Go slice is the head of the list\<close>
  "pop_match opener st = (case st of c # st' \<Rightarrow> if c = opener then st' else st | [] \<Rightarrow> [])"

definition scan_char :: "json_scan \<Rightarrow> char \<Rightarrow> json_scan" where
  "scan_char z c =
     (if escaped z then z\<lparr>escaped := False\<rparr>
      else if c = CHR 0x5C \<and> inString z then z\<lparr>escaped := True\<rparr>
      else if c = dquote then z\<lparr>inString := \<not> inString z\<rparr>
      else if inString z then z
      else if c = CHR ''{'' \<or> c = CHR ''['' then z\<lparr>stack := c # stack z\<rparr>
      else if c = CHR ''}'' then z\<lparr>stack := pop_match CHR ''{'' (stack z)\<rparr>
      else if c = CHR '']'' then z\<lparr>stack := pop_match CHR ''['' (stack z)\<rparr>
      else z)"

definition scan :: "string \<Rightarrow> json_scan" where
  "scan s = foldl scan_char scan_start s"

definition blank :: "char \<Rightarrow> bool" where
  "blank c \<longleftrightarrow> of_char c \<in> {9, 10, 13, 32 :: nat}"

definition drop_dangling_key :: "string \<Rightarrow> string" where
  \<comment> \<open>remove a trailing colon and the quoted key before it\<close>
  "drop_dangling_key s =
     (if s \<noteq> [] \<and> last s = CHR '':''
      then let s = trim_right_by blank (butlast s)
           in if s \<noteq> [] \<and> last s = dquote
              then (case last_index dquote (butlast s) of Some i \<Rightarrow> take i s | None \<Rightarrow> s)
              else s
      else s)"

definition cut_truncated :: "string \<Rightarrow> bool \<Rightarrow> string" where
  "cut_truncated s in_str =
     (if in_str
      then (case last_index dquote s of
              Some i \<Rightarrow>
                if i > 0
                then trim_right_by (\<lambda>c. blank c \<or> c = CHR '','')
                       (drop_dangling_key (trim_right_by blank (take i s)))
                else s
            | None \<Rightarrow> s)
      else trim_right_by (\<lambda>c. blank c \<or> c = CHR '','' \<or> c = CHR '':'') s)"

definition closer :: "char \<Rightarrow> char" where
  "closer c = (if c = CHR ''{'' then CHR ''}'' else CHR '']'')"

definition repairTruncatedJSON :: "string \<Rightarrow> string" where
  "repairTruncatedJSON s0 =
     (let s = trim_space s0 in
      if \<not> opens_json s then s
      else let z = scan s in
           if stack z = [] then s
           else let s' = cut_truncated s (inString z) in s' @ map closer (stack (scan s')))"

definition repairJSON :: "string \<Rightarrow> string" where
  "repairJSON s = repairTruncatedJSON (strip_commas (strip_comments s))"

definition ParsePlan :: "(string \<Rightarrow> string + Plan) \<Rightarrow> string \<Rightarrow> string + Plan" where
  "ParsePlan unmarshal raw =
     (case unmarshal (repairJSON (extractJSON raw)) of
        Inl err \<Rightarrow> Inl (''invalid plan JSON: '' @ err)
      | Inr p \<Rightarrow> Inr p)"

definition ParsePlanPatch :: "(string \<Rightarrow> string + PlanPatch) \<Rightarrow> string \<Rightarrow> string + PlanPatch" where
  "ParsePlanPatch unmarshal raw =
     (case unmarshal (repairJSON (extractJSON raw)) of
        Inl err \<Rightarrow> Inl (''invalid plan patch JSON: '' @ err)
      | Inr p \<Rightarrow> Inr p)"

section \<open>Validation\<close>

definition routeMatches :: "string \<Rightarrow> string \<Rightarrow> bool" where
  "routeMatches pattern concrete =
     (let ps = split_on CHR ''/'' (trim_slashes pattern);
          cs = split_on CHR ''/'' (trim_slashes concrete)
      in length ps = length cs \<and> list_all2 (\<lambda>p c. has_prefix '':'' p \<or> p = c) ps cs)"

fun page_errors :: "string set \<Rightarrow> PageSpec list \<Rightarrow> string list" where
  "page_errors paths [] = []"
| "page_errors paths (pg # pgs) =
     (if PagePath pg \<in> paths then [''duplicate page path: '' @ PagePath pg] else []) @
     page_errors (insert (PagePath pg) paths) pgs"

definition str_of :: "(string \<times> string) list \<Rightarrow> string \<Rightarrow> string" where
  \<comment> \<open>reading a Go map: the zero value when the key is absent\<close>
  "str_of m k = (case map_of m k of Some v \<Rightarrow> v | None \<Rightarrow> [])"

definition must_include :: "string \<Rightarrow> string" where
  "must_include k = ''design_system.colors must include '' @ [CHR 0x27] @ k @ [CHR 0x27]"

definition design_errors :: "DesignSystem option \<Rightarrow> string list" where
  "design_errors d =
     (case d of
        None \<Rightarrow> []
      | Some ds \<Rightarrow>
          (let cols = the_map (Colors ds) in
           if cols = [] then [''design_system.colors is required when design_system is present'']
           else (if str_of cols ''primary'' = [] then [must_include ''primary''] else []) @
                (if str_of cols ''bg'' = [] then [must_include ''bg''] else [])))"

definition validActions :: "string set" where
  "validActions = {''create_api'', ''create_auth'', ''create_websocket'', ''create_stream'', ''create_upload''}"

definition endpoint_errors :: "nat \<Rightarrow> EndpointSpec \<Rightarrow> string list" where
  "endpoint_errors i ep =
     (if EpAction ep \<notin> validActions
      then [''endpoints['' @ show_nat i @ ''].action '' @ quote (EpAction ep) @ '' is not valid''] else []) @
     (if EpPath ep = [] then [''endpoints['' @ show_nat i @ ''].path is required''] else [])"

fun column_errors :: "string \<Rightarrow> string set \<Rightarrow> ColumnDef list \<Rightarrow> string list" where
  "column_errors t names [] = []"
| "column_errors t names (c # cs) =
     (if ColName c \<in> names then [''table '' @ t @ '' has duplicate column name: '' @ ColName c] else []) @
     column_errors t (insert (ColName c) names) cs"

definition system_column :: "string \<Rightarrow> bool" where
  "system_column n \<longleftrightarrow> n \<in> {''id'', ''created_at'', ''updated_at''}"

definition table_errors :: "nat \<Rightarrow> TableSpec \<Rightarrow> string list" where
  "table_errors i t =
     (if TabName t = [] then [''tables['' @ show_nat i @ ''].name is required'']
      else column_errors (TabName t) {} (Columns t) @
           (if length (filter (\<lambda>c. \<not> system_column (ColName c)) (Columns t)) = 0 \<and> length (Columns t) > 0
            then [''table '' @ TabName t @ '' has no non-system columns''] else []))"

definition indexed :: "(nat \<Rightarrow> 'a \<Rightarrow> string list) \<Rightarrow> 'a list \<Rightarrow> string list" where
  "indexed f xs = concat (map (\<lambda>(i, x). f i x) (enumerate 0 xs))"

definition ValidatePlan :: "Plan \<Rightarrow> string list" where
  "ValidatePlan p =
     (if AppType p = [] then [''app_type is required''] else []) @
     (if length (Pages p) < 1 then [''plan must include at least 1 page''] else []) @
     page_errors {} (Pages p) @
     (if ''/'' \<notin> PagePath ` set (Pages p) then [''plan must include a homepage at path /''] else []) @
     design_errors (PlanDesign p) @
     indexed endpoint_errors (Endpoints p) @
     indexed table_errors (Tables p)"

section \<open>The validator accepts exactly the well-formed plans\<close>

definition design_ok :: "DesignSystem \<Rightarrow> bool" where
  "design_ok ds \<longleftrightarrow> (\<exists>cols p b. Colors ds = Some cols \<and> map_of cols ''primary'' = Some p \<and> p \<noteq> [] \<and>
     map_of cols ''bg'' = Some b \<and> b \<noteq> [])"

definition table_ok :: "TableSpec \<Rightarrow> bool" where
  "table_ok t \<longleftrightarrow> TabName t \<noteq> [] \<and> distinct (map ColName (Columns t)) \<and>
     (Columns t \<noteq> [] \<longrightarrow> (\<exists>c \<in> set (Columns t). \<not> system_column (ColName c)))"

definition endpoint_ok :: "EndpointSpec \<Rightarrow> bool" where
  "endpoint_ok ep \<longleftrightarrow> EpAction ep \<in> validActions \<and> EpPath ep \<noteq> []"

definition plan_ok :: "Plan \<Rightarrow> bool" where
  "plan_ok p \<longleftrightarrow> AppType p \<noteq> [] \<and> ''/'' \<in> PagePath ` set (Pages p) \<and> distinct (map PagePath (Pages p)) \<and>
     (case PlanDesign p of None \<Rightarrow> True | Some ds \<Rightarrow> design_ok ds) \<and>
     list_all endpoint_ok (Endpoints p) \<and> list_all table_ok (Tables p)"

lemma page_errors_Nil:
  "page_errors S pgs = [] \<longleftrightarrow> distinct (map PagePath pgs) \<and> S \<inter> PagePath ` set pgs = {}"
  by (induction S pgs rule: page_errors.induct) auto

lemma column_errors_Nil:
  "column_errors t S cs = [] \<longleftrightarrow> distinct (map ColName cs) \<and> S \<inter> ColName ` set cs = {}"
  by (induction t S cs rule: column_errors.induct) auto

lemma indexed_Nil: "(\<And>i x. f i x = [] \<longleftrightarrow> P x) \<Longrightarrow> indexed f xs = [] \<longleftrightarrow> list_all P xs"
proof -
  assume "\<And>i x. f i x = [] \<longleftrightarrow> P x"
  then have "indexed f xs = [] \<longleftrightarrow> (\<forall>x \<in> snd ` set (enumerate 0 xs). P x)"
    by (auto simp: indexed_def concat_eq_Nil_conv)
  also have "snd ` set (enumerate 0 xs) = set xs"
    by (metis map_snd_enumerate set_map)
  finally show ?thesis by (simp add: list_all_iff)
qed

lemma design_errors_Nil:
  "design_errors d = [] \<longleftrightarrow> (case d of None \<Rightarrow> True | Some ds \<Rightarrow> design_ok ds)"
  by (auto simp: design_errors_def design_ok_def the_map_def str_of_def Let_def split: option.splits)

lemma endpoint_errors_Nil: "endpoint_errors i ep = [] \<longleftrightarrow> endpoint_ok ep"
  by (auto simp: endpoint_errors_def endpoint_ok_def)

lemma table_errors_Nil: "table_errors i t = [] \<longleftrightarrow> table_ok t"
  by (auto simp: table_errors_def table_ok_def column_errors_Nil filter_empty_conv)

lemma ValidatePlan_nil: "ValidatePlan p = [] \<longleftrightarrow> plan_ok p"
  by (auto simp: ValidatePlan_def plan_ok_def page_errors_Nil design_errors_Nil
      indexed_Nil [OF endpoint_errors_Nil] indexed_Nil [OF table_errors_Nil])

text \<open>
  C2. \<^verbatim>\<open>ValidatePlan\<close> reports no error exactly for the plans with an application type, a homepage,
  distinct page paths, usable colours when a design system is given, known endpoint actions with a
  path, and named tables with distinct columns of which one is the owner's.
\<close>
theorem ValidatePlan_iff: "ValidatePlan p = [] \<longleftrightarrow> plan_ok p"
  by (rule ValidatePlan_nil)

section \<open>A patch keeps a plan well formed\<close>

definition latest :: "PageSpec list \<Rightarrow> PageSpec \<Rightarrow> PageSpec" where
  \<comment> \<open>the last replacement for the page's path, or the page itself\<close>
  "latest mods pg = (case find (\<lambda>m. PagePath m = PagePath pg) (rev mods) of Some m \<Rightarrow> m | None \<Rightarrow> pg)"

definition kept_pages :: "PlanPatch \<Rightarrow> PageSpec list \<Rightarrow> PageSpec list" where
  "kept_pages patch pgs =
     map (latest (ModifyPages patch)) (filter (\<lambda>pg. PagePath pg \<notin> set (RemovePages patch)) pgs)"

lemma PagePath_latest [simp]: "PagePath (latest mods pg) = PagePath pg"
  by (auto simp: latest_def find_Some_iff split: option.splits)

lemma remove_page_filter:
  "distinct (map PagePath pgs) \<Longrightarrow> remove_page pgs rm = filter (\<lambda>pg. PagePath pg \<noteq> rm) pgs"
proof (induction pgs)
  case (Cons pg pgs)
  have "filter (\<lambda>q. PagePath q \<noteq> PagePath pg) pgs = pgs"
    by (rule filter_True) (use Cons.prems in \<open>auto simp: image_iff eq_commute\<close>)
  with Cons show ?case by auto
qed simp

lemma remove_pages_filter:
  "distinct (map PagePath pgs) \<Longrightarrow>
     foldl remove_page pgs rms = filter (\<lambda>pg. PagePath pg \<notin> set rms) pgs"
  by (induction rms rule: rev_induct) (auto simp: remove_page_filter distinct_map_filter intro: filter_cong)

lemma modify_page_map:
  "distinct (map PagePath pgs) \<Longrightarrow>
     modify_page pgs m = map (\<lambda>pg. if PagePath pg = PagePath m then m else pg) pgs"
proof (induction pgs)
  case (Cons pg pgs)
  have "map (\<lambda>q. if PagePath q = PagePath pg then m else q) pgs = map (\<lambda>q. q) pgs"
    by (rule map_cong) (use Cons.prems in \<open>auto simp: image_iff eq_commute\<close>)
  with Cons show ?case by auto
qed simp

lemma modify_pages_latest:
  "distinct (map PagePath pgs) \<Longrightarrow> foldl modify_page pgs mods = map (latest mods) pgs"
proof (induction mods rule: rev_induct)
  case Nil
  then show ?case by (simp add: latest_def)
next
  case (snoc m mods)
  have "map PagePath (map (latest mods) pgs) = map PagePath pgs" by simp
  with snoc show ?case
    by (simp add: modify_page_map comp_def) (auto simp: latest_def)
qed

lemma patch_pages_kept:
  "distinct (map PagePath pgs) \<Longrightarrow> patch_pages patch pgs = kept_pages patch pgs @ AddPages patch"
  by (simp add: patch_pages_def remove_pages_filter modify_pages_latest distinct_map_filter kept_pages_def)

lemma map_of_assign: "map_of (foldl (\<lambda>m (k, v). AList.update k v m) kvs upd) = map_of kvs ++ map_of (rev upd)"
  by (induction upd arbitrary: kvs) (auto simp: map_add_def fun_eq_iff split: option.splits)

definition colours_ok :: "DesignSystem \<Rightarrow> bool" where
  "colours_ok upd \<longleftrightarrow> (\<forall>(k, v) \<in> set (the_map (Colors upd)). k \<in> {''primary'', ''bg''} \<longrightarrow> v \<noteq> [])"

definition patch_ok :: "PlanPatch \<Rightarrow> Plan \<Rightarrow> bool" where
  "patch_ok patch p \<longleftrightarrow>
     (let paths = map PagePath (kept_pages patch (Pages p) @ AddPages patch) in
      ''/'' \<in> set paths \<and> distinct paths) \<and>
     list_all endpoint_ok (AddEndpoints patch) \<and> list_all table_ok (AddTables patch) \<and>
     (case UpdateDesignSystem patch of
        None \<Rightarrow> True
      | Some upd \<Rightarrow> if PlanDesign p = None then design_ok upd else colours_ok upd)"

lemma assigned_colour:
  assumes "map_of cols k = Some v" "v \<noteq> []" "k \<in> {''primary'', ''bg''}"
    and "\<forall>(k, v) \<in> set upd. k \<in> {''primary'', ''bg''} \<longrightarrow> v \<noteq> []"
  shows "\<exists>v. (map_of cols ++ map_of (rev upd)) k = Some v \<and> v \<noteq> []"
proof (cases "map_of (rev upd) k")
  case None
  with assms show ?thesis by (auto simp: map_add_def)
next
  case (Some w)
  then have "(k, w) \<in> set upd" using map_of_SomeD by fastforce
  with assms Some show ?thesis by auto
qed

lemma patch_design_ok:
  assumes "design_ok ds" "colours_ok upd"
  shows "\<exists>ds'. patch_design ds upd = Some ds' \<and> design_ok ds'"
proof -
  from assms(1) obtain cols p b where cols: "Colors ds = Some cols"
    and p: "map_of cols ''primary'' = Some p" "p \<noteq> []" and b: "map_of cols ''bg'' = Some b" "b \<noteq> []"
    by (auto simp: design_ok_def)
  note upd = assms(2) [unfolded colours_ok_def]
  from assigned_colour [OF p _ upd] assigned_colour [OF b _ upd] cols
  show ?thesis
    by (auto simp: patch_design_def design_ok_def assign_all_def map_of_assign split: option.splits)
qed

text \<open>
  C3. Applying a patch to a well-formed plan does not panic; the pages become the kept ones (each
  replaced by its last modification) followed by the added ones; and when the patch keeps a
  homepage and distinct paths and adds well-formed items, the patched plan is well formed again.
\<close>
theorem ApplyPatch_ok:
  assumes "plan_ok p" "patch_ok patch p"
  shows "\<exists>p'. ApplyPatch patch p = Some p' \<and> plan_ok p' \<and>
    Pages p' = kept_pages patch (Pages p) @ AddPages patch"
proof -
  from assms(1) have "distinct (map PagePath (Pages p))" by (simp add: plan_ok_def)
  note pages = patch_pages_kept [OF this, of patch]
  have eps: "list_all endpoint_ok (filter_endpoints excl (AddEndpoints patch))" for excl
    using assms(2) by (auto simp: patch_ok_def filter_endpoints_def list_all_iff)
  show ?thesis
  proof (cases "UpdateDesignSystem patch")
    case None
    with assms pages eps show ?thesis
      by (auto simp: ApplyPatch_def patch_ok_def plan_ok_def Let_def)
  next
    case upd: (Some upd)
    show ?thesis
    proof (cases "PlanDesign p")
      case None
      with upd assms pages eps show ?thesis
        by (auto simp: ApplyPatch_def patch_ok_def plan_ok_def Let_def)
    next
      case (Some ds)
      with upd assms have "design_ok ds" "colours_ok upd" by (auto simp: patch_ok_def plan_ok_def)
      from patch_design_ok [OF this] obtain ds' where "patch_design ds upd = Some ds'" "design_ok ds'" by blast
      with Some upd assms pages eps show ?thesis
        by (auto simp: ApplyPatch_def patch_ok_def plan_ok_def Let_def)
    qed
  qed
qed

definition blank_page :: "string \<Rightarrow> PageSpec" where
  "blank_page path = \<lparr>PagePath = path, PageTitle = [], PagePurpose = [], Sections = [],
     PageEndpoints = [], PageAuth = False, Notes = []\<rparr>"

definition small_plan :: Plan where
  "small_plan = \<lparr>AppType = ''blog'', Architecture = [], AuthStrategy = [], PlanDesign = None,
     PlanLayout = None, Tables = [], Endpoints = [], Pages = [blank_page ''/'', blank_page ''/about''],
     Exclusions = [], Webhooks = [], ScheduledTasks = [], Questions = []\<rparr>"

definition small_patch :: PlanPatch where
  "small_patch = \<lparr>AddPages = [blank_page ''/contact''],
     ModifyPages = [(blank_page ''/'')\<lparr>PageTitle := ''Home''\<rparr>], RemovePages = [''/about''],
     AddEndpoints = [], AddTables = [], AddWebhooks = [], AddTasks = [], UpdateCSS = False,
     UpdateNav = True, UpdateAuthStrategy = [], UpdateDesignSystem = None, UpdateLayout = None\<rparr>"

theorem ApplyPatch_ok_witness:
  "plan_ok small_plan \<and> patch_ok small_patch small_plan \<and>
   (\<exists>p'. ApplyPatch small_patch small_plan = Some p' \<and> plan_ok p' \<and>
      map PagePath (Pages p') = [''/'', ''/contact''])"
proof -
  have ok: "plan_ok small_plan"
    by (simp add: plan_ok_def small_plan_def blank_page_def)
  have patch: "patch_ok small_patch small_plan"
    by (simp add: patch_ok_def small_plan_def small_patch_def blank_page_def kept_pages_def)
  from ApplyPatch_ok [OF ok patch] ok patch show ?thesis
    by (auto simp: small_plan_def small_patch_def kept_pages_def blank_page_def)
qed

text \<open>
  A patch cannot bring user accounts back: when an exclusion says \<^verbatim>\<open>no auth\<close>, the patched plan
  has no authentication endpoint that the plan did not have.
\<close>
theorem ApplyPatch_no_auth:
  assumes "ApplyPatch patch p = Some p'" "Exclusions p \<noteq> []" "contains (join '' '' (Exclusions p)) ''no auth''"
  shows "filter (\<lambda>ep. EpAction ep = ''create_auth'') (Endpoints p') =
    filter (\<lambda>ep. EpAction ep = ''create_auth'') (Endpoints p)"
proof -
  have "Endpoints p' = Endpoints p @ filter_endpoints (Exclusions p) (AddEndpoints patch)"
    using assms(1) by (auto simp: ApplyPatch_def Let_def split: option.splits)
  with assms(2,3) show ?thesis by (simp add: filter_endpoints_def conj_commute cong: conj_cong)
qed

definition auth_patch :: PlanPatch where
  "auth_patch = small_patch\<lparr>AddEndpoints := [\<lparr>EpAction = ''create_auth'', EpPath = ''users'', EpTableName = [],
     RequiresAuth = False, PublicRead = False, RoomColumn = [], WriteTable = [], EventTypes = [],
     UsernameCol = [], PasswordCol = [], DefaultRole = [], RoleColumn = [], JWTExpiryHours = 0,
     PublicColumns = []\<rparr>]\<rparr>"

theorem ApplyPatch_no_auth_witness:
  "\<exists>p'. ApplyPatch auth_patch (small_plan\<lparr>Exclusions := [''no auth'']\<rparr>) = Some p' \<and>
     filter (\<lambda>ep. EpAction ep = ''create_auth'') (Endpoints p') = []"
proof -
  define p where "p = small_plan\<lparr>Exclusions := [''no auth'']\<rparr>"
  obtain p' where p': "ApplyPatch auth_patch p = Some p'"
    by (auto simp: ApplyPatch_def auth_patch_def small_patch_def)
  have "contains (join '' '' (Exclusions p)) ''no auth''"
    by (simp add: p_def contains_def has_prefix_def)
  with ApplyPatch_no_auth [OF p'] p' show ?thesis by (simp add: p_def small_plan_def)
qed

section \<open>The repair of a truncated text\<close>

definition scan_ok :: "json_scan \<Rightarrow> bool" where
  "scan_ok z \<longleftrightarrow> (escaped z \<longrightarrow> inString z) \<and> set (stack z) \<subseteq> {CHR ''{'', CHR ''[''}"

lemma set_pop_match: "set (pop_match c st) \<subseteq> set st"
  by (auto simp: pop_match_def split: list.splits)

lemma scan_char_ok: "scan_ok z \<Longrightarrow> scan_ok (scan_char z c)"
  using set_pop_match [of "CHR ''{''" "stack z"] set_pop_match [of "CHR ''[''" "stack z"]
  by (auto simp: scan_ok_def scan_char_def)

lemma scan_append: "scan (s @ t) = foldl scan_char (scan s) t"
  by (simp add: scan_def)

lemma scan_ok_scan: "scan_ok (scan s)"
proof (induction s rule: rev_induct)
  case Nil
  then show ?case by (simp add: scan_def scan_ok_def)
next
  case (snoc c s)
  then show ?case by (simp add: scan_append scan_char_ok)
qed

lemma scan_quiet:
  "\<forall>c \<in> set t. c \<noteq> dquote \<and> c \<noteq> CHR 0x5C \<Longrightarrow> inString (foldl scan_char z t) = inString z"
  by (induction t arbitrary: z) (auto simp: scan_char_def)

lemma scan_no_backslash:
  "CHR 0x5C \<notin> set s \<Longrightarrow> \<not> escaped (scan s) \<and> inString (scan s) = odd (count_list s dquote)"
proof (induction s rule: rev_induct)
  case Nil
  then show ?case by (simp add: scan_def)
next
  case (snoc c s)
  then show ?case by (auto simp: scan_append scan_char_def count_list_append)
qed

lemma scan_closers:
  "set st \<subseteq> {CHR ''{'', CHR ''[''} \<Longrightarrow>
     foldl scan_char \<lparr>stack = st, inString = False, escaped = False\<rparr> (map closer st) = scan_start"
  by (induction st) (auto simp: scan_char_def closer_def pop_match_def)

lemma closed_after: "\<not> inString (scan s) \<Longrightarrow> scan (s @ map closer (stack (scan s))) = scan_start"
proof -
  assume "\<not> inString (scan s)"
  with scan_ok_scan [of s] have "\<not> escaped (scan s)" "set (stack (scan s)) \<subseteq> {CHR ''{'', CHR ''[''}"
    by (auto simp: scan_ok_def)
  moreover from this(1) \<open>\<not> inString (scan s)\<close>
  have "scan s = \<lparr>stack = stack (scan s), inString = False, escaped = False\<rparr>" by simp
  ultimately show ?thesis by (metis scan_append scan_closers)
qed

lemma trim_quiet:
  assumes "\<And>c. P c \<Longrightarrow> c \<noteq> dquote \<and> c \<noteq> CHR 0x5C"
  shows "inString (scan (trim_right_by P s)) = inString (scan s)"
    and "count_list (trim_right_by P s) dquote = count_list s dquote"
    and "set (trim_right_by P s) \<subseteq> set s" and "prefix (trim_right_by P s) s"
proof -
  obtain t where t: "s = trim_right_by P s @ t" "\<forall>c \<in> set t. P c"
    using trim_right_by_prefix by blast
  have "dquote \<notin> set t" using t(2) assms by auto
  then have "count_list t dquote = 0" by (simp add: count_list_0_iff)
  then show "count_list (trim_right_by P s) dquote = count_list s dquote"
    by (metis t(1) count_list_append add.right_neutral)
  show "inString (scan (trim_right_by P s)) = inString (scan s)"
    by (metis t assms scan_append scan_quiet)
  show "prefix (trim_right_by P s) s" using t(1) by (metis prefixI)
  then show "set (trim_right_by P s) \<subseteq> set s" by (rule set_mono_prefix)
qed

lemma blank_quiet:
  "blank c \<Longrightarrow> c \<noteq> dquote \<and> c \<noteq> CHR 0x5C"
  "blank c \<or> c = CHR '','' \<Longrightarrow> c \<noteq> dquote \<and> c \<noteq> CHR 0x5C"
  "blank c \<or> c = CHR '','' \<or> c = CHR '':'' \<Longrightarrow> c \<noteq> dquote \<and> c \<noteq> CHR 0x5C"
  by (auto simp: blank_def)

lemma even_before_last_quote:
  assumes "odd (count_list s dquote)" "last_index dquote s = Some i"
  shows "even (count_list (take i s) dquote)"
proof -
  from last_index_Some [OF assms(2)] have s: "s = take i s @ dquote # drop (Suc i) s"
    and "dquote \<notin> set (drop (Suc i) s)" by simp_all
  then have "count_list (drop (Suc i) s) dquote = 0" by (simp add: count_list_0_iff)
  then have "count_list s dquote = count_list (take i s) dquote + 1"
    by (subst s) (simp add: count_list_append)
  with assms(1) show ?thesis by simp
qed

lemma drop_dangling_key_even:
  assumes "even (count_list s dquote)"
  shows "even (count_list (drop_dangling_key s) dquote) \<and> prefix (drop_dangling_key s) s"
proof (cases "s \<noteq> [] \<and> last s = CHR '':''")
  case True
  define t where "t = trim_right_by blank (butlast s)"
  have s: "s = butlast s @ [CHR '':'']" using True append_butlast_last_id by metis
  have "count_list t dquote = count_list (butlast s) dquote" and pre: "prefix t (butlast s)"
    unfolding t_def by (rule trim_quiet; fact blank_quiet(1))+
  moreover have "count_list s dquote = count_list (butlast s) dquote"
    by (subst s) (simp add: count_list_append)
  ultimately have even: "even (count_list t dquote)" using assms by simp
  have pre: "prefix t s" using pre s prefix_prefix by metis
  have *: "drop_dangling_key s = (if t \<noteq> [] \<and> last t = dquote
      then (case last_index dquote (butlast t) of Some i \<Rightarrow> take i t | None \<Rightarrow> t) else t)"
    unfolding drop_dangling_key_def t_def [symmetric] Let_def using True by (rule if_P)
  show ?thesis
  proof (cases "t \<noteq> [] \<and> last t = dquote")
    case True
    then have t: "t = butlast t @ [dquote]" by (metis append_butlast_last_id)
    have "count_list t dquote = count_list (butlast t) dquote + 1"
      by (subst t) (simp add: count_list_append)
    with even have odd: "odd (count_list (butlast t) dquote)" by simp
    then have "dquote \<in> set (butlast t)" by (metis count_list_0_iff even_zero)
    then obtain i where i: "last_index dquote (butlast t) = Some i" by (metis last_index_None not_None_eq)
    have "take i t = take i (butlast t)"
      using last_index_Some [OF i] by (subst t) simp
    moreover have "prefix (take i t) s" using take_is_prefix pre by (rule prefix_order.trans)
    ultimately show ?thesis using * True i even_before_last_quote [OF odd i] by simp
  next
    case False
    with * even pre show ?thesis by auto
  qed
next
  case False
  with assms show ?thesis by (auto simp: drop_dangling_key_def)
qed

lemma cut_truncated_closed:
  assumes "\<not> in_str \<or> CHR 0x5C \<notin> set s" "inString (scan s) = in_str" "opens_json s"
  shows "\<not> inString (scan (cut_truncated s in_str)) \<and> prefix (cut_truncated s in_str) s"
proof (cases in_str)
  case False
  with assms(2) trim_quiet(1,4) [of "\<lambda>c. blank c \<or> c = CHR '','' \<or> c = CHR '':''", OF blank_quiet(3)]
  show ?thesis by (simp add: cut_truncated_def)
next
  case True
  with assms have bs: "CHR 0x5C \<notin> set s" and odd: "odd (count_list s dquote)"
    using scan_no_backslash by auto
  then obtain i where i: "last_index dquote s = Some i"
    by (metis count_list_0_iff even_zero last_index_None not_None_eq)
  from last_index_Some [OF i] assms(3) have "i > 0"
    by (cases i) (auto simp: opens_json_def split: list.splits)
  define a b c where "a = trim_right_by blank (take i s)" and "b = drop_dangling_key a"
    and "c = trim_right_by (\<lambda>c. blank c \<or> c = CHR '','') b"
  have cut: "cut_truncated s in_str = c"
    using True i \<open>i > 0\<close> by (simp add: cut_truncated_def a_def b_def c_def)
  have "even (count_list a dquote)"
    unfolding a_def using even_before_last_quote [OF odd i] trim_quiet(2) [of blank, OF blank_quiet(1)] by simp
  from drop_dangling_key_even [OF this] have b: "even (count_list b dquote)" "prefix b a" by (simp_all add: b_def)
  have c: "even (count_list c dquote)" "prefix c b"
    unfolding c_def using b(1) trim_quiet(2,4) [of "\<lambda>c. blank c \<or> c = CHR '',''", OF blank_quiet(2)] by simp_all
  have "prefix a s"
    unfolding a_def using trim_quiet(4) [of blank "take i s", OF blank_quiet(1)] take_is_prefix prefix_order.trans by blast
  with b c have pre: "prefix c s" using prefix_order.trans by blast
  with bs have "CHR 0x5C \<notin> set c" using set_mono_prefix by blast
  with c(1) have "\<not> inString (scan c)" using scan_no_backslash by simp
  with pre cut show ?thesis by simp
qed

text \<open>
  The repair of a truncated answer keeps a prefix of the text and appends closing brackets; when
  the text was not cut inside a string, or holds no backslash, every bracket of the result is closed.
\<close>
theorem repairTruncatedJSON_closed:
  assumes "opens_json (trim_space s)"
    and "\<not> inString (scan (trim_space s)) \<or> CHR 0x5C \<notin> set (trim_space s)"
  shows "stack (scan (repairTruncatedJSON s)) = [] \<and>
    (\<exists>s' cl. repairTruncatedJSON s = s' @ cl \<and> prefix s' (trim_space s) \<and> set cl \<subseteq> {CHR ''}'', CHR '']''})"
proof (cases "stack (scan (trim_space s)) = []")
  case True
  with assms(1) have "repairTruncatedJSON s = trim_space s @ []" by (simp add: repairTruncatedJSON_def Let_def)
  with True show ?thesis by (intro conjI exI [of _ "trim_space s"] exI [of _ "[]"]) simp_all
next
  case False
  define t where "t = cut_truncated (trim_space s) (inString (scan (trim_space s)))"
  have t: "\<not> inString (scan t)" "prefix t (trim_space s)"
    using cut_truncated_closed [of "inString (scan (trim_space s))" "trim_space s"] assms by (auto simp: t_def)
  have rep: "repairTruncatedJSON s = t @ map closer (stack (scan t))"
    using False assms(1) by (simp add: repairTruncatedJSON_def Let_def t_def)
  have "set (map closer (stack (scan t))) \<subseteq> {CHR ''}'', CHR '']''}" by (auto simp: closer_def)
  with t(2) have "\<exists>s' cl. t @ map closer (stack (scan t)) = s' @ cl \<and> prefix s' (trim_space s) \<and>
      set cl \<subseteq> {CHR ''}'', CHR '']''}" by blast
  with rep closed_after [OF t(1)] show ?thesis by simp
qed

theorem repairTruncatedJSON_closed_witness:
  "repairTruncatedJSON ''{ [1, {2'' = ''{ [1, {2}]}'' \<and> stack (scan (repairTruncatedJSON ''{ [1, {2'')) = []"
proof -
  have "opens_json (trim_space ''{ [1, {2'')" "\<not> inString (scan (trim_space ''{ [1, {2''))" by code_simp+
  then have "stack (scan (repairTruncatedJSON ''{ [1, {2'')) = []"
    using repairTruncatedJSON_closed by blast
  moreover have "repairTruncatedJSON ''{ [1, {2'' = ''{ [1, {2}]}''" by code_simp
  ultimately show ?thesis by simp
qed

text \<open>
  A text cut inside a string that holds an escaped quote is not repaired: the cut is made at the
  escaped quote, still inside the string, and the appended bracket does not close anything.
\<close>
theorem repairTruncatedJSON_escaped_quote:
  "stack (scan (repairTruncatedJSON (''{'' @ [dquote] @ ''a'' @ [dquote] @ '': '' @ [dquote] @ ''b'' @ [CHR 0x5C, dquote] @ ''c''))) \<noteq> []"
  by code_simp

text \<open>
  A design system may be stored without colours by one patch (no validation follows a patch);
  the next patch that sets a colour then writes into a nil map and panics.
\<close>
theorem ApplyPatch_nil_colours:
  assumes "PlanDesign p = None" "UpdateDesignSystem patch1 = Some ds" "Colors ds = None"
    and "UpdateDesignSystem patch2 = Some upd" "the_map (Colors upd) \<noteq> []"
  shows "\<exists>p'. ApplyPatch patch1 p = Some p' \<and> ApplyPatch patch2 p' = None"
  using assms by (auto simp: ApplyPatch_def Let_def patch_design_def assign_all_def)

definition dark_design :: DesignSystem where
  "dark_design = \<lparr>Colors = None, Typography = None, Spacing = [], Radius = [], DarkMode = True, Components = None\<rparr>"

theorem ApplyPatch_nil_colours_witness:
  "plan_ok small_plan \<and>
   (\<exists>p'. ApplyPatch (small_patch\<lparr>UpdateDesignSystem := Some dark_design\<rparr>) small_plan = Some p' \<and>
      ApplyPatch (small_patch\<lparr>UpdateDesignSystem := Some (dark_design\<lparr>Colors := Some [(''bg'', ''black'')]\<rparr>)\<rparr>) p' = None)"
proof (rule conjI)
  show "plan_ok small_plan" by (simp add: plan_ok_def small_plan_def blank_page_def)
  show "\<exists>p'. ApplyPatch (small_patch\<lparr>UpdateDesignSystem := Some dark_design\<rparr>) small_plan = Some p' \<and>
      ApplyPatch (small_patch\<lparr>UpdateDesignSystem := Some (dark_design\<lparr>Colors := Some [(''bg'', ''black'')]\<rparr>)\<rparr>) p' = None"
    by (rule ApplyPatch_nil_colours [where ds = dark_design and upd = "dark_design\<lparr>Colors := Some [(''bg'', ''black'')]\<rparr>"])
      (simp_all add: small_plan_def dark_design_def the_map_def)
qed

end
