(* ===== verification/Brain.thy ===== *)
theory Brain
  imports Plan "HOL-Library.State_Monad"
begin

text \<open>
  The state a brain worker acts on and the operations on it: the site database (the
  \<^verbatim>\<open>pipeline_state\<close> row, questions, logs, messages, tasks), the row of the site in the global
  database, and the worker's own fields. \<^verbatim>\<open>brain/plan.go\<close> (the second half), \<^verbatim>\<open>brain/types.go\<close> and the
  persistence helpers of \<^verbatim>\<open>brain/pipeline.go\<close>.

  Effects are a state monad over \<^verbatim>\<open>world\<close>. Everything outside the program is in the record \<^verbatim>\<open>deps\<close>:
  each consultation advances the counter \<^verbatim>\<open>tick\<close>, and the answer may depend on it, so a theorem about
  every \<^verbatim>\<open>deps\<close> covers every schedule of database faults, model answers, cancellations and clock
  readings. Timestamps that the code only stores are left out.
\<close>

abbreviation em_dash :: string where "em_dash \<equiv> [CHR 0xE2, CHR 0x80, CHR 0x94]"

section \<open>Messages of the language model\<close>

record ToolCall =
  CallID :: string
  CallName :: string
  Arguments :: string

datatype Role = RoleSystem | RoleUser | RoleAssistant | RoleTool

record Message =
  MRole :: Role
  Content :: string
  ToolCalls :: "ToolCall list"
  ToolCallID :: string

record CompletionRequest =
  ReqModel :: string
  ReqSystem :: string
  ReqMessages :: "Message list"
  ReqTools :: "string list"
  ReqMaxTokens :: int

record CompletionResponse =
  RespContent :: string
  RespToolCalls :: "ToolCall list"
  InputTokens :: int
  OutputTokens :: int
  RespModel :: string
  StopReason :: string

section \<open>Stages, states and commands\<close>

datatype BrainState = StateIdle | StateBuilding | StateMonitoring | StatePaused | StateError

datatype PipelineStage =
    StagePlan | StageBuild | StageComplete | StageMonitoring | StageUpdatePlan | OtherStage string

definition stage_text :: "PipelineStage \<Rightarrow> string" where
  "stage_text s =
     (case s of StagePlan \<Rightarrow> ''PLAN'' | StageBuild \<Rightarrow> ''BUILD'' | StageComplete \<Rightarrow> ''COMPLETE''
      | StageMonitoring \<Rightarrow> ''MONITORING'' | StageUpdatePlan \<Rightarrow> ''UPDATE_PLAN'' | OtherStage t \<Rightarrow> t)"

definition PauseReasonOwnerAnswers :: string where
  "PauseReasonOwnerAnswers = ''awaiting_owner_answers''"

definition PauseReasonApproval :: string where
  "PauseReasonApproval = ''awaiting_approval''"

record BrainCommand =
  CmdType :: string
  Payload :: "jobj option"

section \<open>The databases\<close>

record PipelineState =
  Stage :: PipelineStage
  PlanJSON :: "string option"
  ToolCallsCompleted :: int
  ErrorCount :: int
  LastError :: "string option"
  Paused :: bool
  PauseReason :: "string option"
  UpdateDescription :: "string option"

record question_row =
  q_id :: int
  q_question :: string
  q_urgency :: string
  q_status :: string
  q_options :: "string list"
  q_type :: string
  q_context :: string

record answer_row =
  a_question_id :: int
  a_answer :: string
  a_created_at :: int

record stage_log_row =
  sl_id :: int
  sl_stage :: PipelineStage
  sl_status :: string
  sl_tokens :: int
  sl_tool_calls :: int
  sl_error :: "string option"

record chat_row =
  c_role :: Role
  c_content :: string
  c_tool_calls :: "ToolCall list"
  c_tool_call_id :: string
  c_created_at :: int

record brain_log_row =
  bl_event_type :: string
  bl_summary :: string
  bl_details :: string
  bl_tokens :: int
  bl_model :: string
  bl_created_at :: int

record task_run_row =
  tr_id :: int
  tr_task_id :: int
  tr_status :: string
  tr_error :: "string option"

record task_row =
  t_id :: int
  t_name :: string
  t_description :: "string option"
  t_prompt :: string
  t_cron :: "string option"
  t_interval :: "int option"
  t_enabled :: bool
  t_last_run :: "int option"
  t_next_run :: "int option"
  t_run_count :: int
  t_error_count :: int

record page_row =
  p_path :: string
  p_title :: string
  p_deleted :: bool

record site_db =
  pipeline :: PipelineState
  questions :: "question_row list"
  answers :: "answer_row list"
  stage_log :: "stage_log_row list"
  chat_messages :: "chat_row list"
  brain_log :: "brain_log_row list"
  task_runs :: "task_run_row list"
  scheduled_tasks :: "task_row list"
  pages :: "page_row list"

record site_row =
  Mode :: string
  Config :: string

record Event =
  EvType :: string
  EvPayload :: jobj

record world =
  tick :: nat
  sdb :: site_db
  site :: site_row
  published :: "Event list"
  state :: BrainState
  idleCheckCount :: int
  wakeContext :: "jobj option"
  maxToolResultOverride :: int
  chat_wakes :: "string list"

record LLMProvider =
  ProvName :: string
  ProviderType :: string
  APIKeyEncrypted :: "string option"
  BaseURL :: "string option"
  ProvConfig :: string

section \<open>What the worker depends on\<close>

record deps =
  siteID :: int
  db_fault :: "nat \<Rightarrow> string option"
  ctx_done :: "nat \<Rightarrow> bool"
  now_at :: "nat \<Rightarrow> int"
  complete :: "nat \<Rightarrow> CompletionRequest \<Rightarrow> string + CompletionResponse"
  execute :: "nat \<Rightarrow> string \<Rightarrow> jobj \<Rightarrow> site_db \<Rightarrow> (string + string) \<times> site_db"
  has_tool :: "string \<Rightarrow> bool"
  max_result :: "string \<Rightarrow> int option"
  summarize :: "string \<Rightarrow> string \<Rightarrow> string"
  json_object :: "string \<Rightarrow> string + jobj"
  json_raw_array :: "string \<Rightarrow> string list option"
  json_value :: "string \<Rightarrow> jval option"
  unmarshal_plan :: "string \<Rightarrow> string + Plan"
  unmarshal_patch :: "string \<Rightarrow> string + PlanPatch"
  marshal_plan :: "Plan \<Rightarrow> string"
  site_model :: "nat \<Rightarrow> string + (string \<times> LLMProvider)"
  default_model :: "nat \<Rightarrow> string + (string \<times> LLMProvider)"
  decrypt :: "string \<Rightarrow> string + string"
  factory_builds :: "LLMProvider \<Rightarrow> string \<Rightarrow> string \<Rightarrow> bool"
  registry_get :: "string \<Rightarrow> string option"
  prompt_for :: "nat \<Rightarrow> string \<Rightarrow> site_db \<Rightarrow> string"
  MonitoringBase :: int
  MonitoringMax :: int

type_synonym 'a eff = "(world, 'a) State_Monad.state"

abbreviation ret :: "'a \<Rightarrow> 'a eff" where "ret \<equiv> State_Monad.return"
abbreviation gets :: "(world \<Rightarrow> 'a) \<Rightarrow> 'a eff" where "gets f \<equiv> State_Monad.bind State_Monad.get (\<lambda>w. State_Monad.return (f w))"
abbreviation modify :: "(world \<Rightarrow> world) \<Rightarrow> unit eff" where "modify \<equiv> State_Monad.update"

definition consult :: "(nat \<Rightarrow> 'a) \<Rightarrow> 'a eff" where
  "consult f = State (\<lambda>w. (f (tick w), w\<lparr>tick := Suc (tick w)\<rparr>))"

definition ExecWrite :: "deps \<Rightarrow> (site_db \<Rightarrow> site_db) \<Rightarrow> string option eff" where
  \<comment> \<open>one statement on the site database: \<^term>\<open>None\<close> when it succeeds, otherwise the error's text\<close>
  "ExecWrite d f =
     do { e \<leftarrow> consult (db_fault d);
          case e of
            None \<Rightarrow> do { modify (\<lambda>w. w\<lparr>sdb := f (sdb w)\<rparr>); ret None }
          | Some msg \<Rightarrow> ret (Some msg) }"

definition Query :: "deps \<Rightarrow> (site_db \<Rightarrow> 'a) \<Rightarrow> (string + 'a) eff" where
  "Query d f =
     do { e \<leftarrow> consult (db_fault d);
          w \<leftarrow> State_Monad.get;
          ret (case e of None \<Rightarrow> Inr (f (sdb w)) | Some msg \<Rightarrow> Inl msg) }"

definition exec_ignore :: "deps \<Rightarrow> (site_db \<Rightarrow> site_db) \<Rightarrow> unit eff" where
  \<comment> \<open>a write whose error the code drops\<close>
  "exec_ignore d f = do { _ \<leftarrow> ExecWrite d f; ret () }"

definition exec_global :: "deps \<Rightarrow> (site_row \<Rightarrow> site_row) \<Rightarrow> unit eff" where
  "exec_global d f =
     do { e \<leftarrow> consult (db_fault d);
          case e of None \<Rightarrow> modify (\<lambda>w. w\<lparr>site := f (site w)\<rparr>) | Some _ \<Rightarrow> ret () }"

definition publish :: "string \<Rightarrow> jobj \<Rightarrow> unit eff" where
  "publish ty pl = modify (\<lambda>w. w\<lparr>published := published w @ [\<lparr>EvType = ty, EvPayload = pl\<rparr>]\<rparr>)"

section \<open>The pipeline row\<close>

definition LoadPipelineState :: "deps \<Rightarrow> (string + PipelineState) eff" where
  "LoadPipelineState d =
     do { r \<leftarrow> Query d pipeline;
          ret (case r of Inl e \<Rightarrow> Inl (''load pipeline state: '' @ e) | Inr s \<Rightarrow> Inr s) }"

definition on_row :: "(PipelineState \<Rightarrow> PipelineState) \<Rightarrow> site_db \<Rightarrow> site_db" where
  "on_row f b = b\<lparr>pipeline := f (pipeline b)\<rparr>"

definition SavePipelineState :: "deps \<Rightarrow> PipelineState \<Rightarrow> string option eff" where
  "SavePipelineState d s =
     ExecWrite d (on_row (\<lambda>r. r\<lparr>Stage := Stage s, PlanJSON := PlanJSON s,
        ToolCallsCompleted := ToolCallsCompleted s, ErrorCount := ErrorCount s, LastError := LastError s,
        Paused := Paused s, PauseReason := PauseReason s\<rparr>))"

definition AdvanceStage :: "deps \<Rightarrow> PipelineStage \<Rightarrow> string option eff" where
  "AdvanceStage d stage = ExecWrite d (on_row (\<lambda>r. r\<lparr>Stage := stage, ErrorCount := 0\<rparr>))"

definition ResetPipeline :: "deps \<Rightarrow> string option eff" where
  "ResetPipeline d =
     ExecWrite d (on_row (\<lambda>r. r\<lparr>Stage := StagePlan, PlanJSON := None, ToolCallsCompleted := 0,
        ErrorCount := 0, LastError := None, Paused := False, PauseReason := None\<rparr>))"

definition PausePipeline :: "deps \<Rightarrow> string \<Rightarrow> string option eff" where
  "PausePipeline d reason = ExecWrite d (on_row (\<lambda>r. r\<lparr>Paused := True, PauseReason := Some reason\<rparr>))"

definition ResumePipeline :: "deps \<Rightarrow> string option eff" where
  "ResumePipeline d = ExecWrite d (on_row (\<lambda>r. r\<lparr>Paused := False, PauseReason := None\<rparr>))"

definition IncrementErrorCount :: "deps \<Rightarrow> string \<Rightarrow> (string + int) eff" where
  "IncrementErrorCount d msg =
     do { e \<leftarrow> ExecWrite d (on_row (\<lambda>r. r\<lparr>ErrorCount := ErrorCount r + 1, LastError := Some msg\<rparr>));
          case e of
            Some err \<Rightarrow> ret (Inl err)
          | None \<Rightarrow> Query d (\<lambda>b. ErrorCount (pipeline b)) }"

section \<open>The stage log\<close>

definition fresh_id :: "int list \<Rightarrow> int" where
  "fresh_id ids = 1 + foldr max ids 0"

definition LogStageStart :: "deps \<Rightarrow> PipelineStage \<Rightarrow> int eff" where
  \<comment> \<open>the caller drops the error; the identifier is then 0\<close>
  "LogStageStart d stage =
     do { w \<leftarrow> State_Monad.get;
          let i = fresh_id (map sl_id (stage_log (sdb w)));
          e \<leftarrow> ExecWrite d (\<lambda>b. b\<lparr>stage_log := stage_log b @
                 [\<lparr>sl_id = i, sl_stage = stage, sl_status = ''started'', sl_tokens = 0, sl_tool_calls = 0,
                   sl_error = None\<rparr>]\<rparr>);
          ret (case e of None \<Rightarrow> i | Some _ \<Rightarrow> 0) }"

definition on_log :: "int \<Rightarrow> (stage_log_row \<Rightarrow> stage_log_row) \<Rightarrow> site_db \<Rightarrow> site_db" where
  "on_log i f b = b\<lparr>stage_log := map (\<lambda>r. if sl_id r = i then f r else r) (stage_log b)\<rparr>"

definition LogStageComplete :: "deps \<Rightarrow> int \<Rightarrow> int \<Rightarrow> int \<Rightarrow> unit eff" where
  "LogStageComplete d i tokens calls =
     exec_ignore d (on_log i (\<lambda>r. r\<lparr>sl_status := ''completed'', sl_tokens := tokens, sl_tool_calls := calls\<rparr>))"

definition LogStageError :: "deps \<Rightarrow> int \<Rightarrow> string \<Rightarrow> unit eff" where
  "LogStageError d i msg = exec_ignore d (on_log i (\<lambda>r. r\<lparr>sl_status := ''failed'', sl_error := Some msg\<rparr>))"

section \<open>Persistence helpers of the worker\<close>

definition saveChatMessage :: "deps \<Rightarrow> Message \<Rightarrow> unit eff" where
  "saveChatMessage d m =
     do { t \<leftarrow> consult (now_at d);
          exec_ignore d (\<lambda>b. b\<lparr>chat_messages := chat_messages b @
            [\<lparr>c_role = MRole m, c_content = Content m, c_tool_calls = ToolCalls m,
              c_tool_call_id = ToolCallID m, c_created_at = t\<rparr>]\<rparr>) }"

definition saveChatMessageOnce :: "deps \<Rightarrow> Message \<Rightarrow> unit eff" where
  \<comment> \<open>the window is 30 minutes, in seconds; a failed query counts as no earlier message\<close>
  "saveChatMessageOnce d m =
     (if MRole m = RoleUser
      then do { t \<leftarrow> consult (now_at d);
                r \<leftarrow> Query d (\<lambda>b. length (filter (\<lambda>c. c_role c = RoleUser \<and> c_content c = Content m \<and>
                       c_created_at c > t - 1800) (chat_messages b)));
                if (case r of Inl _ \<Rightarrow> 0 | Inr n \<Rightarrow> n) > 0 then ret () else saveChatMessage d m }
      else saveChatMessage d m)"

definition logBrainEvent :: "deps \<Rightarrow> string \<Rightarrow> string \<Rightarrow> string \<Rightarrow> int \<Rightarrow> string \<Rightarrow> unit eff" where
  "logBrainEvent d ty summary details tokens model =
     do { t \<leftarrow> consult (now_at d);
          exec_ignore d (\<lambda>b. b\<lparr>brain_log := brain_log b @ [\<lparr>bl_event_type = ty, bl_summary = summary,
            bl_details = details, bl_tokens = tokens, bl_model = model, bl_created_at = t\<rparr>]\<rparr>) }"

definition setState :: "BrainState \<Rightarrow> unit eff" where
  "setState s = modify (\<lambda>w. w\<lparr>state := s\<rparr>)"

definition text_message :: "Role \<Rightarrow> string \<Rightarrow> Message" where
  "text_message r s = \<lparr>MRole = r, Content = s, ToolCalls = [], ToolCallID = []\<rparr>"

definition publishBrainMessage :: "deps \<Rightarrow> string \<Rightarrow> unit eff" where
  "publishBrainMessage d content =
     do { saveChatMessage d (text_message RoleAssistant content);
          publish ''brain.message''
            [(''session_id'', JStr ''brain''), (''role'', JStr ''assistant''), (''content'', JStr content)] }"

definition publishBrainError :: "deps \<Rightarrow> string \<Rightarrow> unit eff" where
  "publishBrainError d msg =
     do { publishBrainMessage d (''**Pipeline Error:** '' @ msg);
          publish ''brain.error'' [(''error'', JStr msg)] }"

definition on_task :: "int \<Rightarrow> (task_row \<Rightarrow> task_row) \<Rightarrow> site_db \<Rightarrow> site_db" where
  "on_task i f b = b\<lparr>scheduled_tasks := map (\<lambda>t. if t_id t = i then f t else t) (scheduled_tasks b)\<rparr>"

definition on_run :: "int \<Rightarrow> (task_run_row \<Rightarrow> task_run_row) \<Rightarrow> site_db \<Rightarrow> site_db" where
  "on_run i f b = b\<lparr>task_runs := map (\<lambda>r. if tr_id r = i then f r else r) (task_runs b)\<rparr>"

definition finalizeTaskRun :: "deps \<Rightarrow> int \<Rightarrow> int \<Rightarrow> bool \<Rightarrow> string \<Rightarrow> unit eff" where
  "finalizeTaskRun d runID taskID success errMsg =
     (if runID \<le> 0 then ret ()
      else if success
      then do { exec_ignore d (on_run runID (\<lambda>r. r\<lparr>tr_status := ''completed''\<rparr>));
                if taskID > 0 then exec_ignore d (on_task taskID (\<lambda>t. t\<lparr>t_run_count := t_run_count t + 1\<rparr>)) else ret () }
      else do { exec_ignore d (on_run runID (\<lambda>r. r\<lparr>tr_status := ''failed'', tr_error := Some errMsg\<rparr>));
                if taskID > 0 then exec_ignore d (on_task taskID (\<lambda>t. t\<lparr>t_error_count := t_error_count t + 1\<rparr>)) else ret () })"

section \<open>Reasoning about effects\<close>

text \<open>
  A triple \<^verbatim>\<open>hoare P m Q\<close> says that from a world with \<open>P\<close> the effect \<open>m\<close> ends with a result and a world in
  \<open>Q\<close>; \<^verbatim>\<open>frame v m\<close> says that \<open>m\<close> leaves the view \<open>v\<close> of the world unchanged. The rules follow the
  structure of the monadic code.
\<close>

named_theorems hoare_rules \<open>syntax-directed rules for triples\<close>
named_theorems frame_rules \<open>syntax-directed rules for frames\<close>

definition hoare :: "(world \<Rightarrow> bool) \<Rightarrow> 'a eff \<Rightarrow> ('a \<Rightarrow> world \<Rightarrow> bool) \<Rightarrow> bool" where
  "hoare P m Q \<longleftrightarrow> (\<forall>w. P w \<longrightarrow> Q (fst (run_state m w)) (snd (run_state m w)))"

definition frame :: "('s \<Rightarrow> 'b) \<Rightarrow> ('s, 'a) State_Monad.state \<Rightarrow> bool" where
  "frame v m \<longleftrightarrow> (\<forall>w. v (snd (run_state m w)) = v w)"

lemma run_bind: "run_state (State_Monad.bind m f) w = run_state (f (fst (run_state m w))) (snd (run_state m w))"
  by (simp add: State_Monad.bind_def split: prod.splits)

declare State_Monad.run_state_bind [simp del]

lemma run_ret [simp]: "run_state (State_Monad.return a) w = (a, w)"
  by (simp add: State_Monad.return_def)

lemma run_get [simp]: "run_state State_Monad.get w = (w, w)"
  by (simp add: State_Monad.get_def)

lemma run_modify [simp]: "run_state (State_Monad.update f) w = ((), f w)"
  by (simp add: State_Monad.update_def State_Monad.set_def run_bind)

lemma run_consult [simp]: "run_state (consult f) w = (f (tick w), w\<lparr>tick := Suc (tick w)\<rparr>)"
  by (simp add: consult_def)

lemma run_publish [simp]:
  "run_state (publish ty pl) w = ((), w\<lparr>published := published w @ [\<lparr>EvType = ty, EvPayload = pl\<rparr>]\<rparr>)"
  by (simp add: publish_def)

lemma run_setState [simp]: "run_state (setState s) w = ((), w\<lparr>state := s\<rparr>)"
  by (simp add: setState_def)

lemma run_ExecWrite:
  "run_state (ExecWrite d f) w =
     (case db_fault d (tick w) of
        None \<Rightarrow> (None, w\<lparr>tick := Suc (tick w), sdb := f (sdb w)\<rparr>)
      | Some e \<Rightarrow> (Some e, w\<lparr>tick := Suc (tick w)\<rparr>))"
  by (simp add: ExecWrite_def run_bind split: option.splits)

lemma run_Query:
  "run_state (Query d f) w =
     ((case db_fault d (tick w) of None \<Rightarrow> Inr (f (sdb w)) | Some e \<Rightarrow> Inl e), w\<lparr>tick := Suc (tick w)\<rparr>)"
  by (simp add: Query_def run_bind split: option.splits)

lemma run_exec_ignore:
  "run_state (exec_ignore d f) w =
     ((), case db_fault d (tick w) of
            None \<Rightarrow> w\<lparr>tick := Suc (tick w), sdb := f (sdb w)\<rparr>
          | Some e \<Rightarrow> w\<lparr>tick := Suc (tick w)\<rparr>)"
  by (simp add: exec_ignore_def run_bind run_ExecWrite split: option.splits)

lemmas run_simps = run_bind run_ExecWrite run_Query run_exec_ignore

lemma frameD: "frame v m \<Longrightarrow> v (snd (run_state m w)) = v w"
  by (simp add: frame_def)

lemma frame_ret [frame_rules]: "frame v (State_Monad.return a)"
  by (simp add: frame_def)

lemma frame_get [frame_rules]: "frame v State_Monad.get"
  by (simp add: frame_def)

lemma frame_bind [frame_rules]: "frame v m \<Longrightarrow> (\<And>a. frame v (f a)) \<Longrightarrow> frame v (State_Monad.bind m f)"
  unfolding frame_def run_bind by simp

lemma frame_modify [frame_rules]: "(\<And>w. v (f w) = v w) \<Longrightarrow> frame v (State_Monad.update f)"
  by (simp add: frame_def)

lemma frame_setState [frame_rules]: "(\<And>w. v (w\<lparr>state := s\<rparr>) = v w) \<Longrightarrow> frame v (setState s)"
  by (simp add: frame_def)

lemma frame_if [frame_rules]: "(b \<Longrightarrow> frame v m) \<Longrightarrow> (\<not> b \<Longrightarrow> frame v n) \<Longrightarrow> frame v (if b then m else n)"
  by simp

lemma frame_option [frame_rules]:
  "(x = None \<Longrightarrow> frame v m) \<Longrightarrow> (\<And>a. x = Some a \<Longrightarrow> frame v (f a)) \<Longrightarrow>
     frame v (case x of None \<Rightarrow> m | Some a \<Rightarrow> f a)"
  by (cases x) auto

lemma frame_sum [frame_rules]:
  "(\<And>e. x = Inl e \<Longrightarrow> frame v (g e)) \<Longrightarrow> (\<And>a. x = Inr a \<Longrightarrow> frame v (f a)) \<Longrightarrow>
     frame v (case x of Inl e \<Rightarrow> g e | Inr a \<Rightarrow> f a)"
  by (cases x) auto

lemma frame_prod [frame_rules]: "(\<And>a b. x = (a, b) \<Longrightarrow> frame v (f a b)) \<Longrightarrow> frame v (case x of (a, b) \<Rightarrow> f a b)"
  by (cases x) auto

lemma frame_Let [frame_rules]: "(\<And>a. frame v (f a)) \<Longrightarrow> frame v (Let x f)"
  by simp

locale tick_view =
  \<comment> \<open>a view that neither the counter nor the published events nor the log tables are part of\<close>
  fixes v :: "world \<Rightarrow> 'b"
  assumes view_tick: "v (w\<lparr>tick := n\<rparr>) = v w"
    and view_published: "v (w\<lparr>published := es\<rparr>) = v w"
    and view_chat: "v (w\<lparr>sdb := sdb w\<lparr>chat_messages := cs\<rparr>\<rparr>) = v w"
    and view_brain_log: "v (w\<lparr>sdb := sdb w\<lparr>brain_log := ls\<rparr>\<rparr>) = v w"
    and view_stage_log: "v (w\<lparr>sdb := sdb w\<lparr>stage_log := sl\<rparr>\<rparr>) = v w"
begin

lemma frame_consult: "frame v (consult f)"
  by (simp add: frame_def view_tick)

lemma frame_publish: "frame v (publish ty pl)"
  by (simp add: frame_def view_published)

lemma frame_Query: "frame v (Query d f)"
  by (simp add: frame_def run_Query view_tick)

lemma frame_ExecWrite: "(\<And>w. v (w\<lparr>sdb := f (sdb w)\<rparr>) = v w) \<Longrightarrow> frame v (ExecWrite d f)"
proof -
  assume f: "\<And>w. v (w\<lparr>sdb := f (sdb w)\<rparr>) = v w"
  have "v (w\<lparr>tick := Suc (tick w), sdb := f (sdb w)\<rparr>) = v w" for w
    using f [of "w\<lparr>tick := Suc (tick w)\<rparr>"] by (simp add: view_tick)
  then show ?thesis by (simp add: frame_def run_ExecWrite view_tick split: option.splits)
qed

lemma frame_exec_ignore: "(\<And>w. v (w\<lparr>sdb := f (sdb w)\<rparr>) = v w) \<Longrightarrow> frame v (exec_ignore d f)"
  unfolding exec_ignore_def by (intro frame_rules frame_ExecWrite)

lemma frame_saveChatMessage: "frame v (saveChatMessage d m)"
  unfolding saveChatMessage_def by (intro frame_rules frame_consult frame_exec_ignore view_chat)

lemma frame_saveChatMessageOnce: "frame v (saveChatMessageOnce d m)"
  unfolding saveChatMessageOnce_def
  by (intro frame_rules frame_consult frame_Query frame_saveChatMessage)

lemma frame_publishBrainMessage: "frame v (publishBrainMessage d s)"
  unfolding publishBrainMessage_def by (intro frame_rules frame_publish frame_saveChatMessage)

lemma frame_publishBrainError: "frame v (publishBrainError d s)"
  unfolding publishBrainError_def by (intro frame_rules frame_publish frame_publishBrainMessage)

lemma frame_logBrainEvent: "frame v (logBrainEvent d a b c e f)"
  unfolding logBrainEvent_def by (intro frame_rules frame_consult frame_exec_ignore view_brain_log)

lemma frame_LogStageStart: "frame v (LogStageStart d s)"
  unfolding LogStageStart_def by (intro frame_rules frame_ExecWrite view_stage_log)

lemma frame_LogStageComplete: "frame v (LogStageComplete d i a b)"
  unfolding LogStageComplete_def on_log_def by (intro frame_exec_ignore view_stage_log)

lemma frame_LogStageError: "frame v (LogStageError d i s)"
  unfolding LogStageError_def on_log_def by (intro frame_exec_ignore view_stage_log)

lemmas view_frames = frame_consult frame_publish frame_Query frame_saveChatMessage
  frame_saveChatMessageOnce frame_publishBrainMessage frame_publishBrainError frame_logBrainEvent
  frame_LogStageStart frame_LogStageComplete frame_LogStageError

end

text \<open>The views the pipeline's theorems are about: the pipeline row, the questions, and the worker's state.\<close>

abbreviation row :: "world \<Rightarrow> PipelineState" where
  "row w \<equiv> pipeline (sdb w)"

interpretation row_view: tick_view row
  by unfold_locales simp_all

interpretation questions_view: tick_view "\<lambda>w. questions (sdb w)"
  by unfold_locales simp_all

interpretation state_view: tick_view state
  by unfold_locales simp_all

lemmas row_frames = frame_rules row_view.view_frames
lemmas questions_frames = frame_rules questions_view.view_frames
lemmas state_frames = frame_rules state_view.view_frames

end
