(* ===== verification/Manager.thy ===== *)
theory Manager
  imports Brain
begin

text \<open>
  The managers that keep a Go map under a mutex: the per-site databases (\<^verbatim>\<open>db/sitedb.go\<close>), the brain
  workers (\<^verbatim>\<open>brain/manager.go\<close>) and the registry of language models (\<^verbatim>\<open>llm/registry.go\<close>). Each
  interprets the contract of a keyed store. The results: a site has at most one open database and one
  worker, no database connection leaks on any failure of opening, a command reaches only the worker of
  its site and never exceeds the capacity of its channel, and the default model is always registered.
\<close>

section \<open>Site databases\<close>

datatype open_result = Opened | FailMkdir | FailOpenRead | FailPingRead | FailOpenWrite | FailPingWrite | FailMigrate
  \<comment> \<open>what the file system and SQLite do when \<^verbatim>\<open>openSiteDB\<close> runs\<close>

record SiteDBManager =
  dbs :: "(int \<times> nat) list"
  live_pools :: nat
  next_handle :: nat

definition NewSiteDBManager :: SiteDBManager where
  "NewSiteDBManager = \<lparr>dbs = [], live_pools = 0, next_handle = 0\<rparr>"

definition GetDB :: "SiteDBManager \<Rightarrow> int \<Rightarrow> nat option" where
  "GetDB m sid = map_of (dbs m) sid"

definition pools_up :: "SiteDBManager \<Rightarrow> SiteDBManager" where
  "pools_up m = m\<lparr>live_pools := live_pools m + 1\<rparr>"

definition pools_down :: "SiteDBManager \<Rightarrow> SiteDBManager" where
  "pools_down m = m\<lparr>live_pools := live_pools m - 1\<rparr>"

definition openSiteDB :: "open_result \<Rightarrow> SiteDBManager \<Rightarrow> (open_result + nat) \<times> SiteDBManager" where
  "openSiteDB res m =
     (if res = FailMkdir then (Inl res, m)
      else if res = FailOpenRead then (Inl res, m)
      else
        let m = pools_up m in
        if res = FailPingRead then (Inl res, pools_down m)
        else if res = FailOpenWrite then (Inl res, pools_down m)
        else
          let m = pools_up m in
          if res = FailPingWrite then (Inl res, pools_down (pools_down m))
          else if res = FailMigrate then (Inl res, pools_down (pools_down m))
          else (Inr (next_handle m), m\<lparr>next_handle := next_handle m + 1\<rparr>))"

definition put_db :: "int \<Rightarrow> nat \<Rightarrow> SiteDBManager \<Rightarrow> SiteDBManager" where
  "put_db sid h m = m\<lparr>dbs := AList.update sid h (dbs m)\<rparr>"

definition OpenDB :: "open_result \<Rightarrow> int \<Rightarrow> SiteDBManager \<Rightarrow> (open_result + nat) \<times> SiteDBManager" where
  "OpenDB res sid m =
     (case GetDB m sid of
        Some h \<Rightarrow> (Inr h, m)
      | None \<Rightarrow>
          (case openSiteDB res m of
             (Inl e, m) \<Rightarrow> (Inl e, m)
           | (Inr h, m) \<Rightarrow> (Inr h, put_db sid h m)))"

definition CreateDB :: "bool \<Rightarrow> open_result \<Rightarrow> int \<Rightarrow> SiteDBManager \<Rightarrow> (open_result + nat) \<times> SiteDBManager" where
  \<comment> \<open>the first argument: the directory can be made\<close>
  "CreateDB mkdir_ok res sid m =
     (case GetDB m sid of
        Some h \<Rightarrow> (Inr h, m)
      | None \<Rightarrow> if \<not> mkdir_ok then (Inl FailMkdir, m)
                else (case openSiteDB res m of
                        (Inl e, m) \<Rightarrow> (Inl e, m)
                      | (Inr h, m) \<Rightarrow> (Inr h, put_db sid h m)))"

definition drop_db :: "int \<Rightarrow> SiteDBManager \<Rightarrow> SiteDBManager" where
  "drop_db sid m = m\<lparr>dbs := AList.delete sid (dbs m)\<rparr>"

definition CloseDB :: "int \<Rightarrow> SiteDBManager \<Rightarrow> SiteDBManager" where
  "CloseDB sid m =
     (case GetDB m sid of
        Some h \<Rightarrow> drop_db sid (pools_down (pools_down m))
      | None \<Rightarrow> m)"

definition DeleteDB :: "bool \<Rightarrow> int \<Rightarrow> SiteDBManager \<Rightarrow> bool \<times> SiteDBManager" where
  \<comment> \<open>the first argument and the result: the directory is removed\<close>
  "DeleteDB rm_ok sid m = (rm_ok, CloseDB sid m)"

definition CloseAllDB :: "SiteDBManager \<Rightarrow> SiteDBManager" where
  "CloseAllDB m = (foldl (\<lambda>m _. pools_down (pools_down m)) m (dbs m))\<lparr>dbs := []\<rparr>"

definition OpenSiteIDs :: "SiteDBManager \<Rightarrow> int list" where
  "OpenSiteIDs m = map fst (dbs m)"

lemma dbs_pools [simp]: "dbs (pools_up m) = dbs m" "dbs (pools_down m) = dbs m"
  by (simp_all add: pools_up_def pools_down_def)

interpretation site_dbs: keyed_store GetDB put_db drop_db
  by unfold_locales (simp_all add: GetDB_def put_db_def drop_db_def fun_eq_iff)

definition dbs_ok :: "SiteDBManager \<Rightarrow> bool" where
  "dbs_ok m \<longleftrightarrow> distinct (map fst (dbs m)) \<and> live_pools m = 2 * length (dbs m) \<and>
     distinct (map snd (dbs m)) \<and> (\<forall>h \<in> snd ` set (dbs m). h < next_handle m)"

lemma length_update_new: "k \<notin> fst ` set m \<Longrightarrow> AList.update k v m = m @ [(k, v)]"
  by (induction m) auto

lemma length_delete_in:
  "distinct (map fst m) \<Longrightarrow> k \<in> fst ` set m \<Longrightarrow> Suc (length (AList.delete k m)) = length m"
proof (induction m)
  case (Cons a m)
  show ?case
  proof (cases "fst a = k")
    case True
    then have "k \<notin> fst ` set m" using Cons.prems by auto
    then have "filter (\<lambda>(k', _). k \<noteq> k') m = m" by (force intro: filter_True)
    with True show ?thesis by (cases a) (simp add: AList.delete_eq)
  next
    case False
    with Cons show ?thesis by (cases a) (auto simp: AList.delete_eq)
  qed
qed simp

lemma openSiteDB_ok:
  "openSiteDB res m = (r, m') \<Longrightarrow>
     (case r of
        Inl e \<Rightarrow> m' = m
      | Inr h \<Rightarrow> h = next_handle m \<and> m' = m\<lparr>live_pools := live_pools m + 2, next_handle := next_handle m + 1\<rparr>)"
  by (cases res) (auto simp: openSiteDB_def Let_def pools_up_def pools_down_def)

lemma put_new_ok: "dbs_ok m \<Longrightarrow> GetDB m s = None \<Longrightarrow>
    dbs_ok (put_db s (next_handle m) (m\<lparr>live_pools := live_pools m + 2, next_handle := next_handle m + 1\<rparr>))"
proof -
  assume ok: "dbs_ok m" and "GetDB m s = None"
  then have "s \<notin> fst ` set (dbs m)" by (simp add: GetDB_def map_of_eq_None_iff)
  with ok show ?thesis
    by (force simp: dbs_ok_def put_db_def length_update_new)
qed

lemma OpenDB_ok: "dbs_ok m \<Longrightarrow> dbs_ok (snd (OpenDB res s m))"
  using openSiteDB_ok [of res m] put_new_ok [of m s]
  by (auto simp: OpenDB_def split: option.splits prod.splits sum.splits)

lemma CreateDB_ok: "dbs_ok m \<Longrightarrow> dbs_ok (snd (CreateDB b res s m))"
  using openSiteDB_ok [of res m] put_new_ok [of m s]
  by (auto simp: CreateDB_def split: option.splits prod.splits sum.splits)

lemma CloseDB_ok: "dbs_ok m \<Longrightarrow> dbs_ok (CloseDB s m)"
proof (cases "GetDB m s")
  case (Some h)
  assume ok: "dbs_ok m"
  from Some have "s \<in> fst ` set (dbs m)" by (metis GetDB_def map_of_eq_None_iff option.distinct(1))
  with ok have "Suc (length (AList.delete s (dbs m))) = length (dbs m)"
    by (intro length_delete_in) (auto simp: dbs_ok_def)
  moreover have "set (AList.delete s (dbs m)) \<subseteq> set (dbs m)" by (auto simp: AList.delete_eq)
  moreover have "distinct (map snd (AList.delete s (dbs m)))"
    using ok by (simp add: dbs_ok_def AList.delete_eq distinct_map_filter)
  ultimately show ?thesis
    using ok Some by (auto simp: CloseDB_def dbs_ok_def drop_db_def pools_down_def)
qed (simp add: CloseDB_def)

lemma CloseAllDB_ok: "dbs_ok m \<Longrightarrow> dbs_ok (CloseAllDB m) \<and> live_pools (CloseAllDB m) = 0"
proof -
  have "foldl (\<lambda>m _. pools_down (pools_down m)) m xs = m\<lparr>live_pools := live_pools m - 2 * length xs\<rparr>"
    for xs :: "(int \<times> nat) list" and m
    by (induction xs arbitrary: m) (simp_all add: pools_down_def)
  then show "dbs_ok m \<Longrightarrow> ?thesis" by (simp add: CloseAllDB_def dbs_ok_def)
qed

inductive dbs_step :: "SiteDBManager \<Rightarrow> SiteDBManager \<Rightarrow> bool" where
  "dbs_step m (snd (OpenDB res s m))"
| "dbs_step m (snd (CreateDB b res s m))"
| "dbs_step m (CloseDB s m)"
| "dbs_step m (snd (DeleteDB b s m))"
| "dbs_step m (CloseAllDB m)"

interpretation dbs_inv: step_invariant dbs_step dbs_ok
  by unfold_locales
    (auto elim!: dbs_step.cases simp: OpenDB_ok CreateDB_ok CloseDB_ok CloseAllDB_ok DeleteDB_def)

text \<open>
  C10. Through any sequence of opening, creating, closing and deleting, whatever fails inside an opening:
  a site has at most one open database, two sites never share one, and exactly two connection pools
  are open per open database, so none leaks; after closing all, none is left.
\<close>
theorem no_pool_leaks:
  assumes "reaches dbs_step NewSiteDBManager m"
  shows "distinct (OpenSiteIDs m) \<and> distinct (map snd (dbs m)) \<and> live_pools m = 2 * length (OpenSiteIDs m) \<and>
    live_pools (CloseAllDB m) = 0"
proof -
  have "dbs_ok m"
    by (rule dbs_inv.reaches_inv [OF assms]) (simp add: dbs_ok_def NewSiteDBManager_def)
  then show ?thesis
    using conjunct2 [OF CloseAllDB_ok] unfolding dbs_ok_def OpenSiteIDs_def by (metis \<open>dbs_ok m\<close> length_map)
qed

theorem no_pool_leaks_witness:
  "live_pools (snd (OpenDB Opened 7 (snd (OpenDB FailMigrate 7 NewSiteDBManager)))) = 2"
proof -
  have "reaches dbs_step NewSiteDBManager (snd (OpenDB Opened 7 (snd (OpenDB FailMigrate 7 NewSiteDBManager))))"
    by (blast intro: reaches.intros dbs_step.intros)
  from no_pool_leaks [OF this] show ?thesis
    by (simp add: OpenSiteIDs_def NewSiteDBManager_def OpenDB_def GetDB_def openSiteDB_def put_db_def
        pools_up_def pools_down_def Let_def)
qed

section \<open>Brain workers\<close>

definition commandCapacity :: nat where
  \<comment> \<open>\<^verbatim>\<open>make(chan BrainCommand, 16)\<close>\<close>
  "commandCapacity = 16"

record workerHandle =
  wh_commands :: "BrainCommand list"
  wh_state :: BrainState

record BrainManager =
  workers :: "(int \<times> workerHandle) list"
  cancelled_workers :: "int list"

definition NewBrainManager :: BrainManager where
  "NewBrainManager = \<lparr>workers = [], cancelled_workers = []\<rparr>"

definition worker_of :: "BrainManager \<Rightarrow> int \<Rightarrow> workerHandle option" where
  "worker_of m sid = map_of (workers m) sid"

definition put_worker :: "int \<Rightarrow> workerHandle \<Rightarrow> BrainManager \<Rightarrow> BrainManager" where
  "put_worker sid h m = m\<lparr>workers := AList.update sid h (workers m)\<rparr>"

definition drop_worker :: "int \<Rightarrow> BrainManager \<Rightarrow> BrainManager" where
  "drop_worker sid m = m\<lparr>workers := AList.delete sid (workers m)\<rparr>"

interpretation workers_store: keyed_store worker_of put_worker drop_worker
  by unfold_locales (simp_all add: worker_of_def put_worker_def drop_worker_def fun_eq_iff)

definition no_worker :: "int \<Rightarrow> string" where
  "no_worker sid = ''brain: no worker running for site '' @ show_int sid"

definition StartSite :: "string option \<Rightarrow> int \<Rightarrow> BrainManager \<Rightarrow> (string + unit) \<times> BrainManager" where
  \<comment> \<open>the first argument: the error of opening the site's database, if any\<close>
  "StartSite open_err sid m =
     (case worker_of m sid of
        Some _ \<Rightarrow> (Inr (), m)
      | None \<Rightarrow>
          (case open_err of
             Some e \<Rightarrow> (Inl (''brain: failed to create pipeline worker for site '' @ show_int sid @ '': '' @ e), m)
           | None \<Rightarrow> (Inr (), put_worker sid \<lparr>wh_commands = [], wh_state = StateIdle\<rparr> m)))"

definition StopSite :: "int \<Rightarrow> BrainManager \<Rightarrow> (string + unit) \<times> BrainManager" where
  "StopSite sid m =
     (case worker_of m sid of
        None \<Rightarrow> (Inl (no_worker sid), m)
      | Some _ \<Rightarrow> (Inr (), drop_worker sid (m\<lparr>cancelled_workers := sid # cancelled_workers m\<rparr>)))"

definition StopAll :: "BrainManager \<Rightarrow> BrainManager" where
  "StopAll m = m\<lparr>cancelled_workers := map fst (workers m) @ cancelled_workers m, workers := []\<rparr>"

definition Status :: "BrainManager \<Rightarrow> int \<Rightarrow> BrainState" where
  "Status m sid = (case worker_of m sid of None \<Rightarrow> StateIdle | Some h \<Rightarrow> wh_state h)"

definition Send :: "BrainCommand \<Rightarrow> workerHandle \<Rightarrow> string + workerHandle" where
  \<comment> \<open>a full channel that is not drained within five seconds\<close>
  "Send cmd h =
     (if length (wh_commands h) < commandCapacity then Inr (h\<lparr>wh_commands := wh_commands h @ [cmd]\<rparr>)
      else Inl (''pipeline command channel full, command '' @ CmdType cmd @ '' not delivered''))"

definition SendCommand :: "int \<Rightarrow> BrainCommand \<Rightarrow> BrainManager \<Rightarrow> (string + unit) \<times> BrainManager" where
  "SendCommand sid cmd m =
     (case worker_of m sid of
        None \<Rightarrow> (Inl (no_worker sid), m)
      | Some h \<Rightarrow>
          (case Send cmd h of
             Inl e \<Rightarrow> (Inl e, m)
           | Inr h' \<Rightarrow> (Inr (), put_worker sid h' m)))"

definition receive :: "int \<Rightarrow> BrainManager \<Rightarrow> BrainManager" where
  \<comment> \<open>the worker takes its next command\<close>
  "receive sid m =
     (case worker_of m sid of
        Some h \<Rightarrow> put_worker sid (h\<lparr>wh_commands := tl (wh_commands h)\<rparr>) m
      | None \<Rightarrow> m)"

fun AutoStart :: "(int \<Rightarrow> string option) \<Rightarrow> int list \<Rightarrow> BrainManager \<Rightarrow> BrainManager" where
  "AutoStart open_err [] m = m"
| "AutoStart open_err (sid # sids) m = AutoStart open_err sids (snd (StartSite (open_err sid) sid m))"

definition IsRunning :: "BrainManager \<Rightarrow> int \<Rightarrow> bool" where
  "IsRunning m sid \<longleftrightarrow> worker_of m sid \<noteq> None"

definition RunningCount :: "BrainManager \<Rightarrow> nat" where
  "RunningCount m = length (workers m)"

definition RunningSites :: "BrainManager \<Rightarrow> int list" where
  "RunningSites m = map fst (workers m)"

inductive mgr_step :: "BrainManager \<Rightarrow> BrainManager \<Rightarrow> bool" where
  "mgr_step m (snd (StartSite e sid m))"
| "mgr_step m (snd (StopSite sid m))"
| "mgr_step m (StopAll m)"
| "mgr_step m (snd (SendCommand sid cmd m))"
| "mgr_step m (receive sid m)"
| "mgr_step m (AutoStart f sids m)"

definition mgr_ok :: "BrainManager \<Rightarrow> bool" where
  "mgr_ok m \<longleftrightarrow> distinct (map fst (workers m)) \<and>
     (\<forall>sid h. worker_of m sid = Some h \<longrightarrow> length (wh_commands h) \<le> commandCapacity)"

lemma put_worker_ok:
  "mgr_ok m \<Longrightarrow> length (wh_commands h) \<le> commandCapacity \<Longrightarrow> mgr_ok (put_worker sid h m)"
  using workers_store.lookup_put [of sid h m] by (auto simp: mgr_ok_def put_worker_def)

lemma drop_worker_ok: "mgr_ok m \<Longrightarrow> mgr_ok (drop_worker sid m)"
  using workers_store.lookup_remove [of sid m] by (auto simp: mgr_ok_def drop_worker_def split: if_splits)

lemma StartSite_ok: "mgr_ok m \<Longrightarrow> mgr_ok (snd (StartSite e sid m))"
  by (auto simp: StartSite_def put_worker_ok split: option.splits)

lemma AutoStart_ok: "mgr_ok m \<Longrightarrow> mgr_ok (AutoStart f sids m)"
  by (induction f sids m rule: AutoStart.induct) (simp_all add: StartSite_ok)

lemma StopSite_ok: "mgr_ok m \<Longrightarrow> mgr_ok (snd (StopSite sid m))"
proof -
  assume "mgr_ok m"
  then have "mgr_ok (m\<lparr>cancelled_workers := cs\<rparr>)" for cs by (simp add: mgr_ok_def worker_of_def)
  with \<open>mgr_ok m\<close> show ?thesis by (auto simp: StopSite_def drop_worker_ok split: option.splits)
qed

lemma SendCommand_ok: "mgr_ok m \<Longrightarrow> mgr_ok (snd (SendCommand sid cmd m))"
  by (auto simp: SendCommand_def Send_def intro!: put_worker_ok split: option.splits sum.splits)

lemma receive_ok: "mgr_ok m \<Longrightarrow> mgr_ok (receive sid m)"
  by (auto simp: receive_def mgr_ok_def intro!: put_worker_ok [unfolded mgr_ok_def]
      split: option.splits) (force intro: le_trans [OF diff_le_self])+

lemma StopAll_ok: "mgr_ok m \<Longrightarrow> mgr_ok (StopAll m)"
  by (simp add: StopAll_def mgr_ok_def worker_of_def)

lemma mgr_step_ok: "mgr_step m m' \<Longrightarrow> mgr_ok m \<Longrightarrow> mgr_ok m'"
  by (erule mgr_step.cases)
    (auto simp: StartSite_ok StopSite_ok SendCommand_ok receive_ok AutoStart_ok StopAll_ok)

interpretation mgr: step_invariant mgr_step mgr_ok
  by unfold_locales (rule mgr_step_ok)



lemma IsRunning_StartSite:
  "IsRunning (snd (StartSite e sid m)) s \<longleftrightarrow> IsRunning m s \<or> s = sid \<and> e = None"
  by (auto simp: IsRunning_def StartSite_def workers_store.lookup_put split: option.splits)

text \<open>
  Starting all active sites continues after a failure: afterwards exactly the sites that ran before
  and the listed ones whose database opened are running.
\<close>
theorem AutoStart_running:
  "IsRunning (AutoStart open_err sids m) s \<longleftrightarrow> IsRunning m s \<or> s \<in> set sids \<and> open_err s = None"
  by (induction open_err sids m rule: AutoStart.induct) (auto simp: IsRunning_StartSite)

section \<open>The registry of language models\<close>

record 'p LLMRegistry =
  providers :: "(string \<times> 'p) list"
  defaultName :: string

definition NewLLMRegistry :: "'p LLMRegistry" where
  "NewLLMRegistry = \<lparr>providers = [], defaultName = []\<rparr>"

definition provider_of :: "'p LLMRegistry \<Rightarrow> string \<Rightarrow> 'p option" where
  "provider_of r name = map_of (providers r) name"

definition RegisterLLM :: "string \<Rightarrow> 'p \<Rightarrow> 'p LLMRegistry \<Rightarrow> 'p LLMRegistry" where
  "RegisterLLM name p r =
     r\<lparr>providers := AList.update name p (providers r),
       defaultName := (if defaultName r = [] then name else defaultName r)\<rparr>"

definition GetLLM :: "'p LLMRegistry \<Rightarrow> string \<Rightarrow> string + 'p" where
  "GetLLM r name =
     (case provider_of r name of
        None \<Rightarrow> Inl (''llm: provider '' @ quote name @ '' not found'')
      | Some p \<Rightarrow> Inr p)"

definition ListLLM :: "'p LLMRegistry \<Rightarrow> string list" where
  "ListLLM r = map fst (providers r)"

definition DefaultLLM :: "'p LLMRegistry \<Rightarrow> string + 'p" where
  "DefaultLLM r =
     (if defaultName r = [] then Inl ''llm: no default provider set''
      else (case provider_of r (defaultName r) of
              None \<Rightarrow> Inl (''llm: default provider '' @ quote (defaultName r) @ '' not found'')
            | Some p \<Rightarrow> Inr p))"

definition SetDefaultLLM :: "string \<Rightarrow> 'p LLMRegistry \<Rightarrow> (string + unit) \<times> 'p LLMRegistry" where
  "SetDefaultLLM name r =
     (case provider_of r name of
        None \<Rightarrow> (Inl (''llm: provider '' @ quote name @ '' not found''), r)
      | Some _ \<Rightarrow> (Inr (), r\<lparr>defaultName := name\<rparr>))"

interpretation llm_store: put_store provider_of RegisterLLM
  by unfold_locales (simp add: provider_of_def RegisterLLM_def fun_eq_iff)

inductive llm_step :: "'p LLMRegistry \<Rightarrow> 'p LLMRegistry \<Rightarrow> bool" where
  "name \<noteq> [] \<Longrightarrow> llm_step r (RegisterLLM name p r)"
| "llm_step r (snd (SetDefaultLLM name r))"

definition llm_ok :: "'p LLMRegistry \<Rightarrow> bool" where
  "llm_ok r \<longleftrightarrow> (if providers r = [] then defaultName r = []
     else defaultName r \<noteq> [] \<and> provider_of r (defaultName r) \<noteq> None) \<and> provider_of r [] = None"

lemma update_not_Nil: "AList.update k v m \<noteq> []"
  by (cases m) auto

lemma llm_step_ok: "llm_step r r' \<Longrightarrow> llm_ok r \<Longrightarrow> llm_ok r'"
  by (erule llm_step.cases)
    (auto simp: llm_ok_def RegisterLLM_def provider_of_def SetDefaultLLM_def update_not_Nil
      split: option.splits if_splits)

interpretation llm: step_invariant llm_step llm_ok
  by unfold_locales (rule llm_step_ok)

text \<open>
  Through any registrations and changes of the default, the registry has a default provider exactly
  when it has a provider, and the default is always a registered one.
\<close>
theorem default_registered:
  assumes "reaches llm_step NewLLMRegistry r"
  shows "DefaultLLM r =
    (if ListLLM r = [] then Inl ''llm: no default provider set'' else GetLLM r (defaultName r)) \<and>
    (ListLLM r = [] \<or> (\<exists>p. GetLLM r (defaultName r) = Inr p))"
proof -
  have "llm_ok r"
    by (rule llm.reaches_inv [OF assms]) (simp add: llm_ok_def NewLLMRegistry_def provider_of_def)
  then show ?thesis
    by (auto simp: llm_ok_def DefaultLLM_def ListLLM_def GetLLM_def split: option.splits if_splits)
qed

theorem default_registered_witness:
  "DefaultLLM (RegisterLLM ''claude'' (1::nat) NewLLMRegistry) = Inr 1"
proof -
  have "reaches llm_step NewLLMRegistry (RegisterLLM ''claude'' (1::nat) NewLLMRegistry)"
    by (rule reaches_step, rule reaches_refl, rule llm_step.intros) simp
  from default_registered [OF this] show ?thesis
    by (simp add: RegisterLLM_def NewLLMRegistry_def ListLLM_def GetLLM_def provider_of_def)
qed

end
