(* ===== verification/Stages.thy ===== *)
theory Stages
  imports Brain
begin

text \<open>
  The work a brain worker does inside a stage: the calls to the language model with their retries,
  the tool-call loop (\<^verbatim>\<open>brain/pipeline.go\<close>) and the four stages (\<^verbatim>\<open>brain/stages.go\<close>). A stage ends with
  its next stage, an error, or a panic, which the pipeline recovers. The prompts are texts the model
  of language is free to answer in any way; they are one argument of \<^verbatim>\<open>deps\<close>.
\<close>

section \<open>Constants and utilities\<close>

definition ChatToolSet :: "string list" where
  "ChatToolSet =
     [''manage_pages'', ''manage_files'', ''manage_layout'', ''manage_data'', ''manage_endpoints'',
      ''manage_schema'', ''manage_diagnostics'', ''manage_analytics'', ''manage_communication'',
      ''manage_scheduler'', ''manage_site'', ''manage_secrets'', ''manage_providers'', ''manage_email'',
      ''manage_payments'', ''manage_webhooks'', ''make_http_request'']"

definition toolSetExcept :: "string list \<Rightarrow> string list \<Rightarrow> string list" where
  "toolSetExcept base excl = filter (\<lambda>n. n \<notin> set excl) base"

definition buildToolSet :: "string list" where
  "buildToolSet = toolSetExcept ChatToolSet [''manage_diagnostics'', ''manage_analytics'', ''manage_site'']"

definition chatWakeToolSet :: "string list" where
  "chatWakeToolSet = toolSetExcept ChatToolSet [''manage_diagnostics'', ''manage_analytics'']"

definition monitoringTools :: "string list" where
  "monitoringTools = [''manage_diagnostics'', ''manage_analytics'', ''manage_communication'']"

definition offered :: "deps \<Rightarrow> string list \<Rightarrow> string list" where
  \<comment> \<open>the names in \<^verbatim>\<open>ToLLMToolsFiltered\<close>, up to their order\<close>
  "offered d allowed = filter (has_tool d) allowed"

definition maxStageRetries :: nat where "maxStageRetries = 3"
definition maxLLMRetries :: nat where "maxLLMRetries = 3"
definition maxContinuations :: nat where "maxContinuations = 3"
definition idleThreshold :: int where "idleThreshold = 3"

definition permanentPatterns :: "string list" where
  "permanentPatterns =
     [''no api key'', ''no model configured'', ''provider not available'', ''failed to decrypt'',
      ''has no api key'', ''has no base_url'']"

definition isPermanentError :: "string \<Rightarrow> bool" where
  "isPermanentError err =
     (let msg = to_lower err in
      list_ex (contains msg) permanentPatterns \<or>
      contains msg ''send request:'' \<and> \<not> contains msg ''api error'' \<and> \<not> contains msg ''timeout'' \<and>
      \<not> contains msg ''context deadline exceeded'')"

definition isInteractiveTool :: "string \<Rightarrow> bool" where
  "isInteractiveTool name \<longleftrightarrow>
     name \<in> {''manage_communication'', ''manage_pages'', ''manage_files'', ''manage_layout'',
             ''manage_schema'', ''manage_data'', ''manage_endpoints''}"

definition payloadInt64 :: "jobj \<Rightarrow> string \<Rightarrow> int" where
  "payloadInt64 payload key =
     (case map_of payload key of
        Some (JNum q) \<Rightarrow> trunc_rat q
      | Some (JStr s) \<Rightarrow> (case atoi s of Some n \<Rightarrow> n | None \<Rightarrow> 0)
      | _ \<Rightarrow> 0)"

definition truncate :: "string \<Rightarrow> nat \<Rightarrow> string" where
  "truncate s maxLen = (if length s \<le> maxLen then s else take maxLen s @ ''...'')"

definition truncateToolResult :: "deps \<Rightarrow> int \<Rightarrow> string \<Rightarrow> string \<Rightarrow> string" where
  "truncateToolResult d override toolName result =
     (let maxSize = (if has_tool d toolName then (case max_result d toolName of Some n \<Rightarrow> n | None \<Rightarrow> 6000) else 6000);
          maxSize = (if override > 0 \<and> override < maxSize then override else maxSize)
      in truncate result (nat maxSize))"

section \<open>Calling the model\<close>

definition connection_error :: "string \<Rightarrow> bool" where
  "connection_error msg \<longleftrightarrow>
     contains msg ''send request:'' \<and> \<not> contains msg ''API error'' \<and> \<not> contains msg ''timeout'' \<and>
     \<not> contains msg ''context deadline exceeded''"

definition llm_backoff :: "string \<Rightarrow> nat \<Rightarrow> int" where
  \<comment> \<open>seconds\<close>
  "llm_backoff msg attempt =
     (if contains msg ''API error 429'' \<or> contains msg ''API error 529'' \<or> contains msg ''overloaded''
      then 15 * (int attempt + 1)
      else if contains msg ''timeout'' \<or> contains msg ''context deadline exceeded'' then 5 * (int attempt + 1)
      else 2 * (int attempt + 1))"

definition wait_for :: "deps \<Rightarrow> int \<Rightarrow> bool eff" where
  \<comment> \<open>\<^verbatim>\<open>select\<close> between the context and a timer: true when the context is done first\<close>
  "wait_for d seconds = consult (ctx_done d)"

fun callWithRetry :: "deps \<Rightarrow> CompletionRequest \<Rightarrow> nat \<Rightarrow> nat \<Rightarrow> string \<Rightarrow> (string + CompletionResponse) eff" where
  "callWithRetry d req 0 attempt err = ret (Inl err)"
| "callWithRetry d req (Suc left) attempt err =
     do { r \<leftarrow> consult (\<lambda>n. complete d n req);
          case r of
            Inr resp \<Rightarrow> ret (Inr resp)
          | Inl msg \<Rightarrow>
              do { cancelled \<leftarrow> consult (ctx_done d);
                   if cancelled \<or> connection_error msg then ret (Inl msg)
                   else do { cancelled \<leftarrow> wait_for d (llm_backoff msg attempt);
                             if cancelled then ret (Inl ''context canceled'')
                             else callWithRetry d req left (Suc attempt) msg } } }"

section \<open>Tool calls\<close>

definition tool_message :: "ToolCall \<Rightarrow> string \<Rightarrow> Message" where
  "tool_message tc s = \<lparr>MRole = RoleTool, Content = s, ToolCalls = [], ToolCallID = CallID tc\<rparr>"

definition parse_arguments :: "deps \<Rightarrow> string \<Rightarrow> string + jobj" where
  \<comment> \<open>an array of one element is unwrapped first\<close>
  "parse_arguments d args =
     json_object d
       (case args of
          CHR ''['' # _ \<Rightarrow> (case json_raw_array d args of Some [x] \<Rightarrow> x | _ \<Rightarrow> args)
        | _ \<Rightarrow> args)"

definition toolProgressMessage :: "string \<Rightarrow> jobj \<Rightarrow> string" where
  "toolProgressMessage tool args =
     (let action = get_str args ''action'' in
      if tool = ''manage_files'' \<and> action = ''save'' then
        (let f = get_str args ''filename''; scope = get_str args ''scope'' in
         if f \<noteq> [] then ''Created **'' @ f @ ''** ('' @ (if scope = [] then ''page'' else scope) @ '')'' else [])
      else if tool = ''manage_files'' \<and> action = ''delete'' then
        (let f = get_str args ''filename'' in if f \<noteq> [] then ''Deleted **'' @ f @ ''**'' else [])
      else if tool = ''manage_layout'' \<and> action = ''save'' then
        (let name = get_str args ''name'' in
         ''Saved layout: **'' @ (if name = [] then ''default'' else name) @ ''**'')
      else if tool = ''manage_schema'' \<and> action = ''create'' then
        (let t = get_str args ''table_name'' in if t \<noteq> [] then ''Created table: **'' @ t @ ''**'' else [])
      else if tool = ''manage_endpoints'' \<and> has_prefix ''create_'' action then
        (let p = get_str args ''path'' in
         if p \<noteq> [] then ''Created endpoint: **/api/'' @ p @ ''** ('' @ action @ '')'' else [])
      else [])"

definition squote :: "string \<Rightarrow> string" where
  "squote s = [CHR 0x27] @ s @ [CHR 0x27]"

definition json_error :: "string \<Rightarrow> string" where
  "json_error s = ''{'' @ quote ''error'' @ '': '' @ [dquote] @ s @ [dquote] @ ''}''"

definition execute_tool :: "deps \<Rightarrow> string \<Rightarrow> jobj \<Rightarrow> (string + string) eff" where
  "execute_tool d name args =
     State (\<lambda>w. let (r, b) = execute d (tick w) name args (sdb w)
                in (r, w\<lparr>tick := Suc (tick w), sdb := b\<rparr>))"

definition execute_call :: "deps \<Rightarrow> ToolCall \<Rightarrow> Message eff" where
  "execute_call d tc =
     (if \<not> has_tool d (CallName tc)
      then ret (tool_message tc (json_error
             (''unknown tool '' @ squote (CallName tc) @ '' '' @ em_dash @ '' check available tool names'')))
      else case parse_arguments d (Arguments tc) of
             Inl err \<Rightarrow>
               ret (tool_message tc (json_error
                 (''invalid JSON arguments for tool '' @ CallName tc @ '': '' @ err)))
           | Inr args \<Rightarrow>
               do { publish ''brain.tool_start''
                      [(''tool'', JStr (CallName tc)), (''name'', JStr (CallName tc)),
                       (''call_id'', JStr (CallID tc)), (''args'', JObj args)];
                    r \<leftarrow> execute_tool d (CallName tc) args;
                    let result = (case r of
                          Inr s \<Rightarrow> s
                        | Inl e \<Rightarrow> json_error (''tool '' @ CallName tc @ '' failed: '' @ e));
                    over \<leftarrow> gets maxToolResultOverride;
                    saveChatMessage d (tool_message tc (summarize d (CallName tc) result));
                    publish ''brain.tool_result''
                      [(''tool'', JStr (CallName tc)), (''name'', JStr (CallName tc)),
                       (''call_id'', JStr (CallID tc)), (''args'', JObj args),
                       (''result'', JStr (if isInteractiveTool (CallName tc) then result else truncate result 500))];
                    (case r of
                       Inr _ \<Rightarrow> (let msg = toolProgressMessage (CallName tc) args
                                 in if msg \<noteq> [] then publishBrainMessage d msg else ret ())
                     | Inl _ \<Rightarrow> ret ());
                    ret (tool_message tc (truncateToolResult d over (CallName tc) result)) })"

fun executeToolCalls :: "deps \<Rightarrow> ToolCall list \<Rightarrow> Message list \<Rightarrow> Message list eff" where
  "executeToolCalls d [] messages = ret messages"
| "executeToolCalls d (tc # tcs) messages =
     do { m \<leftarrow> execute_call d tc; executeToolCalls d tcs (messages @ [m]) }"

section \<open>The tool-call loop\<close>

record loop_result =
  lastContent :: string
  lastModel :: string
  totalTokens :: int
  totalToolCalls :: nat
  loopErr :: "string option"

record loop_spec =
  l_model :: string
  l_system :: string
  l_tools :: "string list"
  l_maxTokens :: int

fun tool_loop :: "deps \<Rightarrow> loop_spec \<Rightarrow> nat \<Rightarrow> nat \<Rightarrow> Message list \<Rightarrow> nat \<Rightarrow> loop_result \<Rightarrow> loop_result eff" where
  "tool_loop d sp 0 i messages cont res = ret res"
| "tool_loop d sp (Suc left) i messages cont res =
     do { r \<leftarrow> callWithRetry d \<lparr>ReqModel = l_model sp, ReqSystem = l_system sp, ReqMessages = messages,
                 ReqTools = l_tools sp, ReqMaxTokens = l_maxTokens sp\<rparr> maxLLMRetries 0 [];
          case r of
            Inl err \<Rightarrow>
              ret (res\<lparr>lastContent := [], lastModel := [],
                       loopErr := Some (''LLM call failed at iteration '' @ show_nat i @ '': '' @ err)\<rparr>)
          | Inr resp \<Rightarrow>
              do { let res = res\<lparr>totalTokens := totalTokens res + InputTokens resp + OutputTokens resp,
                                 lastContent := RespContent resp, lastModel := RespModel resp\<rparr>;
                   let msg = \<lparr>MRole = RoleAssistant, Content = RespContent resp,
                              ToolCalls = RespToolCalls resp, ToolCallID = []\<rparr>;
                   (if RespContent resp \<noteq> [] \<or> RespToolCalls resp \<noteq> [] then saveChatMessage d msg else ret ());
                   (if RespContent resp \<noteq> [] \<and> RespToolCalls resp = []
                    then publish ''brain.message''
                           [(''session_id'', JStr ''brain''), (''role'', JStr ''assistant''),
                            (''content'', JStr (RespContent resp))]
                    else ret ());
                   if RespToolCalls resp = []
                   then if StopReason resp = ''max_tokens''
                        then if cont + 1 \<ge> maxContinuations
                             then do { publishBrainMessage d (''Build hit output limit '' @ em_dash @ '' some items may be incomplete. Use chat to request fixes.'');
                                       ret res }
                             else tool_loop d sp left (Suc i)
                                    (messages @ [msg, text_message RoleUser
                                       (''Your response was cut off. Continue building from where you left off '' @
                                        em_dash @ '' call your next tool.'')])
                                    (cont + 1) res
                        else ret res
                   else do { ms \<leftarrow> executeToolCalls d (RespToolCalls resp) (messages @ [msg]);
                             tool_loop d sp left (Suc i) ms cont
                               (res\<lparr>totalToolCalls := totalToolCalls res + length (RespToolCalls resp)\<rparr>) } } }"

definition runToolLoop :: "deps \<Rightarrow> loop_spec \<Rightarrow> Message list \<Rightarrow> nat \<Rightarrow> loop_result eff" where
  "runToolLoop d sp messages maxIter =
     tool_loop d sp maxIter 0 messages 0
       \<lparr>lastContent = [], lastModel = [], totalTokens = 0, totalToolCalls = 0, loopErr = None\<rparr>"

section \<open>Resolving the provider\<close>

definition RequiresAPIKey :: "deps \<Rightarrow> LLMProvider \<Rightarrow> bool" where
  "RequiresAPIKey d p =
     (if ProvConfig p = [] then True
      else case json_value d (ProvConfig p) of
             Some (JObj ob) \<Rightarrow>
               (let vs = json_field ''requires_api_key'' ob in
                if vs = [] \<or> \<not> list_all (\<lambda>v. case v of JBool _ \<Rightarrow> True | _ \<Rightarrow> False) vs then True
                else last vs = JBool True)
           | _ \<Rightarrow> True)"

definition err_no_model :: "string \<Rightarrow> string" where
  "err_no_model e = ''no model configured and no default available: '' @ e"

definition err_decrypt :: "LLMProvider \<Rightarrow> string \<Rightarrow> string" where
  "err_decrypt p e = ''failed to decrypt API key for '' @ quote (ProvName p) @ '': '' @ e"

definition err_no_key :: "LLMProvider \<Rightarrow> string" where
  "err_no_key p = (''provider '' @ quote (ProvName p)) @ '' has no API key''"

definition err_no_base_url :: "LLMProvider \<Rightarrow> string" where
  "err_no_base_url p = (''provider '' @ quote (ProvName p)) @ '' (openai) has no base_url''"

definition err_not_available :: "LLMProvider \<Rightarrow> string \<Rightarrow> string" where
  "err_not_available p e = ''provider '' @ quote (ProvName p) @ '' not available: '' @ e"

definition provider_key :: "deps \<Rightarrow> LLMProvider \<Rightarrow> string + string" where
  "provider_key d p =
     (case APIKeyEncrypted p of
        Some k \<Rightarrow>
          if k \<noteq> [] then (case decrypt d k of Inl e \<Rightarrow> Inl (err_decrypt p e) | Inr key \<Rightarrow> Inr key)
          else if RequiresAPIKey d p then Inl (err_no_key p) else Inr []
      | None \<Rightarrow> if RequiresAPIKey d p then Inl (err_no_key p) else Inr [])"

definition resolve_provider :: "deps \<Rightarrow> string + (string \<times> LLMProvider) \<Rightarrow> string + string" where
  "resolve_provider d m =
     (case m of
        Inl e \<Rightarrow> Inl (err_no_model e)
      | Inr (modelID, p) \<Rightarrow>
          (case provider_key d p of
             Inl e \<Rightarrow> Inl e
           | Inr apiKey \<Rightarrow>
               (let baseURL = (case BaseURL p of Some u \<Rightarrow> u | None \<Rightarrow> []) in
                if ProviderType p = ''openai'' \<and> baseURL = [] then Inl (err_no_base_url p)
                else if factory_builds d p apiKey baseURL then Inr modelID
                else (case registry_get d (ProvName p) of
                        None \<Rightarrow> Inr modelID
                      | Some e \<Rightarrow> Inl (err_not_available p e)))))"

definition getProvider :: "deps \<Rightarrow> (string + string) eff" where
  \<comment> \<open>on success the identifier of the model to call\<close>
  "getProvider d =
     do { m \<leftarrow> consult (site_model d);
          m \<leftarrow> (case m of Inr x \<Rightarrow> ret (Inr x) | Inl _ \<Rightarrow> consult (default_model d));
          ret (resolve_provider d m) }"

section \<open>The stages\<close>

datatype stage_outcome = Next PipelineStage | Failed string | Panicked string

definition stage_fail :: "deps \<Rightarrow> int \<Rightarrow> string \<Rightarrow> stage_outcome eff" where
  "stage_fail d logID err = do { LogStageError d logID err; ret (Failed err) }"

definition loadPlan :: "deps \<Rightarrow> (string + Plan) eff" where
  "loadPlan d =
     do { s \<leftarrow> LoadPipelineState d;
          ret (case s of
                 Inl e \<Rightarrow> Inl e
               | Inr s \<Rightarrow>
                   (case PlanJSON s of
                      None \<Rightarrow> Inl ''no plan found in pipeline state''
                    | Some j \<Rightarrow> if j = [] then Inl ''no plan found in pipeline state''
                                else ParsePlan (unmarshal_plan d) j)) }"

definition get_site :: "deps \<Rightarrow> (string + site_row) eff" where
  "get_site d =
     do { e \<leftarrow> consult (db_fault d);
          w \<leftarrow> State_Monad.get;
          ret (case e of None \<Rightarrow> Inr (site w) | Some m \<Rightarrow> Inl m) }"

definition ask_model :: "deps \<Rightarrow> string \<Rightarrow> string \<Rightarrow> string \<Rightarrow> int \<Rightarrow> loop_result eff" where
  \<comment> \<open>one call without tools, as PLAN and UPDATE_PLAN make\<close>
  "ask_model d modelID prompt userMsg maxTokens =
     runToolLoop d \<lparr>l_model = modelID, l_system = prompt, l_tools = [], l_maxTokens = maxTokens\<rparr>
       [text_message RoleUser userMsg] 1"

definition ask_and_parse ::
  "deps \<Rightarrow> (string \<Rightarrow> string + 'a) \<Rightarrow> string \<Rightarrow> string \<Rightarrow> string \<Rightarrow> string \<Rightarrow> int \<Rightarrow> string \<Rightarrow> (string + 'a \<times> int) eff" where
  \<comment> \<open>ask, parse the answer, and ask once more with the parser's error\<close>
  "ask_and_parse d parse modelID prompt userMsg notice maxTokens final =
     do { r \<leftarrow> ask_model d modelID prompt userMsg maxTokens;
          case loopErr r of
            Some e \<Rightarrow> ret (Inl e)
          | None \<Rightarrow>
              (case parse (lastContent r) of
                 Inr x \<Rightarrow> ret (Inr (x, totalTokens r))
               | Inl perr \<Rightarrow>
                   do { publishBrainMessage d notice;
                        r2 \<leftarrow> ask_model d modelID prompt
                          (''Your previous response could not be parsed. Error: '' @ perr @ [nl] @
                           ''Respond with ONLY a raw JSON object. No markdown code fences, no explanation text.'') maxTokens;
                        ret (case loopErr r2 of
                               Some e \<Rightarrow> Inl e
                             | None \<Rightarrow>
                                 (case parse (lastContent r2) of
                                    Inr x \<Rightarrow> Inr (x, totalTokens r + totalTokens r2)
                                  | Inl e \<Rightarrow> Inl (final @ e))) }) }"

definition wake_answers :: "world \<Rightarrow> string" where
  "wake_answers w = (case wakeContext w of Some c \<Rightarrow> get_str c ''answer'' | None \<Rightarrow> [])"

definition insert_question :: "PlanQuestion \<Rightarrow> int \<Rightarrow> site_db \<Rightarrow> site_db" where
  "insert_question q i b =
     b\<lparr>questions := questions b @ [\<lparr>q_id = i, q_question = Question q, q_urgency = ''normal'',
        q_status = ''pending'', q_options = Options q, q_type = (if QType q = [] then ''open'' else QType q),
        q_context = []\<rparr>]\<rparr>"

fun ask_questions :: "deps \<Rightarrow> PlanQuestion list \<Rightarrow> bool eff" where
  \<comment> \<open>false: an insert failed, its result is nil, and reading its identifier panics\<close>
  "ask_questions d [] = ret True"
| "ask_questions d (q # qs) =
     do { w \<leftarrow> State_Monad.get;
          let i = fresh_id (map q_id (questions (sdb w)));
          e \<leftarrow> ExecWrite d (insert_question q i);
          case e of
            Some _ \<Rightarrow> ret False
          | None \<Rightarrow>
              do { publish ''question.asked''
                     [(''id'', JNum (of_int i)), (''question'', JStr (Question q)),
                      (''options'', JArr (map JStr (Options q))),
                      (''type'', JStr (if QType q = [] then ''open'' else QType q))];
                   ask_questions d qs } }"

definition supersede_pending :: "site_db \<Rightarrow> site_db" where
  "supersede_pending b =
     b\<lparr>questions := map (\<lambda>q. if q_status q = ''pending'' then q\<lparr>q_status := ''superseded''\<rparr> else q) (questions b)\<rparr>"

definition nil_panic :: string where
  "nil_panic = ''runtime error: invalid memory address or nil pointer dereference''"

definition plan_user_message :: "string \<Rightarrow> string" where
  "plan_user_message ans =
     (if ans \<noteq> []
      then ''The owner answered your questions: '' @ quote ans @ [nl, nl] @ ''Now produce a complete Plan JSON.''
      else ''Analyze the site requirements and produce a complete Plan JSON.'')"

definition finish_plan :: "deps \<Rightarrow> int \<Rightarrow> Plan \<Rightarrow> int \<Rightarrow> stage_outcome eff" where
  \<comment> \<open>what \<^verbatim>\<open>runPlan\<close> does with a parsed plan\<close>
  "finish_plan d logID plan tokens =
     (if Questions plan \<noteq> []
      then do { exec_ignore d supersede_pending;
                ok \<leftarrow> ask_questions d (Questions plan);
                if \<not> ok then ret (Panicked nil_panic)
                else do { _ \<leftarrow> PausePipeline d PauseReasonOwnerAnswers;
                          LogStageComplete d logID tokens 0;
                          ret (Failed ''paused: awaiting owner answers'') } }
      else if ValidatePlan plan \<noteq> []
      then stage_fail d logID (''plan validation errors: '' @ join ''; '' (ValidatePlan plan))
      else do { exec_ignore d (on_row (\<lambda>r. r\<lparr>PlanJSON := Some (marshal_plan d plan)\<rparr>));
                exec_global d (\<lambda>s. s\<lparr>Config := ''{'' @ quote ''architecture'' @ '':'' @ [dquote] @ Architecture plan @ [dquote] @ ''}''\<rparr>);
                publishBrainMessage d (''Plan ready: '' @ AppType plan @ '' ('' @ Architecture plan @ ''), '' @
                  show_nat (length (Pages plan)) @ '' pages, '' @ show_nat (length (Endpoints plan)) @
                  '' endpoints, '' @ show_nat (length (Tables plan)) @ '' tables'');
                LogStageComplete d logID tokens 0;
                modify (\<lambda>w. w\<lparr>wakeContext := None\<rparr>);
                ret (Next StageBuild) })"

definition runPlan :: "deps \<Rightarrow> stage_outcome eff" where
  "runPlan d =
     do { logID \<leftarrow> LogStageStart d StagePlan;
          prov \<leftarrow> getProvider d;
          case prov of
            Inl e \<Rightarrow> stage_fail d logID e
          | Inr modelID \<Rightarrow>
              do { s \<leftarrow> get_site d;
                   case s of
                     Inl e \<Rightarrow> stage_fail d logID e
                   | Inr _ \<Rightarrow>
                       do { ans \<leftarrow> gets wake_answers;
                            prompt \<leftarrow> gets (\<lambda>w. prompt_for d (tick w) ''plan'' (sdb w));
                            let userMsg = plan_user_message ans;
                            saveChatMessageOnce d (text_message RoleUser userMsg);
                            r \<leftarrow> ask_and_parse d (ParsePlan (unmarshal_plan d)) modelID prompt userMsg
                                   (''Plan response wasn'' @ [CHR 0x27] @ ''t valid JSON, retrying...'') 16384
                                   ''plan JSON still invalid after retry: '';
                            case r of
                              Inl e \<Rightarrow> stage_fail d logID e
                            | Inr (plan, tokens) \<Rightarrow> finish_plan d logID plan tokens } } }"

definition build_user_message :: "string \<Rightarrow> string" where
  "build_user_message manifest =
     (if manifest \<noteq> []
      then ''Resume building. Items already built are listed above under '' @ squote ''Already Built'' @
           ''. Build only the remaining items from the plan.''
      else ''Build this site from the plan. Follow the build order in the system prompt. When everything is built, stop.'')"

definition runBuild :: "deps \<Rightarrow> stage_outcome eff" where
  "runBuild d =
     do { logID \<leftarrow> LogStageStart d StageBuild;
          prov \<leftarrow> getProvider d;
          case prov of
            Inl e \<Rightarrow> stage_fail d logID e
          | Inr modelID \<Rightarrow>
              do { p \<leftarrow> loadPlan d;
                   case p of
                     Inl e \<Rightarrow> stage_fail d logID e
                   | Inr plan \<Rightarrow>
                       do { s \<leftarrow> get_site d;
                            case s of
                              Inl _ \<Rightarrow> ret (Panicked nil_panic)
                            | Inr _ \<Rightarrow>
                                do { manifest \<leftarrow> gets (\<lambda>w. prompt_for d (tick w) ''manifest'' (sdb w));
                                     prompt \<leftarrow> gets (\<lambda>w. prompt_for d (tick w) ''build'' (sdb w));
                                     let userMsg = build_user_message manifest;
                                     publishBrainMessage d (''Building '' @ AppType plan @ '': '' @
                                       show_nat (length (Pages plan)) @ '' pages, '' @
                                       show_nat (length (Endpoints plan)) @ '' endpoints, '' @
                                       show_nat (length (Tables plan)) @ '' tables...'');
                                     r \<leftarrow> runToolLoop d \<lparr>l_model = modelID, l_system = prompt, l_tools = offered d buildToolSet,
                                            l_maxTokens = 16384\<rparr> [text_message RoleUser userMsg] 50;
                                     case loopErr r of
                                       Some e \<Rightarrow> stage_fail d logID e
                                     | None \<Rightarrow>
                                         do { publishBrainMessage d (''Build complete: '' @
                                                show_nat (totalToolCalls r) @ '' tool calls'');
                                              LogStageComplete d logID (totalTokens r) (int (totalToolCalls r));
                                              ret (Next StageComplete) } } } } }"

definition runComplete :: "deps \<Rightarrow> stage_outcome eff" where
  "runComplete d =
     do { logID \<leftarrow> LogStageStart d StageComplete;
          logBrainEvent d ''complete'' ''Site build completed'' [] 0 [];
          publishBrainMessage d ''Site build complete! Switching to monitoring mode.'';
          exec_global d (\<lambda>s. s\<lparr>Mode := ''monitoring''\<rparr>);
          publish ''brain.mode_changed'' [(''site_id'', JNum (of_int (siteID d))), (''mode'', JStr ''monitoring'')];
          LogStageComplete d logID 0 0;
          ret (Next StageMonitoring) }"

definition delete_page :: "string \<Rightarrow> site_db \<Rightarrow> site_db" where
  "delete_page path b =
     b\<lparr>pages := map (\<lambda>p. if p_path p = path \<and> \<not> p_deleted p then p\<lparr>p_deleted := True\<rparr> else p) (pages b)\<rparr>"

fun delete_pages :: "deps \<Rightarrow> PageSpec list \<Rightarrow> unit eff" where
  "delete_pages d [] = ret ()"
| "delete_pages d (m # ms) = do { exec_ignore d (delete_page (PagePath m)); delete_pages d ms }"

definition finish_patch :: "deps \<Rightarrow> int \<Rightarrow> string + Plan \<Rightarrow> PlanPatch \<Rightarrow> int \<Rightarrow> stage_outcome eff" where
  "finish_patch d logID existing patch tokens =
     (case existing of
        Inl _ \<Rightarrow> stage_fail d logID ''cannot apply patch: no existing plan found''
      | Inr plan \<Rightarrow>
          do { exec_ignore d (on_row (\<lambda>r. r\<lparr>UpdateDescription := None\<rparr>));
               delete_pages d (ModifyPages patch);
               case ApplyPatch patch plan of
                 None \<Rightarrow> ret (Panicked ''assignment to entry in nil map'')
               | Some plan' \<Rightarrow>
                   do { exec_ignore d (on_row (\<lambda>r. r\<lparr>PlanJSON := Some (marshal_plan d plan')\<rparr>));
                        LogStageComplete d logID tokens 0;
                        ret (Next StageBuild) } })"

definition update_user_message :: "string \<Rightarrow> string" where
  "update_user_message desc =
     (if desc \<noteq> []
      then ''The owner requested: '' @ desc @ [nl, nl] @ ''Create a PlanPatch JSON describing the changes needed.''
      else ''Create a PlanPatch JSON describing the changes needed.'')"

definition runUpdatePlan :: "deps \<Rightarrow> stage_outcome eff" where
  "runUpdatePlan d =
     do { logID \<leftarrow> LogStageStart d StageUpdatePlan;
          prov \<leftarrow> getProvider d;
          case prov of
            Inl e \<Rightarrow> stage_fail d logID e
          | Inr modelID \<Rightarrow>
              do { existing \<leftarrow> loadPlan d;
                   st \<leftarrow> LoadPipelineState d;
                   let desc = (case st of
                         Inr s \<Rightarrow> (case UpdateDescription s of Some x \<Rightarrow> x | None \<Rightarrow> []) | Inl _ \<Rightarrow> []);
                   prompt \<leftarrow> gets (\<lambda>w. prompt_for d (tick w) ''update_plan'' (sdb w));
                   let userMsg = update_user_message desc;
                   saveChatMessageOnce d (text_message RoleUser userMsg);
                   r \<leftarrow> ask_and_parse d (ParsePlanPatch (unmarshal_patch d)) modelID prompt userMsg
                          (''Patch response wasn'' @ [CHR 0x27] @ ''t valid JSON, retrying...'') 4096
                          ''patch JSON still invalid after retry: '';
                   case r of
                     Inl e \<Rightarrow> stage_fail d logID e
                   | Inr (patch, tokens) \<Rightarrow> finish_patch d logID existing patch tokens } }"

end
