(* ===== verification/Pipeline.thy ===== *)
theory Pipeline
  imports Stages
begin

text \<open>
  The control of a brain worker (\<^verbatim>\<open>PipelineWorker\<close> of \<^verbatim>\<open>brain/pipeline.go\<close>): the build loop with its
  retries, the paused loop, the monitoring loop and the commands, as a step relation. A state is the
  loop the goroutine is in and the world; a step is one iteration of that loop, for any command or
  timer, or the run of a chat-wake goroutine in between. The results: the worker's published state
  and the loop it is in agree, retries are bounded, the build loop ends, an intentional pause is not
  counted as a failure, and the monitoring loop is never left except to stop.
\<close>

datatype control = InBuild PipelineStage nat | InPaused | InMonitoring | Stopped | Crashed
  \<comment> \<open>\<^term>\<open>Crashed\<close>: a panic outside a stage, which nothing recovers, ends the process\<close>

section \<open>Recovery and start\<close>

definition answered_pairs :: "site_db \<Rightarrow> string list" where
  "answered_pairs b =
     concat (map (\<lambda>q. map (\<lambda>a. q_question q @ '': '' @ a_answer a)
                        (filter (\<lambda>a. a_question_id a = q_id q) (answers b)))
                 (filter (\<lambda>q. q_status q = ''answered'') (questions b)))"

definition autoRecover :: "deps \<Rightarrow> bool eff" where
  "autoRecover d =
     do { c \<leftarrow> Query d (\<lambda>b. ErrorCount (pipeline b));
          if (case c of Inr n \<Rightarrow> n | Inl _ \<Rightarrow> 0) \<ge> int maxStageRetries then ret False
          else
            do { exec_ignore d (on_row (\<lambda>r. if ErrorCount r > 0 then r\<lparr>ErrorCount := 0\<rparr> else r));
                 exec_ignore d (on_row (\<lambda>r.
                   if Paused r \<and> (case PauseReason r of None \<Rightarrow> False
                                   | Some x \<Rightarrow> x \<notin> {PauseReasonOwnerAnswers, PauseReasonApproval})
                   then r\<lparr>Paused := False, PauseReason := None\<rparr> else r));
                 s \<leftarrow> Query d (\<lambda>b. (Paused (pipeline b), PauseReason (pipeline b)));
                 (case s of
                    Inl _ \<Rightarrow> ret ()
                  | Inr (paused, reason) \<Rightarrow>
                      if paused \<and> reason = Some PauseReasonOwnerAnswers
                      then do { n \<leftarrow> Query d (\<lambda>b. length (filter (\<lambda>q. q_status q = ''pending'') (questions b)));
                                if n = Inr 0
                                then do { ps \<leftarrow> Query d answered_pairs;
                                          case ps of
                                            Inl _ \<Rightarrow> ret ()
                                          | Inr parts \<Rightarrow>
                                              do { modify (\<lambda>w. w\<lparr>wakeContext :=
                                                     Some [(''reason'', JStr ''question_answered''),
                                                           (''answer'', JStr (join [nl] parts))]\<rparr>);
                                                   _ \<leftarrow> ResumePipeline d;
                                                   ret () } }
                                else ret () }
                      else ret ());
                 ret True } }"

definition enter_build :: "deps \<Rightarrow> control eff" where
  \<comment> \<open>the start of \<^verbatim>\<open>runBuildPipeline\<close>\<close>
  "enter_build d =
     do { s \<leftarrow> LoadPipelineState d;
          case s of
            Inl e \<Rightarrow> do { publishBrainError d (''Failed to load pipeline state: '' @ e); ret Stopped }
          | Inr s \<Rightarrow>
              if Paused s
              then do { setState StatePaused;
                        publishBrainMessage d (''Pipeline paused: '' @ (case PauseReason s of Some x \<Rightarrow> x | None \<Rightarrow> []));
                        ret InPaused }
              else ret (InBuild (Stage s) 0) }"

definition Run :: "deps \<Rightarrow> control eff" where
  \<comment> \<open>up to the first loop\<close>
  "Run d =
     do { publish ''brain.started'' [(''site_id'', JNum (of_int (siteID d)))];
          s \<leftarrow> get_site d;
          case s of
            Inl _ \<Rightarrow> ret Stopped
          | Inr r \<Rightarrow>
              if Mode r = ''building''
              then do { ok \<leftarrow> autoRecover d;
                        if ok then do { setState StateBuilding; enter_build d }
                        else do { setState StatePaused; ret InPaused } }
              else if Mode r = ''monitoring'' then do { setState StateMonitoring; ret InMonitoring }
              else if Mode r = ''paused'' then do { setState StatePaused; ret InPaused }
              else do { setState StateIdle; ret InPaused } }"

section \<open>The build loop\<close>

definition run_stage :: "deps \<Rightarrow> PipelineStage \<Rightarrow> stage_outcome eff" where
  "run_stage d stage =
     (case stage of
        StagePlan \<Rightarrow> runPlan d
      | StageBuild \<Rightarrow> runBuild d
      | StageComplete \<Rightarrow> runComplete d
      | StageUpdatePlan \<Rightarrow> runUpdatePlan d
      | _ \<Rightarrow> ret (Failed (''unknown pipeline stage: '' @ stage_text stage)))"

definition stage_failed :: "deps \<Rightarrow> PipelineStage \<Rightarrow> nat \<Rightarrow> string \<Rightarrow> control eff" where
  "stage_failed d stage retries err =
     do { ps \<leftarrow> LoadPipelineState d;
          if (case ps of Inr s \<Rightarrow> Paused s | Inl _ \<Rightarrow> False)
          then do { setState StatePaused; ret InPaused }
          else if isPermanentError err
          then do { _ \<leftarrow> PausePipeline d (''permanent error in '' @ stage_text stage @ '': '' @ err);
                    publishBrainError d (''Pipeline paused: **'' @ stage_text stage @ ''** '' @ em_dash @ '' '' @ err @
                      ''. Fix the configuration and resume.'');
                    setState StatePaused;
                    ret InPaused }
          else do { _ \<leftarrow> IncrementErrorCount d err;
                    let retries = retries + 1;
                    if retries \<ge> maxStageRetries
                    then do { _ \<leftarrow> PausePipeline d (''stage '' @ stage_text stage @ '' failed '' @ show_nat retries @ '' times'');
                              publishBrainError d (''Pipeline paused: stage **'' @ stage_text stage @ ''** failed '' @
                                show_nat retries @ '' consecutive times. Last error: '' @ err);
                              setState StatePaused;
                              ret InPaused }
                    else do { publishBrainMessage d (''Stage '' @ stage_text stage @ '' failed (attempt '' @
                                show_nat retries @ ''/'' @ show_nat maxStageRetries @ ''): '' @ err @ '' '' @ em_dash @
                                '' retrying...'');
                              cancelled \<leftarrow> wait_for d (min 30 (5 * int retries));
                              ret (if cancelled then Stopped else InBuild stage retries) } } }"

definition stage_banner :: "PipelineStage \<Rightarrow> string" where
  "stage_banner stage = ''Starting stage: **'' @ stage_text stage @ ''**''"

definition panic_text :: "PipelineStage \<Rightarrow> string \<Rightarrow> string" where
  "panic_text stage msg = ''panic in stage '' @ stage_text stage @ '': '' @ msg"

definition build_iteration :: "deps \<Rightarrow> PipelineStage \<Rightarrow> nat \<Rightarrow> control eff" where
  "build_iteration d stage retries =
     do { cancelled \<leftarrow> consult (ctx_done d);
          if cancelled then ret Stopped
          else do { publishBrainMessage d (stage_banner stage);
                    if stage = StageMonitoring then do { setState StateMonitoring; ret InMonitoring }
                    else do { out \<leftarrow> run_stage d stage;
                              case out of
                                Failed err \<Rightarrow> stage_failed d stage retries err
                              | Panicked msg \<Rightarrow>
                                  stage_failed d stage retries (panic_text stage msg)
                              | Next nextStage \<Rightarrow>
                                  do { e \<leftarrow> AdvanceStage d nextStage;
                                       case e of
                                         Some _ \<Rightarrow> ret (InBuild stage retries)
                                       | None \<Rightarrow>
                                           do { publish ''brain.stage_change''
                                                  [(''prev_stage'', JStr (stage_text stage)),
                                                   (''stage'', JStr (stage_text nextStage))];
                                                ret (InBuild nextStage 0) } } } } }"

section \<open>Commands\<close>

definition executeScheduledTask :: "deps \<Rightarrow> string \<Rightarrow> int \<Rightarrow> int \<Rightarrow> unit eff" where
  "executeScheduledTask d prompt runID taskID =
     do { prov \<leftarrow> getProvider d;
          case prov of
            Inl e \<Rightarrow> finalizeTaskRun d runID taskID False (''provider error: '' @ e)
          | Inr modelID \<Rightarrow>
              do { sys \<leftarrow> gets (\<lambda>w. prompt_for d (tick w) ''scheduled_task'' (sdb w));
                   r \<leftarrow> runToolLoop d \<lparr>l_model = modelID, l_system = sys, l_tools = offered d ChatToolSet, l_maxTokens = 2048\<rparr>
                          [text_message RoleUser prompt] 20;
                   case loopErr r of
                     Some e \<Rightarrow> finalizeTaskRun d runID taskID False (''LLM error: '' @ e)
                   | None \<Rightarrow>
                       do { logBrainEvent d ''scheduled_task'' (lastContent r) prompt (totalTokens r) (lastModel r);
                            finalizeTaskRun d runID taskID True [] } } }"

definition handleChatWake :: "deps \<Rightarrow> string \<Rightarrow> bool eff" where
  \<comment> \<open>the context is done, or the semaphore is acquired; the model runs the goroutine without
     overlap. False: the prompt reads the name of a site that could not be loaded, a nil pointer\<close>
  "handleChatWake d userMessage =
     do { cancelled \<leftarrow> consult (ctx_done d);
          if cancelled then ret True
          else do { prov \<leftarrow> getProvider d;
                    case prov of
                      Inl _ \<Rightarrow> ret True
                    | Inr modelID \<Rightarrow>
                        do { st \<leftarrow> get_site d;
                             _ \<leftarrow> loadPlan d;
                             case st of
                               Inl _ \<Rightarrow> ret False
                             | Inr _ \<Rightarrow>
                                 do { sys \<leftarrow> gets (\<lambda>w. prompt_for d (tick w) ''chat_wake'' (sdb w));
                                      modify (\<lambda>w. w\<lparr>maxToolResultOverride := 8000\<rparr>);
                                      r \<leftarrow> runToolLoop d \<lparr>l_model = modelID, l_system = sys,
                                             l_tools = offered d chatWakeToolSet, l_maxTokens = 8192\<rparr>
                                             [text_message RoleUser userMessage] 10;
                                      modify (\<lambda>w. w\<lparr>maxToolResultOverride := 0\<rparr>);
                                      logBrainEvent d ''chat_wake'' ''Responded to owner chat message'' userMessage
                                        (totalTokens r) (lastModel r);
                                      ret True } } } }"

definition payload_str :: "BrainCommand \<Rightarrow> string \<Rightarrow> string option" where
  \<comment> \<open>\<^verbatim>\<open>cmd.Payload[key].(string)\<close>; reading a nil map finds nothing\<close>
  "payload_str cmd key =
     (case Payload cmd of
        Some m \<Rightarrow> (case map_of m key of Some (JStr s) \<Rightarrow> Some s | _ \<Rightarrow> None)
      | None \<Rightarrow> None)"

definition handleCommand :: "deps \<Rightarrow> BrainCommand \<Rightarrow> unit eff" where
  "handleCommand d cmd =
     (if CmdType cmd = ''wake'' then
        do { modify (\<lambda>w. w\<lparr>idleCheckCount := 0,
               wakeContext := (case Payload cmd of Some m \<Rightarrow> Some m | None \<Rightarrow> wakeContext w)\<rparr>);
             s \<leftarrow> gets state;
             if s = StatePaused then do { _ \<leftarrow> ResumePipeline d; setState StateBuilding } else ret () }
      else if CmdType cmd = ''mode_change'' then
        (case payload_str cmd ''mode'' of
           None \<Rightarrow> ret ()
         | Some mode \<Rightarrow>
             do { (if mode = ''building'' then do { setState StateBuilding; _ \<leftarrow> ResetPipeline d; ret () }
                   else if mode = ''monitoring'' then setState StateMonitoring
                   else if mode = ''paused'' then setState StatePaused
                   else ret ());
                  publish ''brain.mode_changed'' [(''site_id'', JNum (of_int (siteID d))), (''mode'', JStr mode)] })
      else if CmdType cmd = ''update'' then
        do { modify (\<lambda>w. w\<lparr>idleCheckCount := 0\<rparr>);
             setState StateBuilding;
             exec_ignore d (on_row (\<lambda>r. r\<lparr>UpdateDescription :=
               Some (case payload_str cmd ''description'' of Some s \<Rightarrow> s | None \<Rightarrow> [])\<rparr>));
             _ \<leftarrow> AdvanceStage d StageUpdatePlan;
             ret () }
      else if CmdType cmd = ''scheduled_task'' then
        (case payload_str cmd ''prompt'' of
           None \<Rightarrow> ret ()
         | Some prompt \<Rightarrow>
             (let m = (case Payload cmd of Some m \<Rightarrow> m | None \<Rightarrow> [])
              in executeScheduledTask d prompt (payloadInt64 m ''run_id'') (payloadInt64 m ''task_id'')))
      else if CmdType cmd = ''chat'' then
        do { s \<leftarrow> gets state;
             if s = StateMonitoring
             then do { modify (\<lambda>w. w\<lparr>idleCheckCount := 0\<rparr>);
                       case payload_str cmd ''message'' of
                         Some m \<Rightarrow> if m \<noteq> [] then modify (\<lambda>w. w\<lparr>chat_wakes := chat_wakes w @ [m]\<rparr>) else ret ()
                       | None \<Rightarrow> ret () }
             else ret () }
      else ret ())"

definition monitoringInterval :: "deps \<Rightarrow> world \<Rightarrow> int" where
  \<comment> \<open>seconds; the defaults are 5 and 15 minutes\<close>
  "monitoringInterval d w =
     (let base = (if MonitoringBase d > 0 then MonitoringBase d else 300);
          mx = (if MonitoringMax d > 0 then MonitoringMax d else 900)
      in if idleCheckCount w \<ge> idleThreshold then mx else base)"

definition monitoringTick :: "deps \<Rightarrow> bool eff" where
  \<comment> \<open>false as for \<^verbatim>\<open>handleChatWake\<close>\<close>
  "monitoringTick d =
     do { cancelled \<leftarrow> consult (ctx_done d);
          if cancelled then ret True
          else do { t \<leftarrow> consult (now_at d);
                    r \<leftarrow> Query d (\<lambda>b. length (filter (\<lambda>l. bl_event_type l = ''error'' \<and> bl_created_at l > t - 3600) (brain_log b)));
                    let recentErrors = (case r of Inr n \<Rightarrow> n | Inl _ \<Rightarrow> 0);
                    if recentErrors = 0
                    then do { modify (\<lambda>w. w\<lparr>idleCheckCount := idleCheckCount w + 1\<rparr>);
                              logBrainEvent d ''tick'' ''Monitoring: healthy'' [] 0 [];
                              ret True }
                    else do { modify (\<lambda>w. w\<lparr>idleCheckCount := 0\<rparr>);
                              prov \<leftarrow> getProvider d;
                              case prov of
                                Inl _ \<Rightarrow> ret True
                              | Inr modelID \<Rightarrow>
                                  do { st \<leftarrow> get_site d;
                                       _ \<leftarrow> loadPlan d;
                                       case st of
                                         Inl _ \<Rightarrow> ret False
                                       | Inr _ \<Rightarrow>
                                           do { sys \<leftarrow> gets (\<lambda>w. prompt_for d (tick w) ''monitoring'' (sdb w));
                                                res \<leftarrow> runToolLoop d \<lparr>l_model = modelID, l_system = sys,
                                                  l_tools = offered d monitoringTools, l_maxTokens = 2048\<rparr>
                                                  [text_message RoleUser (''Check site health. Issues detected:'' @ [nl] @ ''- '' @
                                                     show_nat recentErrors @ '' recent errors in the last hour'' @ [nl])] 5;
                                                logBrainEvent d ''tick'' ''Monitoring: investigated issues'' []
                                                  (totalTokens res) (lastModel res);
                                                ret True } } } } }"

definition paused_command :: "deps \<Rightarrow> BrainCommand \<Rightarrow> control eff" where
  \<comment> \<open>one command in \<^verbatim>\<open>runPausedLoop\<close>\<close>
  "paused_command d cmd =
     do { handleCommand d cmd;
          s \<leftarrow> gets state;
          if s = StateBuilding then enter_build d
          else ret (if s = StateMonitoring then InMonitoring else InPaused) }"

section \<open>The worker as a step relation\<close>

inductive wstep :: "deps \<Rightarrow> control \<times> world \<Rightarrow> control \<times> world \<Rightarrow> bool" for d where
  build: "wstep d (InBuild st r, w) (run_state (build_iteration d st r) w)"
| paused_cmd: "wstep d (InPaused, w) (run_state (paused_command d cmd) w)"
| paused_done: "wstep d (InPaused, w) (Stopped, w)"
| monitoring_cmd: "wstep d (InMonitoring, w) (InMonitoring, snd (run_state (handleCommand d cmd) w))"
| monitoring_tick: "run_state (monitoringTick d) w = (ok, w') \<Longrightarrow>
    wstep d (InMonitoring, w) (if ok then InMonitoring else Crashed, w')"
| monitoring_done: "wstep d (InMonitoring, w) (Stopped, w)"
| chat_wake: "c \<noteq> Crashed \<Longrightarrow> msg \<in> set (chat_wakes w) \<Longrightarrow>
    run_state (handleChatWake d msg) (w\<lparr>chat_wakes := remove1 msg (chat_wakes w)\<rparr>) = (ok, w') \<Longrightarrow>
    wstep d (c, w) (if ok then c else Crashed, w')"

inductive_cases wstep_monitoringE: "wstep d (InMonitoring, w) cw"
inductive_cases wstep_stoppedE: "wstep d (Stopped, w) cw"
inductive_cases wstep_buildE: "wstep d (InBuild st r, w) cw"
inductive_cases wstep_pausedE: "wstep d (InPaused, w) cw"

section \<open>Frames of the stages\<close>

definition tools_keep :: "deps \<Rightarrow> (site_db \<Rightarrow> 'b) \<Rightarrow> bool" where
  "tools_keep d v \<longleftrightarrow> (\<forall>n t a b. v (snd (execute d n t a b)) = v b)"

lemma frame_execute_tool:
  assumes "\<And>w n b. v (w\<lparr>tick := n, sdb := b\<rparr>) = u b w" "\<And>w. v w = u (sdb w) w"
    and "\<And>n t a b w. u (snd (execute d n t a b)) w = u b w"
  shows "frame v (execute_tool d name args)"
  using assms by (auto simp: frame_def execute_tool_def Let_def split: prod.splits) (metis snd_conv)

locale tool_view = tick_view v for v :: "world \<Rightarrow> 'b" +
  fixes d :: deps
  assumes frame_tool: "frame v (execute_tool d name args)"
begin

lemma frame_callWithRetry: "frame v (callWithRetry d req left attempt err)"
  by (induction left arbitrary: attempt err) (auto intro!: frame_rules view_frames simp: wait_for_def)

lemma frame_execute_call: "frame v (execute_call d tc)"
  unfolding execute_call_def by (intro frame_rules view_frames frame_tool)

lemma frame_executeToolCalls: "frame v (executeToolCalls d tcs ms)"
  by (induction tcs arbitrary: ms) (auto intro!: frame_rules frame_execute_call)

lemma frame_tool_loop: "frame v (tool_loop d sp left i ms cont res)"
  by (induction left arbitrary: i ms cont res)
    (auto intro!: frame_rules view_frames frame_callWithRetry frame_executeToolCalls)

lemma frame_runToolLoop: "frame v (runToolLoop d sp ms n)"
  unfolding runToolLoop_def by (rule frame_tool_loop)

lemma frame_getProvider: "frame v (getProvider d)"
  unfolding getProvider_def by (intro frame_rules view_frames)

lemma frame_get_site: "frame v (get_site d)"
  unfolding get_site_def by (intro frame_rules view_frames)

lemma frame_loadPlan: "frame v (loadPlan d)"
  unfolding loadPlan_def LoadPipelineState_def by (intro frame_rules view_frames)

lemma frame_ask_and_parse: "frame v (ask_and_parse d parse a b c e f g)"
  unfolding ask_and_parse_def ask_model_def by (intro frame_rules view_frames frame_runToolLoop)

lemma frame_stage_fail: "frame v (stage_fail d i e)"
  unfolding stage_fail_def by (intro frame_rules view_frames)

lemmas stage_frames = frame_rules view_frames frame_runToolLoop frame_getProvider frame_get_site
  frame_loadPlan frame_ask_and_parse frame_stage_fail

end

interpretation worker_state: tool_view state d for d
  by unfold_locales (auto simp: frame_def execute_tool_def Let_def split: prod.splits)

section \<open>The worker's state\<close>

lemmas state_stage_frames = worker_state.stage_frames state_view.frame_exec_ignore state_view.frame_ExecWrite

lemma state_ask_questions: "frame state (ask_questions d qs)"
  by (induction qs) (auto intro!: state_stage_frames)

lemma state_delete_pages: "frame state (delete_pages d ms)"
  by (induction ms) (auto intro!: state_stage_frames)

lemma state_exec_global: "frame state (exec_global d f)"
  unfolding exec_global_def by (intro state_stage_frames) simp

lemma state_finish_plan: "frame state (finish_plan d i p t)"
  unfolding finish_plan_def PausePipeline_def
  by (intro state_stage_frames state_ask_questions state_exec_global) simp_all

lemma state_runPlan: "frame state (runPlan d)"
  unfolding runPlan_def by (intro state_stage_frames state_finish_plan)

lemma state_runBuild: "frame state (runBuild d)"
  unfolding runBuild_def by (intro state_stage_frames)

lemma state_runComplete: "frame state (runComplete d)"
  unfolding runComplete_def by (intro state_stage_frames state_exec_global)

lemma state_finish_patch: "frame state (finish_patch d i e p t)"
  unfolding finish_patch_def by (intro state_stage_frames state_delete_pages) simp_all

lemma state_runUpdatePlan: "frame state (runUpdatePlan d)"
  unfolding runUpdatePlan_def LoadPipelineState_def by (intro state_stage_frames state_finish_patch)

lemma state_run_stage: "frame state (run_stage d st)"
  unfolding run_stage_def
  by (cases st) (simp_all add: state_runPlan state_runBuild state_runComplete state_runUpdatePlan frame_ret)

lemma state_handleChatWake: "frame state (handleChatWake d m)"
  unfolding handleChatWake_def by (intro state_stage_frames) simp_all

lemma state_monitoringTick: "frame state (monitoringTick d)"
  unfolding monitoringTick_def by (intro state_stage_frames) simp_all

section \<open>The worker's invariant\<close>

definition worker_ok :: "control \<times> world \<Rightarrow> bool" where
  "worker_ok cw \<longleftrightarrow>
     (case fst cw of
        InBuild st r \<Rightarrow> state (snd cw) = StateBuilding \<and> r < maxStageRetries
      | InPaused \<Rightarrow> state (snd cw) \<noteq> StateBuilding \<and> state (snd cw) \<noteq> StateMonitoring
      | _ \<Rightarrow> True)"

definition ensures :: "(world \<Rightarrow> bool) \<Rightarrow> control eff \<Rightarrow> bool" where
  \<comment> \<open>the effect ends in a loop whose invariant holds\<close>
  "ensures P m \<longleftrightarrow> (\<forall>w. P w \<longrightarrow> worker_ok (run_state m w))"

lemma ensures_ret: "(\<And>w. P w \<Longrightarrow> worker_ok (c, w)) \<Longrightarrow> ensures P (ret c)"
  by (simp add: ensures_def)

lemma ensures_bind_frame:
  "frame state m \<Longrightarrow> (\<And>a. ensures (\<lambda>w. state w = s) (f a)) \<Longrightarrow>
     ensures (\<lambda>w. state w = s) (State_Monad.bind m f)"
  unfolding ensures_def run_bind using frameD by metis

lemma ensures_bind_set:
  "ensures (\<lambda>w. state w = s) (f ()) \<Longrightarrow> ensures P (State_Monad.bind (setState s) f)"
  unfolding ensures_def run_bind by simp

lemma ensures_if: "(b \<Longrightarrow> ensures P m) \<Longrightarrow> (\<not> b \<Longrightarrow> ensures P n) \<Longrightarrow> ensures P (if b then m else n)"
  by simp

lemma ensures_option:
  "(x = None \<Longrightarrow> ensures P m) \<Longrightarrow> (\<And>a. x = Some a \<Longrightarrow> ensures P (f a)) \<Longrightarrow>
     ensures P (case x of None \<Rightarrow> m | Some a \<Rightarrow> f a)"
  by (cases x) auto

lemma ensures_sum:
  "(\<And>e. x = Inl e \<Longrightarrow> ensures P (g e)) \<Longrightarrow> (\<And>a. x = Inr a \<Longrightarrow> ensures P (f a)) \<Longrightarrow>
     ensures P (case x of Inl e \<Rightarrow> g e | Inr a \<Rightarrow> f a)"
  by (cases x) auto

lemma ensures_outcome:
  "(\<And>n. x = Next n \<Longrightarrow> ensures P (f n)) \<Longrightarrow> (\<And>e. x = Failed e \<Longrightarrow> ensures P (g e)) \<Longrightarrow>
   (\<And>e. x = Panicked e \<Longrightarrow> ensures P (h e)) \<Longrightarrow>
     ensures P (case x of Next n \<Rightarrow> f n | Failed e \<Rightarrow> g e | Panicked e \<Rightarrow> h e)"
  by (cases x) auto

lemma ensures_Let: "(\<And>a. a = x \<Longrightarrow> ensures P (f a)) \<Longrightarrow> ensures P (Let x f)"
  by simp

lemmas ensures_rules = ensures_bind_set ensures_bind_frame ensures_if ensures_option ensures_sum
  ensures_outcome ensures_Let

lemma state_row_ops:
  "frame state (LoadPipelineState d)" "frame state (PausePipeline d s)" "frame state (ResumePipeline d)"
  "frame state (ResetPipeline d)" "frame state (AdvanceStage d st)" "frame state (IncrementErrorCount d s)"
  "frame state (wait_for d n)"
  unfolding LoadPipelineState_def PausePipeline_def ResumePipeline_def ResetPipeline_def AdvanceStage_def
    IncrementErrorCount_def wait_for_def
  by (intro state_stage_frames; simp)+

lemma enter_build_ok: "ensures (\<lambda>w. state w = StateBuilding) (enter_build d)"
  unfolding enter_build_def
  by (intro ensures_rules state_row_ops state_stage_frames ensures_ret)
    (auto simp: worker_ok_def maxStageRetries_def)

lemma stage_failed_ok: "ensures (\<lambda>w. state w = StateBuilding) (stage_failed d st r err)"
  unfolding stage_failed_def
  by (intro ensures_rules state_row_ops state_stage_frames ensures_ret)
    (auto simp: worker_ok_def maxStageRetries_def)

lemma build_iteration_ok: "r < maxStageRetries \<Longrightarrow> ensures (\<lambda>w. state w = StateBuilding) (build_iteration d st r)"
  unfolding build_iteration_def
  by (intro ensures_rules state_row_ops state_stage_frames state_run_stage stage_failed_ok ensures_ret)
    (auto simp: worker_ok_def maxStageRetries_def)

lemma paused_command_ok: "worker_ok (run_state (paused_command d cmd) w)"
proof -
  define w1 where "w1 = snd (run_state (handleCommand d cmd) w)"
  have "run_state (paused_command d cmd) w =
      (if state w1 = StateBuilding then run_state (enter_build d) w1
       else (if state w1 = StateMonitoring then InMonitoring else InPaused, w1))"
    by (simp add: paused_command_def w1_def run_bind)
  with enter_build_ok [of d] show ?thesis by (auto simp: ensures_def worker_ok_def)
qed

lemma wstep_ok: "wstep d cw cw' \<Longrightarrow> worker_ok cw \<Longrightarrow> worker_ok cw'"
proof (induction rule: wstep.induct)
  case (build st r w)
  then show ?case using build_iteration_ok [of r d st] by (simp add: ensures_def worker_ok_def)
next
  case (paused_cmd w cmd)
  show ?case by (rule paused_command_ok)
next
  case (chat_wake c msg w ok w')
  have "state w' = state w"
    using frameD [OF state_handleChatWake, of d msg "w\<lparr>chat_wakes := remove1 msg (chat_wakes w)\<rparr>"] chat_wake by simp
  with chat_wake show ?case by (auto simp: worker_ok_def split: control.splits)
qed (auto simp: worker_ok_def)

interpretation worker: step_invariant "wstep d" worker_ok for d
  by unfold_locales (rule wstep_ok)

lemma state_autoRecover: "frame state (autoRecover d)"
  unfolding autoRecover_def by (intro state_stage_frames state_row_ops; simp)

lemma Run_ok: "worker_ok (run_state (Run d) w)"
proof -
  have "ensures (\<lambda>w'. state w' = state w) (Run d)"
    unfolding Run_def
    by (intro ensures_rules state_row_ops state_stage_frames state_autoRecover enter_build_ok ensures_ret)
      (auto simp: worker_ok_def)
  then show ?thesis by (simp add: ensures_def)
qed


section \<open>The monitoring loop is never left\<close>

definition past_build :: "control \<times> world \<Rightarrow> bool" where
  "past_build cw \<longleftrightarrow> fst cw \<in> {InMonitoring, Stopped, Crashed}"

lemma wstep_past_build: "wstep d cw cw' \<Longrightarrow> past_build cw \<Longrightarrow> past_build cw'"
  by (induction rule: wstep.induct) (auto simp: past_build_def)

interpretation past: step_invariant "wstep d" past_build for d
  by unfold_locales (rule wstep_past_build)

lemma run_mode_building:
  assumes "db_fault d (tick w) = None" "CmdType cmd = ''mode_change''" "payload_str cmd ''mode'' = Some ''building''"
  shows "state (snd (run_state (handleCommand d cmd) w)) = StateBuilding \<and>
    Stage (row (snd (run_state (handleCommand d cmd) w))) = StagePlan"
  using assms by (simp add: handleCommand_def run_simps ResetPipeline_def on_row_def)

text \<open>
  C8. The command that asks a monitoring worker for a rebuild resets the pipeline to PLAN and publishes
  the state \<^verbatim>\<open>building\<close>, but the worker stays in the monitoring loop: no later step leads to a build.
\<close>
theorem rebuild_request_ignored:
  assumes "db_fault d (tick w) = None" "CmdType cmd = ''mode_change''" "payload_str cmd ''mode'' = Some ''building''"
  shows "\<exists>w'. wstep d (InMonitoring, w) (InMonitoring, w') \<and> state w' = StateBuilding \<and> Stage (row w') = StagePlan \<and>
    (\<forall>c w''. reaches (wstep d) (InMonitoring, w') (c, w'') \<longrightarrow> c \<in> {InMonitoring, Stopped, Crashed})"
proof -
  define w' where "w' = snd (run_state (handleCommand d cmd) w)"
  have "wstep d (InMonitoring, w) (InMonitoring, w')" unfolding w'_def by (rule wstep.monitoring_cmd)
  moreover have "state w' = StateBuilding \<and> Stage (row w') = StagePlan"
    unfolding w'_def by (rule run_mode_building [OF assms])
  moreover have "c \<in> {InMonitoring, Stopped, Crashed}" if "reaches (wstep d) (InMonitoring, w') (c, w'')" for c w''
    using past.reaches_inv [OF that] by (simp add: past_build_def)
  ultimately show ?thesis by blast
qed

section \<open>The build loop ends\<close>

definition yields :: "'a set \<Rightarrow> 'a eff \<Rightarrow> bool" where
  "yields A m \<longleftrightarrow> (\<forall>w. fst (run_state m w) \<in> A)"

lemma yields_ret: "a \<in> A \<Longrightarrow> yields A (ret a)"
  by (simp add: yields_def)

lemma yields_bind: "(\<And>a. yields A (f a)) \<Longrightarrow> yields A (State_Monad.bind m f)"
  by (simp add: yields_def run_bind)

lemma yields_if: "(b \<Longrightarrow> yields A m) \<Longrightarrow> (\<not> b \<Longrightarrow> yields A n) \<Longrightarrow> yields A (if b then m else n)"
  by simp

lemma yields_option:
  "(x = None \<Longrightarrow> yields A m) \<Longrightarrow> (\<And>a. x = Some a \<Longrightarrow> yields A (f a)) \<Longrightarrow>
     yields A (case x of None \<Rightarrow> m | Some a \<Rightarrow> f a)"
  by (cases x) auto

lemma yields_sum:
  "(\<And>e. x = Inl e \<Longrightarrow> yields A (g e)) \<Longrightarrow> (\<And>a. x = Inr a \<Longrightarrow> yields A (f a)) \<Longrightarrow>
     yields A (case x of Inl e \<Rightarrow> g e | Inr a \<Rightarrow> f a)"
  by (cases x) auto

lemma yields_prod: "(\<And>a b. x = (a, b) \<Longrightarrow> yields A (f a b)) \<Longrightarrow> yields A (case x of (a, b) \<Rightarrow> f a b)"
  by (cases x) auto

lemma yields_Let: "(\<And>a. a = x \<Longrightarrow> yields A (f a)) \<Longrightarrow> yields A (Let x f)"
  by simp

lemmas yields_rules = yields_bind yields_if yields_option yields_sum yields_prod yields_Let yields_ret

definition successors :: "PipelineStage \<Rightarrow> PipelineStage set" where
  "successors st =
     (case st of StagePlan \<Rightarrow> {StageBuild} | StageUpdatePlan \<Rightarrow> {StageBuild} | StageBuild \<Rightarrow> {StageComplete}
      | StageComplete \<Rightarrow> {StageMonitoring} | _ \<Rightarrow> {})"

lemma run_stage_yields: "yields (Next ` successors st \<union> range Failed \<union> range Panicked) (run_stage d st)"
  unfolding run_stage_def runPlan_def runBuild_def runComplete_def runUpdatePlan_def finish_plan_def
    finish_patch_def stage_fail_def successors_def
  by (cases st) (simp_all only: PipelineStage.case, (intro yields_rules; simp)+)

text \<open>
  C6. A stage that succeeds hands over to the next one in the order PLAN or UPDATE\_PLAN, BUILD,
  COMPLETE, MONITORING: no stage is skipped or repeated.
\<close>
theorem stage_order: "fst (run_state (run_stage d st) w) = Next nxt \<Longrightarrow> nxt \<in> successors st"
proof -
  assume "fst (run_state (run_stage d st) w) = Next nxt"
  moreover have "fst (run_state (run_stage d st) w) \<in> Next ` successors st \<union> range Failed \<union> range Panicked"
    using run_stage_yields by (simp add: yields_def)
  ultimately show ?thesis by auto
qed

definition no_faults :: "deps \<Rightarrow> bool" where
  "no_faults d \<longleftrightarrow> db_fault d = (\<lambda>_. None)"

fun build_run :: "deps \<Rightarrow> nat \<Rightarrow> control \<times> world \<Rightarrow> control \<times> world" where
  \<comment> \<open>at most the given number of iterations of the build loop\<close>
  "build_run d 0 cw = cw"
| "build_run d (Suc n) cw =
     (case cw of (InBuild st r, w) \<Rightarrow> build_run d n (run_state (build_iteration d st r) w) | _ \<Rightarrow> cw)"

definition in_build :: "control \<Rightarrow> bool" where
  "in_build c \<longleftrightarrow> (case c of InBuild _ _ \<Rightarrow> True | _ \<Rightarrow> False)"

definition stage_rank :: "PipelineStage \<Rightarrow> nat" where
  "stage_rank st = (case st of StageMonitoring \<Rightarrow> 0 | StageComplete \<Rightarrow> 1 | StageBuild \<Rightarrow> 2 | _ \<Rightarrow> 3)"

definition build_measure :: "control \<Rightarrow> nat" where
  "build_measure c = (case c of InBuild st r \<Rightarrow> 3 * stage_rank st + (3 - r) | _ \<Rightarrow> 0)"

lemma stage_failed_yields:
  "yields ({InPaused, Stopped} \<union> {c. c = InBuild st (r + 1) \<and> r + 1 < maxStageRetries}) (stage_failed d st r err)"
  unfolding stage_failed_def by (intro yields_rules; simp)

lemma run_AdvanceStage:
  "no_faults d \<Longrightarrow> run_state (AdvanceStage d st) w =
     (None, w\<lparr>tick := Suc (tick w), sdb := on_row (\<lambda>r. r\<lparr>Stage := st, ErrorCount := 0\<rparr>) (sdb w)\<rparr>)"
  by (simp add: AdvanceStage_def run_ExecWrite no_faults_def)

lemma build_iteration_result:
  assumes "no_faults d"
  shows "fst (run_state (build_iteration d st r) w) \<in>
    {InPaused, Stopped, InMonitoring} \<union> {c. c = InBuild st (r + 1) \<and> r + 1 < maxStageRetries} \<union>
    (\<lambda>n. InBuild n 0) ` successors st"
proof -
  have failed: "fst (run_state (stage_failed d st r err) w) \<in>
      {InPaused, Stopped} \<union> {c. c = InBuild st (r + 1) \<and> r + 1 < maxStageRetries}" for err w
    using stage_failed_yields by (simp add: yields_def)
  show ?thesis
  proof (cases "ctx_done d (tick w) \<or> st = StageMonitoring")
    case True
    then show ?thesis by (auto simp: build_iteration_def run_bind)
  next
    case False
    define w1 where "w1 = snd (run_state (publishBrainMessage d (stage_banner st)) (w\<lparr>tick := Suc (tick w)\<rparr>))"
    obtain out w2 where out: "run_state (run_stage d st) w1 = (out, w2)" by (cases "run_state (run_stage d st) w1")
    show ?thesis
    proof (cases out)
      case (Next n)
      then have "n \<in> successors st" using stage_order [of d st w1 n] out by simp
      with Next False out assms show ?thesis
        by (simp add: build_iteration_def run_bind w1_def [symmetric] run_AdvanceStage)
    next
      case (Failed e)
      with False out failed [of e w2] show ?thesis
        by (auto simp: build_iteration_def run_bind w1_def [symmetric])
    next
      case (Panicked e)
      with False out failed [of "panic_text st e" w2] show ?thesis
        by (auto simp: build_iteration_def run_bind w1_def [symmetric])
    qed
  qed
qed

lemma build_iteration_decreases:
  assumes "no_faults d" "r < maxStageRetries" "fst (run_state (build_iteration d st r) w) = InBuild st' r'"
  shows "r' < maxStageRetries \<and> build_measure (InBuild st' r') < build_measure (InBuild st r)"
  using build_iteration_result [OF assms(1), of st r w] assms(2,3)
  by (auto simp: build_measure_def maxStageRetries_def successors_def stage_rank_def split: PipelineStage.splits)

lemma build_run_ends:
  "no_faults d \<Longrightarrow> r < maxStageRetries \<Longrightarrow> build_measure (InBuild st r) < n \<Longrightarrow>
     \<not> in_build (fst (build_run d n (InBuild st r, w)))"
proof (induction n arbitrary: st r w)
  case (Suc n)
  obtain c w' where cw: "run_state (build_iteration d st r) w = (c, w')"
    by (cases "run_state (build_iteration d st r) w")
  show ?case
  proof (cases c)
    case (InBuild st' r')
    with build_iteration_decreases [of d r st w st' r'] Suc cw show ?thesis by auto
  qed (cases n; simp add: cw in_build_def)+
qed simp

text \<open>
  C5. While the database accepts writes, a build ends: whatever stage it starts from and whatever the
  language model answers, after at most thirteen iterations the worker has left the build loop.
\<close>
theorem build_terminates:
  assumes "no_faults d"
  shows "\<not> in_build (fst (build_run d 13 (InBuild st 0, w)))"
  by (rule build_run_ends [OF assms])
    (auto simp: maxStageRetries_def build_measure_def stage_rank_def split: PipelineStage.splits)

text \<open>
  When the write that advances the stage keeps failing, the COMPLETE stage is executed again and
  again: neither the retry counter nor a pause ends the loop.
\<close>
theorem advance_failure_loops:
  assumes "\<And>n. db_fault d n \<noteq> None" "\<And>n. \<not> ctx_done d n"
  shows "fst (build_run d n (InBuild StageComplete r, w)) = InBuild StageComplete r"
proof (induction n arbitrary: w)
  case (Suc n)
  have "fst (run_state (build_iteration d StageComplete r) w) = InBuild StageComplete r"
    using assms by (auto simp: build_iteration_def run_stage_def runComplete_def AdvanceStage_def run_simps
        split: option.splits)
  then obtain w' where "run_state (build_iteration d StageComplete r) w = (InBuild StageComplete r, w')"
    by (cases "run_state (build_iteration d StageComplete r) w") simp
  with Suc show ?case by simp
qed simp

section \<open>Failures\<close>

lemma run_LoadPipelineState:
  "no_faults d \<Longrightarrow> run_state (LoadPipelineState d) w = (Inr (row w), w\<lparr>tick := Suc (tick w)\<rparr>)"
  by (simp add: LoadPipelineState_def run_simps no_faults_def)

lemma run_PausePipeline:
  "no_faults d \<Longrightarrow> run_state (PausePipeline d s) w =
     (None, w\<lparr>tick := Suc (tick w), sdb := on_row (\<lambda>r. r\<lparr>Paused := True, PauseReason := Some s\<rparr>) (sdb w)\<rparr>)"
  by (simp add: PausePipeline_def run_ExecWrite no_faults_def)

lemma run_IncrementErrorCount:
  "no_faults d \<Longrightarrow> snd (run_state (IncrementErrorCount d msg) w) =
     w\<lparr>tick := Suc (Suc (tick w)),
       sdb := on_row (\<lambda>r. r\<lparr>ErrorCount := ErrorCount r + 1, LastError := Some msg\<rparr>) (sdb w)\<rparr>"
  by (simp add: IncrementErrorCount_def run_simps no_faults_def)

lemmas row_messages =
  frameD [OF row_view.frame_publishBrainMessage] frameD [OF row_view.frame_publishBrainError]

definition last_try_reason :: "PipelineStage \<Rightarrow> string" where
  "last_try_reason st = ''stage '' @ stage_text st @ '' failed '' @ show_nat maxStageRetries @ '' times''"

definition permanent_reason :: "PipelineStage \<Rightarrow> string \<Rightarrow> string" where
  "permanent_reason st err = ''permanent error in '' @ stage_text st @ '': '' @ err"

text \<open>
  C7. How the worker answers a failed stage, when the database accepts writes. A pause the stage itself
  requested is kept and not counted; a configuration error pauses at once and is not counted; any
  other error is counted and recorded, the stage is tried again, and the third failure pauses.
\<close>
theorem stage_failure_handling:
  assumes "no_faults d" "run_state (stage_failed d st r err) w = (c, w')"
  shows "if Paused (row w) then c = InPaused \<and> row w' = row w
    else if isPermanentError err
    then c = InPaused \<and> row w' = (row w)\<lparr>Paused := True, PauseReason := Some (permanent_reason st err)\<rparr>
    else if r + 1 = maxStageRetries
    then c = InPaused \<and> row w' = (row w)\<lparr>ErrorCount := ErrorCount (row w) + 1, LastError := Some err,
           Paused := True, PauseReason := Some (last_try_reason st)\<rparr>
    else r + 1 < maxStageRetries \<longrightarrow>
         c \<in> {Stopped, InBuild st (r + 1)} \<and>
         row w' = (row w)\<lparr>ErrorCount := ErrorCount (row w) + 1, LastError := Some err\<rparr>"
proof -
  have cw: "c = fst (run_state (stage_failed d st r err) w)" "w' = snd (run_state (stage_failed d st r err) w)"
    using assms(2) by simp_all
  note simps = stage_failed_def run_bind run_LoadPipelineState [OF assms(1)] run_PausePipeline [OF assms(1)]
    run_IncrementErrorCount [OF assms(1)] row_messages on_row_def wait_for_def
  consider "Paused (row w)" | "\<not> Paused (row w)" "isPermanentError err"
    | "\<not> Paused (row w)" "\<not> isPermanentError err" by blast
  then show ?thesis
  proof cases
    case 1
    then show ?thesis unfolding cw by (simp add: simps)
  next
    case 2
    then show ?thesis unfolding cw permanent_reason_def by (simp add: simps)
  next
    case 3
    then show ?thesis unfolding cw last_try_reason_def
      by (cases "r + 1 < maxStageRetries") (auto simp: simps Let_def)
  qed
qed

section \<open>What the PLAN stage leaves behind\<close>

lemma row_exec_global: "frame row (exec_global d f)"
  unfolding exec_global_def by (intro row_frames) simp

lemma finish_plan_saves:
  assumes "no_faults d" "run_state (finish_plan d i plan t) w = (Next n, w')"
  shows "n = StageBuild \<and> ValidatePlan plan = [] \<and> Questions plan = [] \<and>
    PlanJSON (row w') = Some (marshal_plan d plan)"
proof (cases "Questions plan \<noteq> [] \<or> ValidatePlan plan \<noteq> []")
  case True
  have "yields (range Failed \<union> range Panicked) (finish_plan d i plan t)"
    unfolding finish_plan_def stage_fail_def using True by (intro yields_rules; simp)
  then have "fst (run_state (finish_plan d i plan t) w) \<in> range Failed \<union> range Panicked"
    by (simp add: yields_def)
  with assms(2) show ?thesis by auto
next
  case False
  define msg where "msg = ''Plan ready: '' @ AppType plan @ '' ('' @ Architecture plan @ ''), '' @
    show_nat (length (Pages plan)) @ '' pages, '' @ show_nat (length (Endpoints plan)) @
    '' endpoints, '' @ show_nat (length (Tables plan)) @ '' tables''"
  have "PlanJSON (row (snd (run_state (finish_plan d i plan t) w))) = Some (marshal_plan d plan) \<and>
      fst (run_state (finish_plan d i plan t) w) = Next StageBuild"
    using False assms(1) unfolding finish_plan_def msg_def [symmetric]
    by (simp add: run_bind run_exec_ignore no_faults_def on_row_def row_messages
        frameD [OF row_view.frame_LogStageComplete] frameD [OF row_exec_global])
  with False assms(2) show ?thesis by simp
qed

lemma hoare_bind_any:
  "(\<And>a. hoare (\<lambda>_. True) (f a) Q) \<Longrightarrow> hoare P (State_Monad.bind m f) Q"
  by (simp add: hoare_def run_bind)

lemma hoare_ret: "(\<And>w. Q a w) \<Longrightarrow> hoare P (ret a) Q"
  by (simp add: hoare_def)

lemma hoare_sum:
  "(\<And>e. x = Inl e \<Longrightarrow> hoare P (g e) Q) \<Longrightarrow> (\<And>a. x = Inr a \<Longrightarrow> hoare P (f a) Q) \<Longrightarrow>
     hoare P (case x of Inl e \<Rightarrow> g e | Inr a \<Rightarrow> f a) Q"
  by (cases x) auto

lemma hoare_prod: "(\<And>a b. x = (a, b) \<Longrightarrow> hoare P (f a b) Q) \<Longrightarrow> hoare P (case x of (a, b) \<Rightarrow> f a b) Q"
  by (cases x) auto

lemma hoare_Let: "(\<And>a. hoare P (f a) Q) \<Longrightarrow> hoare P (Let x f) Q"
  by simp

text \<open>
  When the PLAN stage succeeds, the plan stored for the BUILD stage is one that the validator
  accepts and that asks no questions.
\<close>
theorem runPlan_saves_valid:
  assumes "no_faults d" "run_state (runPlan d) w = (Next n, w')"
  shows "n = StageBuild \<and> (\<exists>plan. plan_ok plan \<and> Questions plan = [] \<and> PlanJSON (row w') = Some (marshal_plan d plan))"
proof -
  let ?Q = "\<lambda>out w'. \<forall>n. out = Next n \<longrightarrow> n = StageBuild \<and>
    (\<exists>plan. plan_ok plan \<and> Questions plan = [] \<and> PlanJSON (row w') = Some (marshal_plan d plan))"
  have fail: "hoare (\<lambda>_. True) (stage_fail d i e) ?Q" for i e
    by (auto simp: hoare_def stage_fail_def run_bind)
  have finish: "hoare (\<lambda>_. True) (finish_plan d i plan t) ?Q" for i plan t
    unfolding hoare_def
  proof (intro allI impI)
    fix w n
    assume "fst (run_state (finish_plan d i plan t) w) = Next n"
    then have "run_state (finish_plan d i plan t) w = (Next n, snd (run_state (finish_plan d i plan t) w))"
      by (metis prod.collapse)
    from finish_plan_saves [OF assms(1) this]
    show "n = StageBuild \<and> (\<exists>plan'. plan_ok plan' \<and> Questions plan' = [] \<and>
        PlanJSON (row (snd (run_state (finish_plan d i plan t) w))) = Some (marshal_plan d plan'))"
      by (auto simp: ValidatePlan_nil)
  qed
  have "hoare (\<lambda>_. True) (runPlan d) ?Q"
    unfolding runPlan_def
    by (intro hoare_bind_any hoare_sum hoare_Let hoare_prod fail finish)
  then have "?Q (fst (run_state (runPlan d) w)) (snd (run_state (runPlan d) w))" by (simp add: hoare_def)
  with assms(2) show ?thesis by simp
qed

definition asked :: "question_row \<Rightarrow> string \<times> string list" where
  "asked q = (q_question q, q_options q)"

lemma ask_questions_run:
  assumes "no_faults d"
  shows "\<exists>qs' w'. run_state (ask_questions d qs) w = (True, w') \<and> row w' = row w \<and>
    questions (sdb w') = questions (sdb w) @ qs' \<and> list_all (\<lambda>q. q_status q = ''pending'') qs' \<and>
    map asked qs' = map (\<lambda>q. (Question q, Options q)) qs"
proof (induction qs arbitrary: w)
  case (Cons q qs)
  define i where "i = fresh_id (map q_id (questions (sdb w)))"
  define w1 where "w1 = w\<lparr>tick := Suc (tick w), sdb := insert_question q i (sdb w),
    published := published w @ [\<lparr>EvType = ''question.asked'', EvPayload =
       [(''id'', JNum (of_int i)), (''question'', JStr (Question q)),
        (''options'', JArr (map JStr (Options q))),
        (''type'', JStr (if QType q = [] then ''open'' else QType q))]\<rparr>]\<rparr>"
  from Cons.IH [of w1] obtain qs' w' where IH: "run_state (ask_questions d qs) w1 = (True, w')" "row w' = row w1"
    "questions (sdb w') = questions (sdb w1) @ qs'" "list_all (\<lambda>q. q_status q = ''pending'') qs'"
    "map asked qs' = map (\<lambda>q. (Question q, Options q)) qs" by blast
  have "run_state (ask_questions d (q # qs)) w = run_state (ask_questions d qs) w1"
    using assms by (simp add: run_simps no_faults_def w1_def i_def Let_def)
  moreover have "row w1 = row w" by (simp add: w1_def insert_question_def)
  moreover obtain r where "questions (sdb w1) = questions (sdb w) @ [r]" "q_status r = ''pending''"
    "asked r = (Question q, Options q)"
    by (simp add: w1_def insert_question_def asked_def)
  ultimately show ?case using IH by (intro exI [of _ "r # qs'"] exI [of _ w']) auto
qed auto

lemma superseded: "filter (\<lambda>q. q_status q = ''pending'') (questions (supersede_pending b)) = []"
  by (auto simp: supersede_pending_def filter_empty_conv)

text \<open>
  A plan with questions pauses the pipeline: the outcome is the intentional pause, the row is paused
  for the owner's answers with its error count and stage untouched, and the pending questions are
  exactly the plan's, in order; older pending ones are superseded.
\<close>
theorem questions_pause:
  assumes "no_faults d" "Questions plan \<noteq> []" "run_state (finish_plan d i plan t) w = (out, w')"
  shows "out = Failed ''paused: awaiting owner answers'' \<and>
    row w' = (row w)\<lparr>Paused := True, PauseReason := Some PauseReasonOwnerAnswers\<rparr> \<and>
    map asked (filter (\<lambda>q. q_status q = ''pending'') (questions (sdb w'))) = map (\<lambda>q. (Question q, Options q)) (Questions plan)"
proof -
  define w1 where "w1 = snd (run_state (exec_ignore d supersede_pending) w)"
  have w1: "row w1 = row w" "filter (\<lambda>q. q_status q = ''pending'') (questions (sdb w1)) = []"
    using assms(1) superseded by (simp_all add: w1_def run_exec_ignore no_faults_def supersede_pending_def)
  from ask_questions_run [OF assms(1), of "Questions plan" w1] obtain qs' w2
    where w2: "run_state (ask_questions d (Questions plan)) w1 = (True, w2)" "row w2 = row w1"
      "questions (sdb w2) = questions (sdb w1) @ qs'" "list_all (\<lambda>q. q_status q = ''pending'') qs'"
      "map asked qs' = map (\<lambda>q. (Question q, Options q)) (Questions plan)" by blast
  have run: "run_state (finish_plan d i plan t) w =
      (Failed ''paused: awaiting owner answers'', snd (run_state (LogStageComplete d i t 0)
         (snd (run_state (PausePipeline d PauseReasonOwnerAnswers) w2))))"
    using assms(2) w2(1) by (simp add: finish_plan_def run_bind w1_def [symmetric])
  have "questions (sdb w') = questions (sdb w2)"
    using assms(3) run frameD [OF questions_view.frame_LogStageComplete]
    by (auto simp: run_PausePipeline [OF assms(1)] on_row_def)
  moreover have "row w' = (row w2)\<lparr>Paused := True, PauseReason := Some PauseReasonOwnerAnswers\<rparr>"
    using assms(3) run frameD [OF row_view.frame_LogStageComplete]
    by (auto simp: run_PausePipeline [OF assms(1)] on_row_def)
  moreover have "filter (\<lambda>q. q_status q = ''pending'') qs' = qs'"
    using w2(4) by (simp add: list_all_iff)
  ultimately show ?thesis using run assms(3) w1 w2 by simp
qed

end
