(* ===== verification/Recovery.thy ===== *)
theory Recovery
  imports Pipeline
begin

text \<open>
  More of what a brain worker guarantees: recovery after a restart, pauses and updates, the pairing of
  tool calls with their results, the classification of configuration errors, the text of a stored
  plan; and a concrete environment in which the hypotheses of the pipeline's theorems hold.
\<close>

section \<open>A concrete environment\<close>

definition test_provider :: LLMProvider where
  "test_provider = \<lparr>ProvName = ''test'', ProviderType = ''anthropic'', APIKeyEncrypted = None, BaseURL = None,
     ProvConfig = []\<rparr>"

definition quiet_deps :: deps where
  \<comment> \<open>every statement succeeds, nothing is cancelled, the site has a provider but no key for it\<close>
  "quiet_deps = \<lparr>siteID = 1, db_fault = (\<lambda>_. None), ctx_done = (\<lambda>_. False), now_at = (\<lambda>n. int n),
     complete = (\<lambda>_ _. Inl ''API error 500''), execute = (\<lambda>_ _ _ b. (Inr ''ok'', b)), has_tool = (\<lambda>_. True),
     max_result = (\<lambda>_. None), summarize = (\<lambda>_ s. s), json_object = (\<lambda>_. Inr []), json_raw_array = (\<lambda>_. None),
     json_value = (\<lambda>_. None), unmarshal_plan = (\<lambda>_. Inr small_plan), unmarshal_patch = (\<lambda>_. Inr small_patch),
     marshal_plan = (\<lambda>_. ''{}''), site_model = (\<lambda>_. Inr (''m'', test_provider)),
     default_model = (\<lambda>_. Inl ''none''), decrypt = Inr, factory_builds = (\<lambda>_ _ _. True),
     registry_get = (\<lambda>_. None), prompt_for = (\<lambda>_ _ _. []), MonitoringBase = 0, MonitoringMax = 0\<rparr>"

definition fresh_row :: PipelineState where
  "fresh_row = \<lparr>Stage = StagePlan, PlanJSON = None, ToolCallsCompleted = 0, ErrorCount = 0, LastError = None,
     Paused = False, PauseReason = None, UpdateDescription = None\<rparr>"

definition fresh_world :: world where
  "fresh_world = \<lparr>tick = 0,
     sdb = \<lparr>pipeline = fresh_row, questions = [], answers = [], stage_log = [], chat_messages = [], brain_log = [],
            task_runs = [], scheduled_tasks = [], pages = []\<rparr>,
     site = \<lparr>Mode = ''building'', Config = []\<rparr>, published = [], state = StateIdle, idleCheckCount = 0,
     wakeContext = None, maxToolResultOverride = 0, chat_wakes = []\<rparr>"

lemma quiet_no_faults: "no_faults quiet_deps"
  by (simp add: no_faults_def quiet_deps_def)


definition rebuild_cmd :: BrainCommand where
  "rebuild_cmd = \<lparr>CmdType = ''mode_change'', Payload = Some [(''mode'', JStr ''building'')]\<rparr>"

theorem rebuild_request_ignored_witness:
  "\<exists>w'. wstep quiet_deps (InMonitoring, fresh_world) (InMonitoring, w') \<and> state w' = StateBuilding \<and>
     \<not> reaches (wstep quiet_deps) (InMonitoring, w') (InBuild StagePlan 0, w')"
  using rebuild_request_ignored [of quiet_deps fresh_world rebuild_cmd]
  by (fastforce simp: quiet_deps_def rebuild_cmd_def payload_str_def)

theorem stage_order_witness:
  "fst (run_state (run_stage quiet_deps StageComplete) fresh_world) = Next StageMonitoring \<and>
   StageMonitoring \<in> successors StageComplete"
proof -
  have "fst (run_state (run_stage quiet_deps StageComplete) fresh_world) = Next StageMonitoring"
    by (simp add: run_stage_def runComplete_def run_bind)
  with stage_order [OF this] show ?thesis by simp
qed

theorem build_terminates_witness:
  "\<not> in_build (fst (build_run quiet_deps 13 (InBuild StageUpdatePlan 0, fresh_world)))"
  by (rule build_terminates [OF quiet_no_faults])

theorem advance_failure_loops_witness:
  "fst (build_run (quiet_deps\<lparr>db_fault := (\<lambda>_. Some ''disk full'')\<rparr>) 1000 (InBuild StageComplete 0, fresh_world)) =
     InBuild StageComplete 0"
  by (rule advance_failure_loops) (simp_all add: quiet_deps_def)

theorem stage_failure_handling_witness:
  "\<exists>c w'. run_state (stage_failed quiet_deps StageBuild 2 ''boom'') fresh_world = (c, w') \<and>
     c = InPaused \<and> PauseReason (row w') = Some (last_try_reason StageBuild)"
proof -
  obtain c w' where cw: "run_state (stage_failed quiet_deps StageBuild 2 ''boom'') fresh_world = (c, w')"
    by (cases "run_state (stage_failed quiet_deps StageBuild 2 ''boom'') fresh_world")
  have "\<not> isPermanentError ''boom''" by code_simp
  with stage_failure_handling [OF quiet_no_faults cw] cw show ?thesis
    by (simp add: fresh_world_def fresh_row_def maxStageRetries_def)
qed

definition asking_plan :: Plan where
  "asking_plan = small_plan\<lparr>Questions := [\<lparr>Question = ''Which colours?'', QType = ''open'', Options = []\<rparr>]\<rparr>"

theorem questions_pause_witness:
  "\<exists>out w'. run_state (finish_plan quiet_deps 1 asking_plan 0) fresh_world = (out, w') \<and>
     Paused (row w') \<and> ErrorCount (row w') = 0 \<and>
     map asked (filter (\<lambda>q. q_status q = ''pending'') (questions (sdb w'))) = [(''Which colours?'', [])]"
proof -
  obtain out w' where r: "run_state (finish_plan quiet_deps 1 asking_plan 0) fresh_world = (out, w')"
    by (cases "run_state (finish_plan quiet_deps 1 asking_plan 0) fresh_world")
  have "Questions asking_plan \<noteq> []" by (simp add: asking_plan_def)
  from questions_pause [OF quiet_no_faults this r] r show ?thesis
    by (simp add: fresh_world_def fresh_row_def asking_plan_def)
qed

section \<open>Recovery after a restart\<close>

definition pending :: "site_db \<Rightarrow> question_row list" where
  "pending b = filter (\<lambda>q. q_status q = ''pending'') (questions b)"

definition stays_paused :: "site_db \<Rightarrow> bool" where
  "stays_paused b \<longleftrightarrow> Paused (pipeline b) \<and>
     (PauseReason (pipeline b) = None \<or> PauseReason (pipeline b) = Some PauseReasonApproval \<or>
      PauseReason (pipeline b) = Some PauseReasonOwnerAnswers \<and> pending b \<noteq> [])"

lemma reasons_differ: "PauseReasonOwnerAnswers \<noteq> PauseReasonApproval"
  by (simp add: PauseReasonOwnerAnswers_def PauseReasonApproval_def)

text \<open>
  Recovery after a crash, when the database answers: with three or more recorded failures the
  pipeline is left as it is and needs a manual resume; otherwise the error count is cleared, and the
  pipeline stays paused exactly when it waits for an approval, for answers to questions that are still
  pending, or was paused without a reason.
\<close>
theorem autoRecover_spec:
  assumes "no_faults d" "run_state (autoRecover d) w = (ok, w')"
  shows "if ErrorCount (row w) \<ge> int maxStageRetries then \<not> ok \<and> sdb w' = sdb w
    else ok \<and> ErrorCount (row w') \<le> 0 \<and> Stage (row w') = Stage (row w) \<and> PlanJSON (row w') = PlanJSON (row w) \<and>
      (Paused (row w') \<longleftrightarrow> stays_paused (sdb w))"
proof -
  have r: "ok = fst (run_state (autoRecover d) w)" "w' = snd (run_state (autoRecover d) w)"
    using assms(2) by simp_all
  note simps = autoRecover_def run_simps assms(1) [unfolded no_faults_def] on_row_def ResumePipeline_def
    stays_paused_def pending_def reasons_differ reasons_differ [symmetric]
  show ?thesis
  proof (cases "ErrorCount (row w) \<ge> int maxStageRetries")
    case True
    then show ?thesis unfolding r by (simp add: simps)
  next
    case False
    then show ?thesis
      unfolding r by (cases "PauseReason (row w)") (auto simp: simps split: if_splits)
  qed
qed

theorem autoRecover_spec_witness:
  "\<exists>ok w'. run_state (autoRecover quiet_deps) fresh_world = (ok, w') \<and> ok \<and> \<not> Paused (row w')"
proof -
  obtain ok w' where r: "run_state (autoRecover quiet_deps) fresh_world = (ok, w')"
    by (cases "run_state (autoRecover quiet_deps) fresh_world")
  from autoRecover_spec [OF quiet_no_faults r] r show ?thesis
    by (auto simp: fresh_world_def fresh_row_def maxStageRetries_def stays_paused_def)
qed

section \<open>Pauses that are overtaken\<close>

lemma complete_iteration:
  assumes "no_faults d" "\<And>n. \<not> ctx_done d n"
  shows "\<exists>w'. run_state (build_iteration d StageComplete r) w = (InBuild StageMonitoring 0, w') \<and>
    row w' = (row w)\<lparr>Stage := StageMonitoring, ErrorCount := 0\<rparr>"
proof -
  define w1 where "w1 = snd (run_state (publishBrainMessage d (stage_banner StageComplete)) (w\<lparr>tick := Suc (tick w)\<rparr>))"
  have row1: "row w1 = row w" by (simp add: w1_def row_messages)
  define w2 where "w2 = snd (run_state (runComplete d) w1)"
  have "frame row (runComplete d)"
    unfolding runComplete_def by (intro row_frames row_exec_global)
  then have row2: "row w2 = row w" using frameD row1 by (metis w2_def)
  have "fst (run_state (runComplete d) w1) = Next StageMonitoring"
    by (simp add: runComplete_def run_bind)
  then have "run_state (build_iteration d StageComplete r) w =
      (InBuild StageMonitoring 0, snd (run_state (publish ''brain.stage_change''
          [(''prev_stage'', JStr (stage_text StageComplete)), (''stage'', JStr (stage_text StageMonitoring))])
        (w2\<lparr>tick := Suc (tick w2), sdb := on_row (\<lambda>r. r\<lparr>Stage := StageMonitoring, ErrorCount := 0\<rparr>) (sdb w2)\<rparr>)))"
    using assms by (simp add: build_iteration_def run_bind w1_def [symmetric] w2_def [symmetric] run_stage_def
        run_AdvanceStage)
  with row2 show ?thesis by (simp add: on_row_def)
qed

text \<open>
  A pause that a tool requests while a stage runs (the approval gate of the destructive tools) has no
  effect when the stage then succeeds: from COMPLETE with a paused row the worker goes on to monitoring
  in two iterations, and the row still says paused.
\<close>
theorem pause_overtaken:
  assumes "no_faults d" "\<And>n. \<not> ctx_done d n" "Paused (row w)"
  shows "\<exists>w'. build_run d 2 (InBuild StageComplete r, w) = (InMonitoring, w') \<and>
    Paused (row w') \<and> PauseReason (row w') = PauseReason (row w)"
proof -
  from complete_iteration [OF assms(1,2)] obtain w1
    where w1: "run_state (build_iteration d StageComplete r) w = (InBuild StageMonitoring 0, w1)"
      "row w1 = (row w)\<lparr>Stage := StageMonitoring, ErrorCount := 0\<rparr>" by blast
  have "row (snd (run_state (build_iteration d StageMonitoring 0) w1)) = row w1"
    "fst (run_state (build_iteration d StageMonitoring 0) w1) = InMonitoring"
    using assms(2) by (simp_all add: build_iteration_def run_bind row_messages)
  with w1 assms(3) show ?thesis
    by (cases "run_state (build_iteration d StageMonitoring 0) w1") (auto simp: eval_nat_numeral)
qed

definition paused_world :: world where
  "paused_world = fresh_world\<lparr>sdb := (sdb fresh_world)\<lparr>pipeline :=
     fresh_row\<lparr>Paused := True, PauseReason := Some PauseReasonApproval\<rparr>\<rparr>\<rparr>"

theorem pause_overtaken_witness:
  "\<exists>w'. build_run quiet_deps 2 (InBuild StageComplete 0, paused_world) = (InMonitoring, w') \<and>
     PauseReason (row w') = Some PauseReasonApproval"
  using pause_overtaken [OF quiet_no_faults, of paused_world 0]
  by (auto simp: quiet_deps_def paused_world_def)

text \<open>
  An update requested while the pipeline is paused is recorded, but the worker returns to the paused
  loop at once: the command does not clear the pause that \<^verbatim>\<open>runBuildPipeline\<close> then finds.
\<close>
theorem update_while_paused:
  assumes "no_faults d" "CmdType cmd = ''update''" "Paused (row w)"
  shows "\<exists>w'. run_state (paused_command d cmd) w = (InPaused, w') \<and> state w' = StatePaused \<and>
    Stage (row w') = StageUpdatePlan \<and> Paused (row w')"
proof -
  define desc where "desc = (case payload_str cmd ''description'' of Some s \<Rightarrow> s | None \<Rightarrow> [])"
  define w1 where "w1 = snd (run_state (handleCommand d cmd) w)"
  have w1: "state w1 = StateBuilding" "Stage (row w1) = StageUpdatePlan" "Paused (row w1)"
    using assms by (simp_all add: w1_def handleCommand_def run_simps AdvanceStage_def no_faults_def on_row_def)
  define msg where "msg = ''Pipeline paused: '' @ (case PauseReason (row w1) of Some x \<Rightarrow> x | None \<Rightarrow> [])"
  define w2 where "w2 = snd (run_state (publishBrainMessage d msg) (w1\<lparr>tick := Suc (tick w1), state := StatePaused\<rparr>))"
  have "run_state (paused_command d cmd) w = (InPaused, w2)"
    using w1 assms(1) by (simp add: paused_command_def run_bind w1_def [symmetric] enter_build_def
        run_LoadPipelineState w2_def msg_def)
  moreover have "row w2 = row w1" by (simp add: w2_def row_messages)
  moreover have "state w2 = StatePaused"
    using frameD [OF state_view.frame_publishBrainMessage] by (simp add: w2_def)
  ultimately show ?thesis using w1 by auto
qed

definition update_cmd :: BrainCommand where
  "update_cmd = \<lparr>CmdType = ''update'', Payload = Some [(''description'', JStr ''add a blog'')]\<rparr>"

theorem update_while_paused_witness:
  "\<exists>w'. run_state (paused_command quiet_deps update_cmd) paused_world = (InPaused, w') \<and> state w' = StatePaused"
  using update_while_paused [OF quiet_no_faults, of update_cmd paused_world]
  by (auto simp: update_cmd_def paused_world_def)

section \<open>Tool calls and their results\<close>

lemma execute_call_yields: "yields {m. \<exists>s. m = tool_message tc s} (execute_call d tc)"
  unfolding execute_call_def by (intro yields_rules; blast)

text \<open>
  Every tool call of a model's answer gets exactly one result message, with the identifier of the
  call and in the order of the calls, whether the tool is unknown, its arguments are malformed, it
  fails or it succeeds; the earlier conversation is kept.
\<close>
theorem tool_results_paired:
  "\<exists>rs. fst (run_state (executeToolCalls d tcs ms) w) = ms @ rs \<and>
     map ToolCallID rs = map CallID tcs \<and> list_all (\<lambda>m. MRole m = RoleTool) rs"
proof (induction tcs arbitrary: ms w)
  case (Cons tc tcs)
  obtain s where s: "fst (run_state (execute_call d tc) w) = tool_message tc s"
    using execute_call_yields [of tc d] by (auto simp: yields_def)
  from Cons.IH [of "ms @ [tool_message tc s]" "snd (run_state (execute_call d tc) w)"]
  obtain rs where "fst (run_state (executeToolCalls d tcs (ms @ [tool_message tc s]))
      (snd (run_state (execute_call d tc) w))) = (ms @ [tool_message tc s]) @ rs"
    "map ToolCallID rs = map CallID tcs" "list_all (\<lambda>m. MRole m = RoleTool) rs" by blast
  then show ?case
    by (intro exI [of _ "tool_message tc s # rs"]) (simp add: run_bind s tool_message_def)
qed simp

section \<open>Configuration errors\<close>

lemma permanent_by: "p \<in> set permanentPatterns \<Longrightarrow> contains (to_lower e) p \<Longrightarrow> isPermanentError e"
  by (auto simp: isPermanentError_def Let_def list_ex_iff)

lemma contains_mid: "contains (to_lower m) p \<Longrightarrow> contains (to_lower (a @ m @ b)) p"
  by (simp add: contains_append)

lemma permanent_texts:
  "isPermanentError (err_no_model e)" "isPermanentError (err_decrypt p e)" "isPermanentError (err_no_key p)"
  "isPermanentError (err_no_base_url p)"
proof -
  have 1: "contains (to_lower ''no model configured and no default available: '') ''no model configured''"
    and 2: "contains (to_lower ''failed to decrypt API key for '') ''failed to decrypt''"
    and 3: "contains (to_lower '' has no API key'') ''has no api key''"
    and 4: "contains (to_lower '' (openai) has no base_url'') ''has no base_url''" by code_simp+
  have p: "''no model configured'' \<in> set permanentPatterns" "''failed to decrypt'' \<in> set permanentPatterns"
    "''has no api key'' \<in> set permanentPatterns" "''has no base_url'' \<in> set permanentPatterns"
    by (simp_all add: permanentPatterns_def)
  show "isPermanentError (err_no_model e)" unfolding err_no_model_def
    by (rule permanent_by [OF p(1)]) (simp only: to_lower_append contains_append(1) [OF 1])
  show "isPermanentError (err_decrypt p e)" unfolding err_decrypt_def
    by (rule permanent_by [OF p(2)]) (simp only: to_lower_append contains_append(1) [OF 2])
  show "isPermanentError (err_no_key p)" unfolding err_no_key_def
    by (rule permanent_by [OF p(3)]) (simp only: to_lower_append contains_append(2) [OF 3])
  show "isPermanentError (err_no_base_url p)" unfolding err_no_base_url_def
    by (rule permanent_by [OF p(4)]) (simp only: to_lower_append contains_append(2) [OF 4])
qed

lemma resolve_errors:
  "resolve_provider d m = Inl e \<Longrightarrow> isPermanentError e \<or> (\<exists>p e'. e = err_not_available p e')"
  by (auto simp: resolve_provider_def provider_key_def Let_def permanent_texts
      split: sum.splits option.splits if_splits prod.splits)

text \<open>
  Every error of resolving the provider (no model, a key that does not decrypt, no key, no base URL)
  is recognised as permanent, so the pipeline pauses at once instead of retrying; the only other error
  is the one of a provider missing from the registry.
\<close>
theorem provider_errors_permanent:
  "fst (run_state (getProvider d) w) = Inl e \<Longrightarrow> isPermanentError e \<or> (\<exists>p e'. e = err_not_available p e')"
  by (simp add: getProvider_def run_bind resolve_errors)

theorem provider_errors_permanent_witness:
  "fst (run_state (getProvider quiet_deps) fresh_world) = Inl (err_no_key test_provider) \<and>
   (isPermanentError (err_no_key test_provider) \<or> (\<exists>p e'. err_no_key test_provider = err_not_available p e'))"
proof -
  have r: "fst (run_state (getProvider quiet_deps) fresh_world) = Inl (err_no_key test_provider)"
    by (simp add: getProvider_def run_bind quiet_deps_def resolve_provider_def provider_key_def test_provider_def
        RequiresAPIKey_def)
  from provider_errors_permanent [OF r] r show ?thesis by blast
qed

text \<open>
  The error of a missing provider is not recognised: the pattern in the list lacks the quoted name
  that the message has between its words, so this configuration error is retried three times.
\<close>
theorem missing_provider_retried:
  "\<not> isPermanentError (err_not_available (test_provider\<lparr>ProvName := ''openai''\<rparr>) (''llm: provider '' @ quote ''openai'' @ '' not found''))"
  by code_simp

section \<open>The text of a stored plan\<close>

text \<open>
  Reading a stored plan back can change it: the clean-up meant for a model's answer also rewrites the
  inside of strings. A comma before a closing bracket is dropped from a text, and a text that quotes a
  fenced block is replaced by the block.
\<close>
theorem stored_plan_rewritten:
  "repairJSON (extractJSON (''{'' @ quote ''notes'' @ '':'' @ quote ''[a, b, ]'' @ ''}'')) =
     ''{'' @ quote ''notes'' @ '':'' @ quote ''[a, b]'' @ ''}'' \<and>
   extractJSON (''{'' @ quote ''notes'' @ '':'' @ quote (fence @ ''css'' @ fence) @ ''}'') = ''css''"
  by code_simp

definition plain_commas :: "string \<Rightarrow> bool" where
  \<comment> \<open>no comma is followed by white space and a closing bracket\<close>
  "plain_commas s \<longleftrightarrow> (\<forall>a b. s = a @ CHR '','' # b \<longrightarrow>
     (case dropWhile re_space b of d # _ \<Rightarrow> d \<noteq> CHR '']'' \<and> d \<noteq> CHR ''}'' | [] \<Rightarrow> True))"

lemma strip_commas_plain: "plain_commas s \<Longrightarrow> strip_commas s = s"
proof (induction s rule: strip_commas.induct)
  case (2 c s)
  have tail: "plain_commas s"
    unfolding plain_commas_def
  proof (intro allI impI)
    fix a b
    assume "s = a @ CHR '','' # b"
    then have "c # s = (c # a) @ CHR '','' # b" by simp
    with 2(5) show "case dropWhile re_space b of d # _ \<Rightarrow> d \<noteq> CHR '']'' \<and> d \<noteq> CHR ''}'' | [] \<Rightarrow> True"
      unfolding plain_commas_def by blast
  qed
  show ?case
  proof (cases "c = CHR '',''")
    case True
    with 2(5) have "case dropWhile re_space s of d # _ \<Rightarrow> d \<noteq> CHR '']'' \<and> d \<noteq> CHR ''}'' | [] \<Rightarrow> True"
      unfolding plain_commas_def by (metis append_Nil)
    then show ?thesis
      using True tail 2(1,2,3) by (cases "dropWhile re_space s") (simp_all del: dropWhile_eq_Nil_conv)
  next
    case False
    with 2 tail show ?thesis by simp
  qed
qed simp

text \<open>
  A stored plan is read back unchanged when its text is one trimmed line that opens with a bracket,
  holds no fence and no comma before a closing bracket, and closes its brackets.
\<close>
theorem stored_plan_preserved:
  assumes "trim_space s = s" "opens_json s" "nl \<notin> set s" "\<not> contains s fence" "plain_commas s"
    and "stack (scan s) = []"
  shows "repairJSON (extractJSON s) = s"
proof -
  have "s \<noteq> []" using assms(2) by (auto simp: opens_json_def)
  moreover have "cut fence s = None" using assms(4) unfolding contains_def by blast
  then have "fences s = []" by (simp add: fences.simps [of s])
  ultimately have "extractJSON s = s" using assms(1,2) by (simp add: extractJSON_def)
  moreover have "strip_comments s = s"
  proof -
    have "split_on nl s = [s]" using assms(3) by (auto simp: split_on_def intro: split_by_none)
    moreover have "\<not> has_prefix ''//'' (trim_space s)"
      using assms(1,2) by (auto simp: has_prefix_def opens_json_def split: list.splits)
    ultimately show ?thesis by (simp add: strip_comments_def)
  qed
  moreover have "repairTruncatedJSON s = s"
    using assms by (simp add: repairTruncatedJSON_def Let_def)
  ultimately show ?thesis by (simp add: repairJSON_def strip_commas_plain assms(5))
qed

theorem stored_plan_preserved_witness: "repairJSON (extractJSON ''{[1,2],3}'') = ''{[1,2],3}''"
proof (rule stored_plan_preserved)
  show "plain_commas ''{[1,2],3}''"
    by (auto simp: plain_commas_def Cons_eq_append_conv re_space_def)
qed code_simp+

definition plan_provider :: LLMProvider where
  "plan_provider = test_provider\<lparr>APIKeyEncrypted := Some ''key''\<rparr>"

definition planning_deps :: deps where
  "planning_deps = quiet_deps\<lparr>site_model := (\<lambda>_. Inr (''m'', plan_provider)),
     complete := (\<lambda>_ _. Inr \<lparr>RespContent = ''{}'', RespToolCalls = [], InputTokens = 1, OutputTokens = 1,
       RespModel = ''m'', StopReason = ''end_turn''\<rparr>)\<rparr>"

lemma planning_simps:
  "db_fault planning_deps n = None" "ctx_done planning_deps n = False" "has_tool planning_deps t"
  "unmarshal_plan planning_deps s = Inr small_plan" "site_model planning_deps n = Inr (''m'', plan_provider)"
  "complete planning_deps n req = Inr \<lparr>RespContent = ''{}'', RespToolCalls = [], InputTokens = 1, OutputTokens = 1,
     RespModel = ''m'', StopReason = ''end_turn''\<rparr>"
  "resolve_provider planning_deps (Inr (''m'', plan_provider)) = Inr ''m''"
  by (simp_all add: planning_deps_def quiet_deps_def plan_provider_def test_provider_def resolve_provider_def
      provider_key_def)

lemma small_plan_accepted: "ValidatePlan small_plan = []" "Questions small_plan = []"
  by (simp_all add: ValidatePlan_nil plan_ok_def small_plan_def blank_page_def)

lemma ask_model_answers:
  "loopErr (fst (run_state (ask_model planning_deps m p u t) w)) = None"
  by (simp add: ask_model_def runToolLoop_def run_bind planning_simps maxLLMRetries_def numeral_eq_Suc)

lemma planning_parses:
  "\<exists>t. fst (run_state (ask_and_parse planning_deps (ParsePlan (unmarshal_plan planning_deps)) m p u nt mt fin) w) = Inr (small_plan, t)"
  by (simp add: ask_and_parse_def run_bind ask_model_answers ParsePlan_def planning_simps)

lemma finish_small_plan: "fst (run_state (finish_plan planning_deps i small_plan t) w) = Next StageBuild"
  by (simp add: finish_plan_def small_plan_accepted run_bind)

lemma planning_succeeds: "fst (run_state (runPlan planning_deps) fresh_world) = Next StageBuild"
proof -
  obtain t where t: "\<And>m p u nt mt fin w. fst (run_state (ask_and_parse planning_deps
      (ParsePlan (unmarshal_plan planning_deps)) m p u nt mt fin) w) = Inr (small_plan, t m p u nt mt fin w)"
    using planning_parses by metis
  show ?thesis
    by (simp add: runPlan_def run_bind getProvider_def get_site_def planning_simps t finish_small_plan Let_def)
qed

theorem runPlan_saves_valid_witness:
  "\<exists>plan. plan_ok plan \<and> PlanJSON (row (snd (run_state (runPlan planning_deps) fresh_world))) = Some (marshal_plan planning_deps plan)"
proof -
  have "run_state (runPlan planning_deps) fresh_world =
      (Next StageBuild, snd (run_state (runPlan planning_deps) fresh_world))"
    by (metis planning_succeeds prod.collapse)
  moreover have "no_faults planning_deps" by (simp add: planning_deps_def no_faults_def quiet_deps_def)
  ultimately show ?thesis using runPlan_saves_valid by blast
qed

end
