(* ===== verification/ToolCore.thy ===== *)
theory ToolCore
  imports Recovery "HOL-Library.List_Lexorder" "HOL-Library.Char_ord"
begin

text \<open>
  What the tools of the language model share: values and results, the registry (\<^verbatim>\<open>tools/registry.go\<close>),
  the executor (\<^verbatim>\<open>tools/executor.go\<close>) with the JSON text of a result, argument helpers and the
  dispatch on an action (\<^verbatim>\<open>tools/helpers.go\<close>, \<^verbatim>\<open>tools/types.go\<close>), the summaries kept for later
  stages (\<^verbatim>\<open>tools/summarize.go\<close>) and the owner's approvals (\<^verbatim>\<open>tools/approval.go\<close>).
  A tool is a function on a state with the ways its goroutine can end.
\<close>

section \<open>Values and their JSON text\<close>

text \<open>
  Values of type \<^verbatim>\<open>interface{}\<close> that tools build. The texts of floating-point numbers and instants are
  arguments (they may be refused), the rest of \<^verbatim>\<open>encoding/json\<close> is written out for valid UTF-8.
\<close>

datatype gval =
    GNil
  | GBool bool
  | GInt int
  | GNum rat
  | GStr string
  | GTime int
  | GArr "gval list"
  | GObj "(string \<times> gval) list"

record encoder =
  enc_num :: "rat \<Rightarrow> string option"
  enc_time :: "int \<Rightarrow> string option"

definition json_escape_char :: "char \<Rightarrow> string" where
  "json_escape_char c =
     (let n = of_char c :: nat in
      if n = 34 \<or> n = 92 then [CHR 0x5C, c]
      else if n = 8 then [CHR 0x5C, CHR ''b'']
      else if n = 12 then [CHR 0x5C, CHR ''f'']
      else if n = 10 then [CHR 0x5C, CHR ''n'']
      else if n = 13 then [CHR 0x5C, CHR ''r'']
      else if n = 9 then [CHR 0x5C, CHR ''t'']
      else if n < 32 \<or> n \<in> {38, 60, 62}
        then [CHR 0x5C, CHR ''u'', CHR ''0'', CHR ''0'', hex_digit (n div 16), hex_digit (n mod 16)]
      else [c])"

fun json_escape :: "string \<Rightarrow> string" where
  \<comment> \<open>the line separators U+2028 and U+2029 are escaped too\<close>
  "json_escape [] = []"
| "json_escape (c # cs) =
     (if take 3 (c # cs) = [CHR 0xE2, CHR 0x80, CHR 0xA8]
        then [CHR 0x5C, CHR ''u'', CHR ''2'', CHR ''0'', CHR ''2'', CHR ''8''] @ json_escape (drop 2 cs)
      else if take 3 (c # cs) = [CHR 0xE2, CHR 0x80, CHR 0xA9]
        then [CHR 0x5C, CHR ''u'', CHR ''2'', CHR ''0'', CHR ''2'', CHR ''9''] @ json_escape (drop 2 cs)
      else json_escape_char c @ json_escape cs)"

definition json_string :: "string \<Rightarrow> string" where
  "json_string s = dquote # json_escape s @ [dquote]"

fun collect :: "'a option list \<Rightarrow> 'a list option" where
  "collect [] = Some []"
| "collect (x # xs) = (case x of None \<Rightarrow> None | Some y \<Rightarrow> map_option ((#) y) (collect xs))"

fun marshal :: "encoder \<Rightarrow> gval \<Rightarrow> string option" where
  "marshal E GNil = Some ''null''"
| "marshal E (GBool b) = Some (if b then ''true'' else ''false'')"
| "marshal E (GInt i) = Some (show_int i)"
| "marshal E (GNum q) = enc_num E q"
| "marshal E (GStr s) = Some (json_string s)"
| "marshal E (GTime t) = enc_time E t"
| "marshal E (GArr vs) =
     map_option (\<lambda>ts. ''['' @ join '','' ts @ '']'') (collect (map (marshal E) vs))"
| "marshal E (GObj kvs) =
     map_option (\<lambda>ts. ''{'' @ join '','' ts @ ''}'')
       (collect (map (\<lambda>(k, t). map_option (\<lambda>t. json_string k @ '':'' @ t) t)
          (sort_key fst (map (\<lambda>(k, v). (k, marshal E v)) kvs))))"

section \<open>Results and tools\<close>

record Result =
  Success :: bool
  Data :: gval
  Error :: string

abbreviation failure :: "string \<Rightarrow> Result" where
  "failure e \<equiv> \<lparr>Success = False, Data = GNil, Error = e\<rparr>"

abbreviation success :: "gval \<Rightarrow> Result" where
  "success v \<equiv> \<lparr>Success = True, Data = v, Error = []\<rparr>"

definition marshal_result :: "encoder \<Rightarrow> Result \<Rightarrow> string option" where
  \<comment> \<open>\<^verbatim>\<open>omitempty\<close>: a nil value and an empty error are left out\<close>
  "marshal_result E r =
     map_option
       (\<lambda>d. ''{'' @ join '','' (filter (\<lambda>p. p \<noteq> [])
          [json_string ''success'' @ '':'' @ (if Success r then ''true'' else ''false''),
           d,
           (if Error r = [] then [] else json_string ''error'' @ '':'' @ json_string (Error r))]) @ ''}'')
       (if Data r = GNil then Some []
        else map_option (\<lambda>t. json_string ''data'' @ '':'' @ t) (marshal E (Data r)))"

datatype tool_outcome =
    Returned "Result option" "string option"
  | TimedOut string
  | Panicked string

record 'w Tool =
  tool_name :: string
  Description :: string
  Parameters :: gval
  Guide :: "string option"
  body :: "'w \<Rightarrow> jobj \<Rightarrow> tool_outcome \<times> jobj \<times> 'w"

section \<open>The registry\<close>

type_synonym 'w Registry = "(string \<times> 'w Tool) list"

definition NewRegistry :: "'w Registry" where
  "NewRegistry = []"

definition put_tool :: "string \<Rightarrow> 'w Tool \<Rightarrow> 'w Registry \<Rightarrow> 'w Registry" where
  "put_tool name t r = AList.update name t r"

definition RegisterTool :: "'w Tool \<Rightarrow> 'w Registry \<Rightarrow> 'w Registry" where
  "RegisterTool t r = put_tool (tool_name t) t r"

definition GetTool :: "'w Registry \<Rightarrow> string \<Rightarrow> string + 'w Tool" where
  "GetTool r name = (case map_of r name of Some t \<Rightarrow> Inr t | None \<Rightarrow> Inl (''tool not found: '' @ name))"

definition HasTool :: "'w Registry \<Rightarrow> string \<Rightarrow> bool" where
  "HasTool r name \<longleftrightarrow> map_of r name \<noteq> None"

definition sortedNames :: "'w Registry \<Rightarrow> string list" where
  "sortedNames r = sort (map fst r)"

definition ListTools :: "'w Registry \<Rightarrow> 'w Tool list" where
  "ListTools r = map (\<lambda>n. the (map_of r n)) (sortedNames r)"

record ToolDef =
  DefName :: string
  DefDescription :: string
  DefParameters :: gval

definition tool_def :: "'w Tool \<Rightarrow> ToolDef" where
  "tool_def t = \<lparr>DefName = tool_name t, DefDescription = Description t, DefParameters = Parameters t\<rparr>"

definition ToLLMTools :: "'w Registry \<Rightarrow> ToolDef list" where
  "ToLLMTools r = map (\<lambda>n. tool_def (the (map_of r n))) (sortedNames r)"

definition ToLLMToolsFiltered :: "'w Registry \<Rightarrow> string list \<Rightarrow> ToolDef list" where
  "ToLLMToolsFiltered r allowed =
     map (\<lambda>n. tool_def (the (map_of r n))) (filter (\<lambda>n. n \<in> set allowed) (sortedNames r))"

definition BuildGuide :: "'w Registry \<Rightarrow> string list \<Rightarrow> string" where
  "BuildGuide r allowed =
     concat (map (\<lambda>n. let t = the (map_of r n) in
         case Guide t of
           Some g \<Rightarrow> g @ [nl]
         | None \<Rightarrow> ''- **'' @ n @ ''**: '' @ Description t @ [nl])
       (filter (\<lambda>n. n \<in> set allowed) (sortedNames r)))"

interpretation tool_store: put_store map_of put_tool
  by unfold_locales (simp add: put_tool_def)

fun RegisterTools :: "'w Tool list \<Rightarrow> 'w Registry \<Rightarrow> 'w Registry" where
  "RegisterTools [] r = r"
| "RegisterTools (t # ts) r = RegisterTools ts (RegisterTool t r)"

definition registry_ok :: "'w Registry \<Rightarrow> bool" where
  "registry_ok r \<longleftrightarrow> distinct (map fst r) \<and> (\<forall>n t. map_of r n = Some t \<longrightarrow> tool_name t = n)"

lemma RegisterTool_ok: "registry_ok r \<Longrightarrow> registry_ok (RegisterTool t r)"
  by (auto simp: registry_ok_def RegisterTool_def tool_store.lookup_put)
    (simp add: put_tool_def distinct_keys_update)

lemma RegisterTools_ok: "registry_ok r \<Longrightarrow> registry_ok (RegisterTools ts r)"
  by (induction ts r rule: RegisterTools.induct) (simp_all add: RegisterTool_ok)

lemma map_of_RegisterTools:
  "map_of (RegisterTools ts r) = map_of r ++ map_of (rev (map (\<lambda>t. (tool_name t, t)) ts))"
  by (induction ts r rule: RegisterTools.induct)
    (simp_all add: RegisterTool_def tool_store.lookup_put map_add_def fun_eq_iff split: option.splits)

lemma sortedNames_set: "registry_ok r \<Longrightarrow> sortedNames r = sorted_list_of_set (dom (map_of r))"
  by (simp add: registry_ok_def sortedNames_def dom_map_of_conv_image_fst sorted_list_of_set_sort_remdups
      distinct_remdups_id flip: set_map)

lemma filter_sorted_list:
  assumes "finite A"
  shows "filter P (sorted_list_of_set A) = sorted_list_of_set {x \<in> A. P x}"
  using assms by (intro sorted_distinct_set_unique) (auto intro: sorted_filter [of id, simplified])

text \<open>
  However the tools were registered, the model is offered the definitions of the allowed registered
  tools, one per name, in alphabetical order, and a name registered twice means the later tool.
\<close>
theorem tools_offered:
  fixes ts :: "'w Tool list"
  defines "r \<equiv> RegisterTools ts NewRegistry"
  shows "map DefName (ToLLMToolsFiltered r allowed) =
      sorted_list_of_set (tool_name ` set ts \<inter> set allowed) \<and>
    map tool_name (ListTools r) = sorted_list_of_set (tool_name ` set ts) \<and>
    GetTool r n = (case find (\<lambda>t. tool_name t = n) (rev ts) of
                     Some t \<Rightarrow> Inr t
                   | None \<Rightarrow> Inl (''tool not found: '' @ n))"
proof -
  have ok: "registry_ok r"
    unfolding r_def by (rule RegisterTools_ok) (simp add: registry_ok_def NewRegistry_def)
  have lookup: "map_of r = map_of (rev (map (\<lambda>t. (tool_name t, t)) ts))"
    by (simp add: r_def map_of_RegisterTools NewRegistry_def)
  have dom: "dom (map_of r) = tool_name ` set ts"
    by (auto simp: lookup dom_map_of_conv_image_fst image_image)
  have named: "n \<in> dom (map_of r) \<Longrightarrow> tool_name (the (map_of r n)) = n" for n
    using ok by (auto simp: registry_ok_def)
  have names: "map (\<lambda>n. tool_name (the (map_of r n))) ns = ns" if "set ns \<subseteq> dom (map_of r)" for ns
    using that named by (induction ns) auto
  have fin: "finite (dom (map_of r))" by (simp add: dom)
  have "map DefName (ToLLMToolsFiltered r allowed) = filter (\<lambda>n. n \<in> set allowed) (sortedNames r)"
    by (simp add: ToLLMToolsFiltered_def tool_def_def o_def, rule names) (use fin in \<open>auto simp: sortedNames_set [OF ok]\<close>)
  also have "\<dots> = sorted_list_of_set (tool_name ` set ts \<inter> set allowed)"
    by (simp add: sortedNames_set [OF ok] filter_sorted_list fin dom Int_def)
  finally have "map DefName (ToLLMToolsFiltered r allowed) = sorted_list_of_set (tool_name ` set ts \<inter> set allowed)" .
  moreover have "map tool_name (ListTools r) = sorted_list_of_set (tool_name ` set ts)"
    by (simp add: ListTools_def o_def) (subst names; use fin in \<open>simp add: sortedNames_set [OF ok] dom\<close>)
  moreover have "map_of (map (\<lambda>t. (tool_name t, t)) us) n = find (\<lambda>t. tool_name t = n) us" for us :: "'w Tool list"
    by (induction us) auto
  ultimately show ?thesis by (simp add: GetTool_def lookup rev_map)
qed

section \<open>Helpers for the arguments of a tool\<close>

definition RequireAction :: "jobj \<Rightarrow> Result + string" where
  "RequireAction args =
     (let action = get_str args ''action''
      in if action = [] then Inl (failure ''action is required'') else Inr action)"

definition RequireString :: "jobj \<Rightarrow> string \<Rightarrow> Result + string" where
  "RequireString args key =
     (let v = get_str args key in if v = [] then Inl (failure (key @ '' is required'')) else Inr v)"

definition OptionalString :: "jobj \<Rightarrow> string \<Rightarrow> string \<Rightarrow> string" where
  "OptionalString args key dflt = (let v = get_str args key in if v \<noteq> [] then v else dflt)"

definition OptionalInt :: "jobj \<Rightarrow> string \<Rightarrow> int \<Rightarrow> int" where
  \<comment> \<open>decoded JSON holds no Go \<^verbatim>\<open>int\<close>, so its branch is never taken\<close>
  "OptionalInt args key dflt =
     (case map_of args key of Some (JNum q) \<Rightarrow> trunc_rat q | _ \<Rightarrow> dflt)"

definition OptionalBool :: "jobj \<Rightarrow> string \<Rightarrow> bool \<Rightarrow> bool" where
  "OptionalBool args key dflt = (case map_of args key of Some (JBool b) \<Rightarrow> b | _ \<Rightarrow> dflt)"

fun append_rest :: "string \<Rightarrow> string list \<Rightarrow> string" where
  "append_rest out [] = out"
| "append_rest out (v # vs) = append_rest (out @ '', '' @ v) vs"

definition joinSorted :: "string list \<Rightarrow> string" where
  "joinSorted s = (case s of [] \<Rightarrow> [] | v # vs \<Rightarrow> append_rest v vs)"

type_synonym 'w handler = "'w \<Rightarrow> jobj \<Rightarrow> tool_outcome \<times> jobj \<times> 'w"

definition infer_action :: "(jobj \<Rightarrow> string) option \<Rightarrow> jobj \<Rightarrow> string \<times> jobj" where
  \<comment> \<open>an inferred action is written into the caller's map\<close>
  "infer_action infer args =
     (case infer of
        None \<Rightarrow> ([], args)
      | Some f \<Rightarrow> (let a = f args in (a, if a \<noteq> [] then AList.update ''action'' (JStr a) args else args)))"

definition DispatchAction ::
  "(string \<times> 'w handler) list \<Rightarrow> (jobj \<Rightarrow> string) option \<Rightarrow> 'w handler" where
  "DispatchAction routes infer w args =
     (let (r, action, args) =
        (case RequireAction args of
           Inr a \<Rightarrow> (None, a, args)
         | Inl e \<Rightarrow> (let (a, args') = infer_action infer args in (Some e, a, args')))
      in case (r, action) of
           (Some e, []) \<Rightarrow> (Returned (Some e) None, args, w)
         | _ \<Rightarrow>
             (case map_of routes action of
                Some h \<Rightarrow> h w args
              | None \<Rightarrow>
                  (Returned (Some (failure (''unknown action '' @ quote action @ '' '' @ em_dash @
                     '' valid actions: '' @ joinSorted (map fst routes)))) None, args, w)))"

lemma append_rest_join: "append_rest out vs = join '', '' (out # vs)"
proof (induction vs arbitrary: out)
  case (Cons v vs)
  have shift: "join sep ((x @ y) # ws) = x @ join sep (y # ws)" for sep x y :: string and ws
    by (cases ws) simp_all
  show ?case using Cons.IH [of "out @ '', '' @ v"] by (simp add: shift flip: append_assoc append_Cons)
qed simp

lemma joinSorted_join: "joinSorted s = join '', '' s"
  by (cases s) (simp_all add: joinSorted_def append_rest_join)

text \<open>
  C. An explicit action wins over inference, a known action runs exactly its handler on the arguments,
  and a missing or unknown one changes nothing and is answered by a failed result.
\<close>
theorem DispatchAction_spec:
  "DispatchAction routes infer w args =
     (let explicit = get_str args ''action'';
          inferred = (case infer of Some f \<Rightarrow> f args | None \<Rightarrow> []);
          action = (if explicit \<noteq> [] then explicit else inferred);
          args' = (if explicit = [] \<and> inferred \<noteq> [] then AList.update ''action'' (JStr inferred) args else args)
      in case map_of routes action of
           Some h \<Rightarrow> if action = [] then (Returned (Some (failure ''action is required'')) None, args, w) else h w args'
         | None \<Rightarrow> (Returned (Some (failure
             (if action = [] then ''action is required''
              else ''unknown action '' @ quote action @ '' '' @ em_dash @ '' valid actions: '' @
                   join '', '' (map fst routes)))) None, args', w))"
  by (cases "get_str args ''action''"; cases infer)
    (auto simp: DispatchAction_def RequireAction_def infer_action_def joinSorted_join Let_def
      split: option.splits list.splits)

section \<open>The executor\<close>

definition marshal_error :: "string \<Rightarrow> string" where
  \<comment> \<open>\<^verbatim>\<open>marshalError\<close>: the text of a failed result, which needs no number and no instant\<close>
  "marshal_error msg =
     (case marshal_result \<lparr>enc_num = (\<lambda>_. None), enc_time = (\<lambda>_. None)\<rparr> (failure msg) of
        Some t \<Rightarrow> t | None \<Rightarrow> [])"

datatype 'a outcome = Reply 'a | ProcessPanic string

definition Execute ::
  "encoder \<Rightarrow> string \<Rightarrow> bool \<Rightarrow> int \<Rightarrow> 'w Registry \<Rightarrow> string \<Rightarrow> jobj \<Rightarrow> 'w \<Rightarrow> ((string + string) \<times> Event list) outcome \<times> 'w" where
  \<comment> \<open>the answer with the events published; a panic of the tool's goroutine is recovered nowhere and ends
      the process. The second argument is the error text of a refused value, the third whether there is a bus\<close>
  "Execute E refused has_bus duration r name args w =
     (case GetTool r name of
        Inl _ \<Rightarrow> (Reply (Inr (marshal_error (''unknown tool: '' @ name)), []), w)
      | Inr t \<Rightarrow>
          (let (out, args', w') = body t w args;
               payload = [(''tool'', JStr name), (''args'', JObj args'), (''duration_ms'', JNum (of_int duration))];
               emit = (\<lambda>ty pl. if has_bus then [\<lparr>EvType = ty, EvPayload = pl\<rparr>] else []);
               failed = (\<lambda>e. (Reply (Inr (marshal_error e), emit ''tool.failed'' (payload @ [(''error'', JStr e)])), w'))
           in case out of
                Panicked p \<Rightarrow> (ProcessPanic p, w')
              | TimedOut e \<Rightarrow> failed (''tool '' @ name @ '' timed out: '' @ e)
              | Returned res (Some e) \<Rightarrow> failed e
              | Returned res None \<Rightarrow>
                  (let result = (case res of Some x \<Rightarrow> x | None \<Rightarrow> success GNil);
                       ev = emit ''tool.executed'' (payload @ [(''success'', JBool (Success result))])
                   in (Reply (Inr (case marshal_result E result of
                         Some s \<Rightarrow> s
                       | None \<Rightarrow> marshal_error (''failed to marshal result: '' @ refused)), ev), w'))))"

lemma marshal_error_text:
  "marshal_error msg =
     ''{'' @ json_string ''success'' @ '':false'' @
     (if msg = [] then [] else '','' @ json_string ''error'' @ '':'' @ json_string msg) @ ''}''"
  by (simp add: marshal_error_def marshal_result_def)

text \<open>
  C12. The executor never reports an error of its own: every call of it is answered by a text, also of an
  unknown tool, of a tool that fails or runs out of time and of a value that has no JSON; a registered
  tool publishes exactly one event, whose type and success flag agree with what the tool returned.
\<close>
theorem Execute_always_answers:
  "case Execute E refused True ms r name args w of
     (ProcessPanic p, w') \<Rightarrow> (\<exists>t a. map_of r name = Some t \<and> body t w args = (Panicked p, a, w'))
   | (Reply (res, evs), w') \<Rightarrow>
       (\<exists>s. res = Inr s) \<and>
       (case map_of r name of
          None \<Rightarrow> evs = [] \<and> w' = w \<and> res = Inr (marshal_error (''unknown tool: '' @ name))
        | Some t \<Rightarrow> (\<exists>ev. evs = [ev] \<and> w' = snd (snd (body t w args)) \<and>
            (EvType ev = ''tool.failed'' \<longleftrightarrow> (\<forall>x. fst (body t w args) \<noteq> Returned x None)) \<and>
            (EvType ev = ''tool.executed'' \<longleftrightarrow> (\<exists>x. fst (body t w args) = Returned x None)) \<and>
            (\<forall>x. fst (body t w args) = Returned (Some x) None \<longrightarrow>
               map_of (EvPayload ev) ''success'' = Some (JBool (Success x)))))"
  by (auto simp: Execute_def GetTool_def Let_def split: option.splits prod.splits tool_outcome.splits)

definition denying_tool :: "unit Tool" where
  "denying_tool = \<lparr>tool_name = ''t'', Description = [], Parameters = GNil, Guide = None,
     body = (\<lambda>w args. (Returned (Some (failure ''not allowed'')) None, args, w))\<rparr>"

theorem Execute_always_answers_witness:
  "\<forall>E. \<exists>s ev. fst (Execute E [] True 5 (RegisterTool denying_tool NewRegistry) ''t'' [] ()) = Reply (Inr s, [ev]) \<and>
     EvType ev = ''tool.executed'' \<and> map_of (EvPayload ev) ''success'' = Some (JBool False)"
proof
  fix E :: encoder
  define r where "r = RegisterTool denying_tool NewRegistry"
  have t: "map_of r ''t'' = Some denying_tool"
    by (simp add: r_def RegisterTool_def tool_store.lookup_put denying_tool_def)
  have out: "body denying_tool () [] = (Returned (Some (failure ''not allowed'')) None, [], ())"
    by (simp add: denying_tool_def)
  show "\<exists>s ev. fst (Execute E [] True 5 (RegisterTool denying_tool NewRegistry) ''t'' [] ()) = Reply (Inr s, [ev]) \<and>
     EvType ev = ''tool.executed'' \<and> map_of (EvPayload ev) ''success'' = Some (JBool False)"
    using Execute_always_answers [where E = E and refused = "[]" and ms = 5 and r = r and name = "''t''" and args = "[]"
        and w = "()"] out
    by (cases "fst (Execute E [] True 5 r ''t'' [] ())") (auto simp: t r_def [symmetric] split: prod.splits)
qed

section \<open>Summaries\<close>

record summaryResult =
  SumSuccess :: bool
  SumData :: "jval option"
  SumError :: string

definition parseSummaryResult ::
  "(string \<Rightarrow> summaryResult option) \<Rightarrow> string \<Rightarrow> summaryResult \<times> jobj option \<times> jval list option \<times> bool" where
  \<comment> \<open>the first argument decodes the text into the struct; \<^term>\<open>None\<close>: an error, with a zero struct\<close>
  "parseSummaryResult unmarshal result =
     (case unmarshal result of
        None \<Rightarrow> (\<lparr>SumSuccess = False, SumData = None, SumError = []\<rparr>, None, None, False)
      | Some r \<Rightarrow>
          if \<not> SumSuccess r then (r, None, None, True)
          else (case SumData r of
                  Some (JArr vs) \<Rightarrow> (r, None, Some vs, True)
                | Some (JObj m) \<Rightarrow> (r, Some m, None, True)
                | _ \<Rightarrow> (r, None, None, True)))"

definition summarizeError :: "string \<Rightarrow> string" where
  "summarizeError msg =
     ''{'' @ [dquote] @ ''success'' @ [dquote] @ '':false,'' @ [dquote] @ ''error'' @ [dquote] @ '':'' @ [dquote] @
     (if length msg > 150 then take 150 msg else msg) @ [dquote] @ ''}''"

definition summarizeTruncate :: "string \<Rightarrow> nat \<Rightarrow> string" where
  "summarizeTruncate s maxLen = (if length s \<le> maxLen then s else take maxLen s @ ''...'')"

definition GenericSummarize :: "(string \<Rightarrow> summaryResult option) \<Rightarrow> string \<Rightarrow> string" where
  "GenericSummarize unmarshal result =
     (let (r, m, arr, ok) = parseSummaryResult unmarshal result in
      if \<not> ok then summarizeTruncate result 200
      else if \<not> SumSuccess r then summarizeError (SumError r)
      else (case arr of
              Some vs \<Rightarrow> ''{'' @ [dquote] @ ''success'' @ [dquote] @ '':true,'' @ [dquote] @ ''summary'' @ [dquote] @ '':'' @
                 [dquote] @ ''Returned '' @ show_nat (length vs) @ '' items'' @ [dquote] @ ''}''
            | None \<Rightarrow> summarizeTruncate result 300))"

lemma json_escape_longer: "length s \<le> length (json_escape s)"
proof (induction s rule: json_escape.induct)
  case (2 c cs)
  have "1 \<le> length (json_escape_char c)" by (simp add: json_escape_char_def Let_def)
  moreover have "length cs \<le> 2 + length (drop 2 cs)" by simp
  ultimately show ?case using 2 by (auto simp del: length_drop)
qed simp

text \<open>
  The short form kept of a failed result is the JSON text of that result exactly when the message is
  not empty, has at most 150 bytes and holds no character that JSON escapes.
\<close>
theorem summarizeError_json:
  "summarizeError msg = marshal_error msg \<longleftrightarrow> msg \<noteq> [] \<and> length msg \<le> 150 \<and> json_escape msg = msg"
proof -
  have keys: "json_escape ''success'' = ''success''" "json_escape ''error'' = ''error''"
    by (simp_all add: json_escape_char_def)
  have "summarizeError msg = marshal_error msg \<longleftrightarrow>
      msg \<noteq> [] \<and> (if length msg > 150 then take 150 msg else msg) = json_escape msg"
    by (simp add: summarizeError_def marshal_error_text json_string_def keys del: json_escape.simps)
  moreover have "take 150 msg \<noteq> json_escape msg" if "length msg > 150"
    using json_escape_longer [of msg] that by (metis length_take linorder_not_less min.absorb2 nat_less_le)
  ultimately show ?thesis by auto
qed

section \<open>Owner approvals\<close>

definition approvalKeyPrefix :: string where
  "approvalKeyPrefix = ''approval:''"

fun latest :: "answer_row list \<Rightarrow> answer_row option" where
  \<comment> \<open>\<^verbatim>\<open>ORDER BY created_at DESC LIMIT 1\<close>; SQL leaves open which of two answers of the same second comes first\<close>
  "latest [] = None"
| "latest (a # as) =
     (case latest as of
        None \<Rightarrow> Some a
      | Some b \<Rightarrow> if a_created_at b > a_created_at a then Some b else Some a)"

definition approval_answer :: "string \<Rightarrow> site_db \<Rightarrow> string option" where
  "approval_answer actionKey b =
     map_option a_answer
       (latest (concat (map (\<lambda>q. filter (\<lambda>a. a_question_id a = q_id q) (answers b))
          (filter (\<lambda>q. q_context q = approvalKeyPrefix @ actionKey) (questions b)))))"

definition approves :: "string \<Rightarrow> bool" where
  "approves answer \<longleftrightarrow>
     (let l = to_lower (trim_space answer)
      in l \<in> {''approve'', ''yes'', ''approved''} \<or> has_prefix ''yes'' l \<or> has_prefix ''approve'' l)"

definition denies :: "string \<Rightarrow> bool" where
  "denies answer \<longleftrightarrow>
     to_lower (trim_space answer) \<in> {''deny'', ''no'', ''denied'', ''reject'', ''rejected'', ''cancel''}"

definition CheckApproval :: "deps \<Rightarrow> string \<Rightarrow> bool eff" where
  "CheckApproval d actionKey =
     do { r \<leftarrow> Query d (approval_answer actionKey);
          ret (case r of Inr (Some a) \<Rightarrow> approves a | _ \<Rightarrow> False) }"

definition isApprovalDenied :: "deps \<Rightarrow> string \<Rightarrow> bool eff" where
  "isApprovalDenied d actionKey =
     do { r \<leftarrow> Query d (approval_answer actionKey);
          ret (case r of Inr (Some a) \<Rightarrow> denies a | _ \<Rightarrow> False) }"

definition pending_approvals :: "string \<Rightarrow> site_db \<Rightarrow> question_row list" where
  "pending_approvals actionKey b =
     filter (\<lambda>q. q_context q = approvalKeyPrefix @ actionKey \<and> q_status q = ''pending'') (questions b)"

definition approval_question :: "int \<Rightarrow> string \<Rightarrow> string \<Rightarrow> question_row" where
  "approval_question i question actionKey =
     \<lparr>q_id = i, q_question = question, q_urgency = ''high'', q_status = ''pending'',
      q_options = [''Approve, Deny''], q_type = ''approval'', q_context = approvalKeyPrefix @ actionKey\<rparr>"

definition approval_required :: "string \<Rightarrow> string" where
  "approval_required detail =
     ''APPROVAL_REQUIRED: '' @ detail @ '' This action requires owner approval. '' @
     ''A question has been created'' @
     '' in the admin panel. The pipeline will resume automatically when the owner responds.''"

definition RequestApproval :: "deps \<Rightarrow> bool \<Rightarrow> string \<Rightarrow> string \<Rightarrow> string \<Rightarrow> Result eff" where
  "RequestApproval d has_bus actionKey question detail =
     do { denied \<leftarrow> isApprovalDenied d actionKey;
          if denied then ret (failure (''ACTION_DENIED: The owner denied this action. '' @ detail))
          else
            do { existing \<leftarrow> Query d (pending_approvals actionKey);
                 (if existing = Inr []
                  then do { w \<leftarrow> State_Monad.get;
                            let i = fresh_id (map q_id (questions (sdb w)));
                            e \<leftarrow> ExecWrite d (\<lambda>b. b\<lparr>questions := questions b @ [approval_question i question actionKey]\<rparr>);
                            (if e = None \<and> has_bus
                             then publish ''question.asked''
                                    [(''id'', JNum (of_int i)), (''question'', JStr question),
                                     (''options'', JStr ''Approve, Deny''), (''urgency'', JStr ''high''),
                                     (''type'', JStr ''approval'')]
                             else ret ()) }
                  else ret ());
                 exec_ignore d (on_row (\<lambda>r. r\<lparr>Paused := True, PauseReason := Some PauseReasonApproval\<rparr>));
                 ret (failure (approval_required detail)) } }"

definition LogDestructiveAction :: "deps \<Rightarrow> string \<Rightarrow> string \<Rightarrow> string \<Rightarrow> unit eff" where
  "LogDestructiveAction d tool action target =
     do { t \<leftarrow> consult (now_at d);
          exec_ignore d (\<lambda>b. b\<lparr>brain_log := brain_log b @ [\<lparr>bl_event_type = ''destructive_action'',
            bl_summary = ''Destructive: '' @ tool @ [CHR '' '', CHR 0xE2, CHR 0x86, CHR 0x92, CHR '' ''] @ action @
              '' on '' @ quote target,
            bl_details = [], bl_tokens = 0, bl_model = [], bl_created_at = t\<rparr>]\<rparr>) }"

lemma approval_required_says: "contains (approval_required detail) ''A question has been created''"
proof -
  have "contains (a @ b @ c @ s @ t) s" for a b c s t
    unfolding contains_iff by (metis append.assoc)
  then show ?thesis unfolding approval_required_def .
qed

lemma pending_approval_question:
  "q_context (approval_question i question key) = approvalKeyPrefix @ key"
  "q_status (approval_question i question key) = ''pending''"
  by (simp_all add: approval_question_def)

lemma approves_not_denies: "denies a \<Longrightarrow> \<not> approves a"
  by (auto simp: approves_def denies_def has_prefix_def)

definition paused_for_approval :: "world \<Rightarrow> bool" where
  "paused_for_approval w \<longleftrightarrow> Paused (pipeline (sdb w)) \<and> PauseReason (pipeline (sdb w)) = Some PauseReasonApproval"

text \<open>
  C13. Asking for an approval when the database answers never lets the action through. If the owner's latest
  answer denies it, nothing changes; otherwise the pipeline is paused for the approval and exactly one
  question is pending for a key that had none, while a key with a pending question gets no second one.
\<close>
theorem RequestApproval_asks_once:
  assumes "no_faults d" "run_state (RequestApproval d has_bus key question detail) w = (r, w')"
  shows "\<not> Success r \<and>
    (if (case approval_answer key (sdb w) of Some a \<Rightarrow> denies a | None \<Rightarrow> False)
     then sdb w' = sdb w \<and> published w' = published w
     else paused_for_approval w' \<and> answers (sdb w') = answers (sdb w) \<and>
       (if pending_approvals key (sdb w) = []
        then (\<exists>i. pending_approvals key (sdb w') = [approval_question i question key] \<and>
              questions (sdb w') = questions (sdb w) @ [approval_question i question key])
        else questions (sdb w') = questions (sdb w)))"
proof -
  have faults: "db_fault d n = None" for n using assms(1) by (simp add: no_faults_def)
  show ?thesis
    using assms(2)
    by (auto simp: RequestApproval_def isApprovalDenied_def run_simps faults paused_for_approval_def on_row_def
        pending_approvals_def pending_approval_question Let_def split: if_splits option.splits)
qed

theorem RequestApproval_asks_once_witness:
  "paused_for_approval (snd (run_state (RequestApproval quiet_deps True ''drop:users'' ''Drop users?'' []) fresh_world))"
  using RequestApproval_asks_once [OF quiet_no_faults prod.collapse [symmetric],
      of True "''drop:users''" "''Drop users?''" "[]" fresh_world]
  by (simp add: fresh_world_def approval_answer_def)

text \<open>
  When the look-up of a pending question fails, the pipeline is paused for an approval that nobody was
  asked for: no question is stored, and the reply says that one was created.
\<close>
theorem approval_pause_without_question:
  assumes "db_fault d (tick w) = None" "db_fault d (Suc (tick w)) = Some e" "db_fault d (Suc (Suc (tick w))) = None"
    and "approval_answer key (sdb w) = None"
  shows "case run_state (RequestApproval d has_bus key question detail) w of
    (r, w') \<Rightarrow> paused_for_approval w' \<and> questions (sdb w') = questions (sdb w) \<and>
      contains (Error r) ''A question has been created''"
  using assms
  by (simp add: RequestApproval_def isApprovalDenied_def run_simps paused_for_approval_def on_row_def
      approval_required_says)

theorem approval_pause_without_question_witness:
  "\<exists>w'. run_state (RequestApproval (quiet_deps\<lparr>db_fault := (\<lambda>n. if n = 1 then Some ''locked'' else None)\<rparr>)
       True ''drop:users'' ''Drop users?'' []) fresh_world = w' \<and>
     paused_for_approval (snd w') \<and> questions (sdb (snd w')) = []"
  using approval_pause_without_question
    [of "quiet_deps\<lparr>db_fault := (\<lambda>n. if n = 1 then Some ''locked'' else None)\<rparr>" fresh_world "''locked''"
        "''drop:users''" True "''Drop users?''" "[]"]
  by (simp add: fresh_world_def approval_answer_def split: prod.splits)

end
