(* ===== verification/Scheduler.thy ===== *)
theory Scheduler
  imports Cron Manager ToolCore
begin

text \<open>
  Scheduled tasks: the scheduler's loop body of \<^verbatim>\<open>brain/scheduler.go\<close>, which dispatches due tasks to the
  workers and computes their next run, and the tool \<^verbatim>\<open>manage_scheduler\<close> of \<^verbatim>\<open>tools/scheduler.go\<close>. The
  scheduler sees the databases of the open sites and the brain manager; each statement may fail. A result
  \<^term>\<open>None\<close> means that a loop of the cron parser does not end, so the scheduler's goroutine hangs.
\<close>

section \<open>Computing the next run\<close>

definition interval_span :: "int \<Rightarrow> int" where
  \<comment> \<open>\<^verbatim>\<open>time.Duration(n) * time.Second\<close>, a product of 64-bit integers\<close>
  "interval_span n = wrap64 (n * second_ns)"

definition task_next_run :: "location \<Rightarrow> string option \<Rightarrow> int option \<Rightarrow> instant \<Rightarrow> instant option option" where
  \<comment> \<open>\<^term>\<open>Some None\<close>: the task has no schedule\<close>
  "task_next_run loc cron interval now =
     (case cron of
        Some (c # cs) \<Rightarrow> map_option Some (NextTime loc (c # cs) now)
      | _ \<Rightarrow> (case interval of
               Some n \<Rightarrow> Some (if n > 0 then Some (now + interval_span n) else None)
             | None \<Rightarrow> Some None))"

lemma next_loop_ge: "next_loop loc cs limit c = Some r \<Longrightarrow> c \<le> r"
proof (induction loc cs limit c rule: next_loop.induct)
  case (1 loc cs limit c)
  then show ?case
    using advance_gt [of c loc cs]
    by (subst (asm) (2) next_loop.simps) (auto split: if_splits)
qed

lemma search_start_gt: "after < search_start after"
  using Truncate_le [of minute_ns after] by (simp add: search_start_def)

lemma NextTime_future: "NextTime loc expr after = Some r \<Longrightarrow> after < r"
  using search_start_gt [of after]
  by (auto simp: NextTime_def Let_def split: if_splits option.splits dest: next_loop_ge order.strict_trans2)

lemma interval_span_pos: "0 < n \<Longrightarrow> n \<le> 9223372036 \<Longrightarrow> interval_span n = n * second_ns"
  by (simp add: interval_span_def wrap64_id min_int_def max_int_def)

definition interval_fits :: "int option \<Rightarrow> bool" where
  "interval_fits i \<longleftrightarrow> (case i of Some n \<Rightarrow> n \<le> 9223372036 | None \<Rightarrow> True)"

lemma task_next_run_future:
  "task_next_run loc cron interval now = Some (Some r) \<Longrightarrow> interval_fits interval \<Longrightarrow> now < r"
  by (auto simp: task_next_run_def interval_fits_def interval_span_pos
      split: option.splits list.splits if_splits dest: NextTime_future)

definition schedule_valid :: "string option \<Rightarrow> bool" where
  "schedule_valid cron \<longleftrightarrow>
     (case cron of
        Some (c # cs) \<Rightarrow> Validate (c # cs) = None \<and> list_all step_small (str_fields (c # cs))
      | _ \<Rightarrow> True)"

lemma NextTime_returns:
  "Validate e = None \<Longrightarrow> list_all step_small (str_fields e) \<Longrightarrow> \<exists>r. NextTime loc e now = Some r"
  using parse_sets_valid [of e] by (auto simp: NextTime_def)

lemma task_next_run_returns: "schedule_valid cron \<Longrightarrow> \<exists>r. task_next_run loc cron interval now = Some r"
  using NextTime_returns [of _ loc now]
  by (auto simp: task_next_run_def schedule_valid_def split: option.splits list.splits)

section \<open>Dispatching due tasks\<close>

record sched =
  dbs_of :: "int \<Rightarrow> site_db"
  brain :: BrainManager
  clock :: nat

definition sched_write :: "(nat \<Rightarrow> string option) \<Rightarrow> int \<Rightarrow> (site_db \<Rightarrow> site_db) \<Rightarrow> sched \<Rightarrow> string option \<times> sched" where
  \<comment> \<open>\<^verbatim>\<open>siteDB.ExecWrite\<close>\<close>
  "sched_write fault sid f s =
     (case fault (clock s) of
        Some e \<Rightarrow> (Some e, s\<lparr>clock := Suc (clock s)\<rparr>)
      | None \<Rightarrow> (None, s\<lparr>dbs_of := (dbs_of s)(sid := f (dbs_of s sid)), clock := Suc (clock s)\<rparr>))"

definition is_due :: "instant \<Rightarrow> task_row \<Rightarrow> bool" where
  "is_due now t \<longleftrightarrow> t_enabled t \<and> (case t_next_run t of Some n \<Rightarrow> n \<le> now | None \<Rightarrow> False)"

definition run_command :: "task_row \<Rightarrow> int \<Rightarrow> BrainCommand" where
  "run_command t runID =
     \<lparr>CmdType = ''scheduled_task'',
      Payload = Some [(''prompt'', JStr (t_prompt t)), (''task_id'', JNum (of_int (t_id t))),
                      (''run_id'', JNum (of_int runID))]\<rparr>"

definition record_run :: "(nat \<Rightarrow> string option) \<Rightarrow> int \<Rightarrow> task_row \<Rightarrow> sched \<Rightarrow> int \<times> sched" where
  \<comment> \<open>the identifier of the run, 0 when the insert failed\<close>
  "record_run fault sid t s =
     (let i = fresh_id (map tr_id (task_runs (dbs_of s sid)));
          (e, s') = sched_write fault sid (\<lambda>b. b\<lparr>task_runs := task_runs b @
             [\<lparr>tr_id = i, tr_task_id = t_id t, tr_status = ''running'', tr_error = None\<rparr>]\<rparr>) s
      in (case e of None \<Rightarrow> i | Some _ \<Rightarrow> 0, s'))"

definition send_run :: "(nat \<Rightarrow> string option) \<Rightarrow> int \<Rightarrow> task_row \<Rightarrow> int \<Rightarrow> sched \<Rightarrow> sched" where
  "send_run fault sid t runID s =
     (case SendCommand sid (run_command t runID) (brain s) of
        (Inr _, m) \<Rightarrow> s\<lparr>brain := m\<rparr>
      | (Inl e, m) \<Rightarrow>
          (if runID > 0
           then snd (sched_write fault sid (on_run runID (\<lambda>r. r\<lparr>tr_status := ''failed'',
                  tr_error := Some (''dispatch error: '' @ e)\<rparr>)) (s\<lparr>brain := m\<rparr>))
           else s\<lparr>brain := m\<rparr>))"

definition reschedule :: "instant \<Rightarrow> instant option \<Rightarrow> task_row \<Rightarrow> task_row" where
  \<comment> \<open>a task without a schedule is disabled\<close>
  "reschedule now next t =
     (case next of
        Some r \<Rightarrow> t\<lparr>t_last_run := Some now, t_next_run := Some r\<rparr>
      | None \<Rightarrow> t\<lparr>t_enabled := False, t_last_run := Some now\<rparr>)"

definition dispatch_task ::
  "location \<Rightarrow> (nat \<Rightarrow> string option) \<Rightarrow> int \<Rightarrow> instant \<Rightarrow> task_row \<Rightarrow> sched \<Rightarrow> sched option" where
  "dispatch_task loc fault sid now t s =
     (let (runID, s1) = record_run fault sid t s;
          s2 = send_run fault sid t runID s1
      in map_option (\<lambda>next. snd (sched_write fault sid (on_task (t_id t) (reschedule now next)) s2))
           (task_next_run loc (t_cron t) (t_interval t) now))"

fun dispatch_tasks ::
  "location \<Rightarrow> (nat \<Rightarrow> string option) \<Rightarrow> int \<Rightarrow> instant \<Rightarrow> task_row list \<Rightarrow> sched \<Rightarrow> sched option" where
  "dispatch_tasks loc fault sid now [] s = Some s"
| "dispatch_tasks loc fault sid now (t # ts) s =
     Option.bind (dispatch_task loc fault sid now t s) (dispatch_tasks loc fault sid now ts)"

definition checkDueTasksForSite ::
  "location \<Rightarrow> (nat \<Rightarrow> string option) \<Rightarrow> instant \<Rightarrow> int \<Rightarrow> sched \<Rightarrow> sched option" where
  "checkDueTasksForSite loc fault now sid s =
     (let s' = s\<lparr>clock := Suc (clock s)\<rparr> in
      case fault (clock s) of
        Some _ \<Rightarrow> Some s'
      | None \<Rightarrow> dispatch_tasks loc fault sid now (filter (is_due now) (scheduled_tasks (dbs_of s sid))) s')"

fun checkDueTasks ::
  "location \<Rightarrow> (nat \<Rightarrow> string option) \<Rightarrow> instant \<Rightarrow> (int \<Rightarrow> bool) \<Rightarrow> int list \<Rightarrow> sched \<Rightarrow> sched option" where
  \<comment> \<open>over \<^verbatim>\<open>OpenSiteIDs\<close>; a site closed since then is skipped\<close>
  "checkDueTasks loc fault now is_open [] s = Some s"
| "checkDueTasks loc fault now is_open (sid # sids) s =
     (if is_open sid
      then Option.bind (checkDueTasksForSite loc fault now sid s) (checkDueTasks loc fault now is_open sids)
      else checkDueTasks loc fault now is_open sids s)"

fun init_tasks ::
  "location \<Rightarrow> (nat \<Rightarrow> string option) \<Rightarrow> int \<Rightarrow> instant \<Rightarrow> task_row list \<Rightarrow> sched \<Rightarrow> sched option" where
  "init_tasks loc fault sid now [] s = Some s"
| "init_tasks loc fault sid now (t # ts) s =
     (case task_next_run loc (t_cron t) (t_interval t) now of
        None \<Rightarrow> None
      | Some None \<Rightarrow> init_tasks loc fault sid now ts s
      | Some (Some r) \<Rightarrow>
          init_tasks loc fault sid now ts
            (snd (sched_write fault sid (on_task (t_id t) (\<lambda>u. u\<lparr>t_next_run := Some r\<rparr>)) s)))"

definition initializeNextRunForSite ::
  "location \<Rightarrow> (nat \<Rightarrow> string option) \<Rightarrow> instant \<Rightarrow> int \<Rightarrow> sched \<Rightarrow> sched option" where
  "initializeNextRunForSite loc fault now sid s =
     (let s' = s\<lparr>clock := Suc (clock s)\<rparr> in
      case fault (clock s) of
        Some _ \<Rightarrow> Some s'
      | None \<Rightarrow> init_tasks loc fault sid now
                  (filter (\<lambda>t. t_enabled t \<and> t_next_run t = None) (scheduled_tasks (dbs_of s sid))) s')"

section \<open>What a check does when the database answers\<close>

lemma fresh_id_gt: "i \<in> set ids \<Longrightarrow> i < fresh_id ids"
  by (induction ids) (auto simp: fresh_id_def)

lemma fresh_id_pos: "0 < fresh_id ids"
  by (induction ids) (auto simp: fresh_id_def)

lemma on_run_fresh:
  "on_run (fresh_id (map tr_id (task_runs b))) f (b\<lparr>task_runs := task_runs b @ [r\<lparr>tr_id := fresh_id (map tr_id (task_runs b))\<rparr>]\<rparr>) =
     b\<lparr>task_runs := task_runs b @ [f (r\<lparr>tr_id := fresh_id (map tr_id (task_runs b))\<rparr>)]\<rparr>"
proof -
  have "map (\<lambda>r. if tr_id r = fresh_id (map tr_id (task_runs b)) then f r else r) (task_runs b) = task_runs b"
    using fresh_id_gt [of _ "map tr_id (task_runs b)"] by (intro map_idI) force
  then show ?thesis by (simp add: on_run_def)
qed

definition dispatched :: "int \<Rightarrow> BrainManager \<Rightarrow> task_row \<Rightarrow> site_db \<Rightarrow> task_run_row" where
  \<comment> \<open>the run that a dispatch records\<close>
  "dispatched sid m t b =
     (let i = fresh_id (map tr_id (task_runs b)) in
      case fst (SendCommand sid (run_command t i) m) of
        Inr _ \<Rightarrow> \<lparr>tr_id = i, tr_task_id = t_id t, tr_status = ''running'', tr_error = None\<rparr>
      | Inl e \<Rightarrow> \<lparr>tr_id = i, tr_task_id = t_id t, tr_status = ''failed'',
                  tr_error = Some (''dispatch error: '' @ e)\<rparr>)"

lemma dispatch_task_run:
  assumes "fault = (\<lambda>_. None)" "task_next_run loc (t_cron t) (t_interval t) now = Some next"
  shows "\<exists>s'. dispatch_task loc fault sid now t s = Some s' \<and>
     dbs_of s' = (dbs_of s)(sid := on_task (t_id t) (reschedule now next) ((dbs_of s sid)\<lparr>task_runs :=
        task_runs (dbs_of s sid) @ [dispatched sid (brain s) t (dbs_of s sid)]\<rparr>)) \<and>
     brain s' = snd (SendCommand sid (run_command t (fresh_id (map tr_id (task_runs (dbs_of s sid))))) (brain s))"
  using assms on_run_fresh [of "dbs_of s sid" _ "\<lparr>tr_id = 0, tr_task_id = t_id t, tr_status = ''running'', tr_error = None\<rparr>"]
    fresh_id_pos [of "map tr_id (task_runs (dbs_of s sid))"]
  by (auto simp: dispatch_task_def record_run_def send_run_def sched_write_def Let_def dispatched_def
      split: prod.splits sum.splits)

definition free_slots :: "workerHandle \<Rightarrow> nat" where
  "free_slots h = commandCapacity - length (wh_commands h)"

definition deliver :: "workerHandle \<Rightarrow> task_row list \<Rightarrow> task_run_row list \<Rightarrow> workerHandle" where
  \<comment> \<open>as many of the tasks as the channel has room for, each with the identifier of its run\<close>
  "deliver h ts runs =
     h\<lparr>wh_commands := wh_commands h @
        take (free_slots h) (map2 run_command ts (map tr_id runs))\<rparr>"

definition run_statuses :: "nat \<Rightarrow> nat \<Rightarrow> string list" where
  "run_statuses room n = replicate (min room n) ''running'' @ replicate (n - room) ''failed''"

definition next_of :: "location \<Rightarrow> instant \<Rightarrow> task_row list \<Rightarrow> int \<Rightarrow> instant option option" where
  "next_of loc now ts = map_of (map (\<lambda>t. (t_id t, the (task_next_run loc (t_cron t) (t_interval t) now))) ts)"

definition rescheduled :: "location \<Rightarrow> instant \<Rightarrow> task_row list \<Rightarrow> task_row \<Rightarrow> task_row" where
  "rescheduled loc now ts u =
     (case next_of loc now ts (t_id u) of Some n \<Rightarrow> reschedule now n u | None \<Rightarrow> u)"

lemma SendCommand_run:
  assumes "worker_of m sid = Some h"
  shows "0 < free_slots h \<Longrightarrow> SendCommand sid cmd m = (Inr (), put_worker sid (h\<lparr>wh_commands := wh_commands h @ [cmd]\<rparr>) m)"
    and "free_slots h = 0 \<Longrightarrow> \<exists>e. SendCommand sid cmd m = (Inl e, m)"
  using assms by (simp_all add: SendCommand_def Send_def free_slots_def)

lemma reschedule_id [simp]: "t_id (reschedule now n t) = t_id t"
  by (simp add: reschedule_def split: option.splits)

lemma rescheduled_Cons:
  assumes "t_id t \<notin> t_id ` set ts" "task_next_run loc (t_cron t) (t_interval t) now = Some n"
  shows "map (rescheduled loc now ts) (map (\<lambda>u. if t_id u = t_id t then reschedule now n u else u) us) =
    map (rescheduled loc now (t # ts)) us"
proof -
  have "next_of loc now ts (t_id t) = None"
    using assms(1) by (simp add: next_of_def map_of_eq_None_iff image_image)
  then show ?thesis by (simp add: rescheduled_def next_of_def assms(2) split: option.splits)
qed

lemma run_statuses_Suc:
  "run_statuses (Suc k) (Suc n) = ''running'' # run_statuses k n"
  "run_statuses 0 (Suc n) = ''failed'' # run_statuses 0 n"
  by (simp_all add: run_statuses_def)

lemma dispatch_tasks_run:
  assumes fault: "fault = (\<lambda>_. None)"
    and "\<forall>t \<in> set ts. \<exists>r. task_next_run loc (t_cron t) (t_interval t) now = Some r"
    and "distinct (map t_id ts)" and "worker_of (brain s) sid = Some h"
  shows "\<exists>s' new. dispatch_tasks loc fault sid now ts s = Some s' \<and>
     (\<forall>x. x \<noteq> sid \<longrightarrow> dbs_of s' x = dbs_of s x) \<and>
     scheduled_tasks (dbs_of s' sid) = map (rescheduled loc now ts) (scheduled_tasks (dbs_of s sid)) \<and>
     task_runs (dbs_of s' sid) = task_runs (dbs_of s sid) @ new \<and>
     map tr_task_id new = map t_id ts \<and> map tr_status new = run_statuses (free_slots h) (length ts) \<and>
     worker_of (brain s') = (worker_of (brain s))(sid \<mapsto> deliver h ts new)"
  using assms(2-)
proof (induction ts arbitrary: s h)
  case Nil
  then show ?case by (auto simp: rescheduled_def next_of_def run_statuses_def deliver_def)
next
  case (Cons t ts)
  from Cons.prems(1) obtain n where n: "task_next_run loc (t_cron t) (t_interval t) now = Some n" by auto
  define b where "b = dbs_of s sid"
  define r where "r = dispatched sid (brain s) t b"
  define i where "i = fresh_id (map tr_id (task_runs b))"
  from dispatch_task_run [OF fault n, of sid s] obtain s1
    where s1: "dispatch_task loc fault sid now t s = Some s1"
      and db: "dbs_of s1 = (dbs_of s)(sid := on_task (t_id t) (reschedule now n) (b\<lparr>task_runs := task_runs b @ [r]\<rparr>))"
      and br: "brain s1 = snd (SendCommand sid (run_command t i) (brain s))"
    unfolding b_def r_def i_def by blast
  define h1 where "h1 = (if 0 < free_slots h then h\<lparr>wh_commands := wh_commands h @ [run_command t i]\<rparr> else h)"
  have ids: "tr_task_id r = t_id t" "tr_id r = i"
    by (simp_all add: r_def i_def dispatched_def Let_def split: sum.splits)
  have w1: "worker_of (brain s1) = (worker_of (brain s))(sid \<mapsto> h1)"
    using SendCommand_run [OF Cons.prems(3), of "run_command t i"] Cons.prems(3)
    by (auto simp: br h1_def workers_store.lookup_put map_upd_triv)
  have status: "tr_status r = (if 0 < free_slots h then ''running'' else ''failed'')"
    using SendCommand_run [OF Cons.prems(3), of "run_command t i"]
    by (auto simp: r_def dispatched_def i_def [symmetric] Let_def)
  from w1 have h1: "worker_of (brain s1) sid = Some h1" by simp
  have "\<forall>t \<in> set ts. \<exists>r. task_next_run loc (t_cron t) (t_interval t) now = Some r" "distinct (map t_id ts)"
    using Cons.prems(1,2) by simp_all
  from Cons.IH [OF this h1] obtain s' new
    where IH: "dispatch_tasks loc fault sid now ts s1 = Some s'"
      "\<forall>x. x \<noteq> sid \<longrightarrow> dbs_of s' x = dbs_of s1 x"
      "scheduled_tasks (dbs_of s' sid) = map (rescheduled loc now ts) (scheduled_tasks (dbs_of s1 sid))"
      "task_runs (dbs_of s' sid) = task_runs (dbs_of s1 sid) @ new"
      "map tr_task_id new = map t_id ts" "map tr_status new = run_statuses (free_slots h1) (length ts)"
      "worker_of (brain s') = (worker_of (brain s1))(sid \<mapsto> deliver h1 ts new)"
    by blast
  have room: "free_slots h = Suc (free_slots h1) \<or> free_slots h = 0 \<and> h1 = h"
    by (auto simp: h1_def free_slots_def)
  have "map tr_status (r # new) = run_statuses (free_slots h) (length (t # ts))"
    using room by (auto simp: status IH(6) run_statuses_Suc)
  moreover have "deliver h1 ts new = deliver h (t # ts) (r # new)"
    using room by (cases "free_slots h") (auto simp: deliver_def ids h1_def)
  moreover have "scheduled_tasks (dbs_of s' sid) = map (rescheduled loc now (t # ts)) (scheduled_tasks b)"
    using Cons.prems(2) by (subst rescheduled_Cons [OF _ n, symmetric]) (simp_all add: IH(3) db on_task_def)
  ultimately show ?case
    using s1 IH(1,2,4,5,7) w1 by (intro exI [of _ s'] exI [of _ "r # new"]) (simp add: db on_task_def b_def ids)
qed

definition task_ok :: "task_row \<Rightarrow> bool" where
  \<comment> \<open>a valid expression or an interval whose nanoseconds fit 63 bits (292 years)\<close>
  "task_ok t \<longleftrightarrow> schedule_valid (t_cron t) \<and> interval_fits (t_interval t)"

lemma task_ok_returns: "task_ok t \<Longrightarrow> \<exists>r. task_next_run loc (t_cron t) (t_interval t) now = Some r"
  unfolding task_ok_def by (blast intro: task_next_run_returns)

lemma next_of_distinct:
  assumes "distinct (map t_id us)" "t \<in> set us"
  shows "next_of loc now (filter P us) (t_id t) =
    (if P t then Some (the (task_next_run loc (t_cron t) (t_interval t) now)) else None)"
proof (cases "P t")
  case True
  with assms show ?thesis
    unfolding next_of_def
    by (subst map_of_eq_Some_iff [of _ "t_id t", THEN iffD2])
      (auto simp: distinct_map_filter o_def image_iff intro!: bexI [of _ t])
next
  case False
  have "t_id t \<notin> t_id ` set (filter P us)"
    using assms False by (auto simp: distinct_map inj_on_def)
  with False show ?thesis by (simp add: next_of_def map_of_eq_None_iff image_image)
qed

lemma rescheduled_not_due:
  assumes "task_ok t" "is_due now t"
  shows "\<not> is_due now (reschedule now (the (task_next_run loc (t_cron t) (t_interval t) now)) t)"
proof -
  from task_ok_returns [OF assms(1)] obtain n
    where n: "task_next_run loc (t_cron t) (t_interval t) now = Some n" by blast
  with assms(1) show ?thesis
    by (cases n) (auto simp: reschedule_def is_due_def task_ok_def dest: task_next_run_future)
qed


definition nightly :: task_row where
  "nightly = \<lparr>t_id = 3, t_name = ''report'', t_description = None, t_prompt = ''Write the report'',
     t_cron = Some ''0 9 * * 1-5'', t_interval = Some 0, t_enabled = True, t_last_run = None, t_next_run = Some 5,
     t_run_count = 0, t_error_count = 0\<rparr>"

definition one_worker :: sched where
  "one_worker = \<lparr>dbs_of = (\<lambda>_. (sdb fresh_world)\<lparr>scheduled_tasks := [nightly]\<rparr>),
     brain = put_worker 1 \<lparr>wh_commands = [], wh_state = StateMonitoring\<rparr> NewBrainManager, clock = 0\<rparr>"

lemma nightly_ok: "task_ok nightly"
  using Validate_weekdays_at_nine step_small_weekdays_at_nine
  by (simp add: task_ok_def schedule_valid_def nightly_def interval_fits_def)


text \<open>
  An interval between $2^{63}/10^9$ and $2^{64}/10^9$ seconds overflows the duration: the computed next
  run lies in the past, so the task stays due after every pass and is dispatched again each time.
\<close>
theorem huge_interval_stays_due:
  assumes "t_cron t = None" "t_interval t = Some n" "9223372037 \<le> n" "n \<le> 18446744073" "t_enabled t"
  shows "\<exists>r. task_next_run loc (t_cron t) (t_interval t) now = Some (Some r) \<and> r < now \<and>
    is_due now (reschedule now (Some r) t)"
proof -
  have "interval_span n = n * second_ns - 18446744073709551616"
  proof -
    have "(n * second_ns + 9223372036854775808) mod 18446744073709551616 =
        (n * second_ns + 9223372036854775808 - 18446744073709551616) mod 18446744073709551616"
      by (rule minus_mod_self2 [symmetric])
    also have "\<dots> = n * second_ns + 9223372036854775808 - 18446744073709551616"
      using assms(3,4) by (intro mod_pos_pos_trivial) auto
    finally show ?thesis by (simp add: interval_span_def wrap64_def)
  qed
  with assms show ?thesis by (auto simp: task_next_run_def reschedule_def is_due_def)
qed

theorem huge_interval_stays_due_witness:
  "\<exists>r. task_next_run 0 None (Some 10000000000) 100 = Some (Some r) \<and> r < 100"
  using huge_interval_stays_due [of "nightly\<lparr>t_cron := None, t_interval := Some 10000000000\<rparr>" 10000000000 0 100]
  by (auto simp: nightly_def)

section \<open>The tool \<^verbatim>\<open>manage_scheduler\<close>\<close>

fun cron_error_text :: "cron_error \<Rightarrow> string" where
  "cron_error_text (FieldCount n) =
     ''must have 5 fields (minute hour day_of_month month day_of_week), got '' @ show_nat n"
| "cron_error_text (FieldError i name e) = ''field '' @ show_nat i @ '' ('' @ name @ ''): '' @ cron_error_text e"
| "cron_error_text EmptyValue = ''empty value''"
| "cron_error_text (InvalidStep s) = ''invalid step '' @ quote s"
| "cron_error_text (InvalidValue s) = ''invalid value '' @ quote s"
| "cron_error_text (OutOfRange v mn mx) =
     ''value '' @ show_int v @ '' out of range '' @ show_int mn @ ''-'' @ show_int mx"
| "cron_error_text (InvalidRangeStart s) = ''invalid range start '' @ quote s"
| "cron_error_text (InvalidRangeEnd s) = ''invalid range end '' @ quote s"
| "cron_error_text (InvalidRange a b mn mx) =
     ''range '' @ show_int a @ ''-'' @ show_int b @ '' invalid (must be within '' @ show_int mn @ ''-'' @ show_int mx @ '')''"

definition computeNextRun :: "location \<Rightarrow> string \<Rightarrow> int \<Rightarrow> instant \<Rightarrow> instant option" where
  "computeNextRun loc cronExpr intervalSec now =
     (if cronExpr \<noteq> [] then NextTime loc cronExpr now
      else if intervalSec > 0 then Some (now + interval_span intervalSec)
      else Some (now + hour_ns))"

abbreviation replied :: "Result \<Rightarrow> tool_outcome option eff" where
  "replied r \<equiv> ret (Some (Returned (Some r) None))"

abbreviation refused :: "string \<Rightarrow> tool_outcome option eff" where
  "refused e \<equiv> ret (Some (Returned None (Some e)))"

definition invalid_cron :: "cron_error \<Rightarrow> Result" where
  "invalid_cron e = failure (''invalid cron expression: '' @ cron_error_text e)"

definition executeCreate :: "deps \<Rightarrow> location \<Rightarrow> instant \<Rightarrow> jobj \<Rightarrow> tool_outcome option eff" where
  \<comment> \<open>\<^term>\<open>None\<close>: the cron parser does not return\<close>
  "executeCreate d loc now args =
     (let name = get_str args ''name''; prompt = get_str args ''prompt'';
          cronExpr = get_str args ''cron_expression''; intervalSec = get_num args ''interval_seconds''
      in if name = [] \<or> prompt = [] then replied (failure ''name and prompt are required'')
      else (case (if cronExpr = [] then None else Validate cronExpr) of
          Some e \<Rightarrow> replied (invalid_cron e)
        | None \<Rightarrow>
            (case (if cronExpr \<noteq> [] then map_option Some (computeNextRun loc cronExpr 0 now)
                   else if intervalSec > 0 then map_option Some (computeNextRun loc [] (trunc_rat intervalSec) now)
                   else Some None) of
               None \<Rightarrow> ret None
             | Some nextRun \<Rightarrow>
                 do { w \<leftarrow> State_Monad.get;
                      let i = fresh_id (map t_id (scheduled_tasks (sdb w)));
                      e \<leftarrow> ExecWrite d (\<lambda>b. b\<lparr>scheduled_tasks := scheduled_tasks b @
                        [\<lparr>t_id = i, t_name = name, t_description = Some (get_str args ''description''),
                          t_prompt = prompt, t_cron = Some cronExpr, t_interval = Some (trunc_rat intervalSec),
                          t_enabled = True, t_last_run = None, t_next_run = nextRun,
                          t_run_count = 0, t_error_count = 0\<rparr>]\<rparr>);
                      case e of
                        Some err \<Rightarrow> refused (''creating task: '' @ err)
                      | None \<Rightarrow> replied (success (GObj ([(''id'', GInt i), (''name'', GStr name)] @
                          (case nextRun of Some r \<Rightarrow> [(''next_run'', GTime r)] | None \<Rightarrow> [])))) })))"

definition update_fields :: "jobj \<Rightarrow> task_row \<Rightarrow> task_row" where
  \<comment> \<open>the assignments of the \<^verbatim>\<open>SET\<close> clause\<close>
  "update_fields args t =
     (let t1 = (if get_str args ''name'' \<noteq> [] then t\<lparr>t_name := get_str args ''name''\<rparr> else t);
          t2 = (case map_of args ''description'' of Some (JStr s) \<Rightarrow> t1\<lparr>t_description := Some s\<rparr> | _ \<Rightarrow> t1);
          t3 = (case map_of args ''cron_expression'' of Some (JStr s) \<Rightarrow> t2\<lparr>t_cron := Some s\<rparr> | _ \<Rightarrow> t2);
          t4 = (case map_of args ''interval_seconds'' of Some (JNum q) \<Rightarrow> t3\<lparr>t_interval := Some (trunc_rat q)\<rparr> | _ \<Rightarrow> t3);
          t5 = (if get_str args ''prompt'' \<noteq> [] then t4\<lparr>t_prompt := get_str args ''prompt''\<rparr> else t4)
      in (case map_of args ''is_enabled'' of Some (JBool b) \<Rightarrow> t5\<lparr>t_enabled := b\<rparr> | _ \<Rightarrow> t5))"

definition schedule_changed :: "jobj \<Rightarrow> bool" where
  "schedule_changed args \<longleftrightarrow>
     (case map_of args ''cron_expression'' of Some (JStr _) \<Rightarrow> True | _ \<Rightarrow> False) \<or>
     (case map_of args ''interval_seconds'' of Some (JNum _) \<Rightarrow> True | _ \<Rightarrow> False)"

definition executeUpdate :: "deps \<Rightarrow> location \<Rightarrow> instant \<Rightarrow> jobj \<Rightarrow> tool_outcome option eff" where
  "executeUpdate d loc now args =
     (let i = trunc_rat (get_num args ''id''); cronExpr = get_str args ''cron_expression'' in
      if get_num args ''id'' = 0 then replied (failure ''id is required'')
      else (case (if cronExpr = [] then None else Validate cronExpr) of
          Some e \<Rightarrow> replied (invalid_cron e)
        | None \<Rightarrow>
            do { w \<leftarrow> State_Monad.get;
                 e \<leftarrow> ExecWrite d (on_task i (update_fields args));
                 case e of
                   Some err \<Rightarrow> refused (''updating task: '' @ err)
                 | None \<Rightarrow>
                     if i \<notin> t_id ` set (scheduled_tasks (sdb w)) then replied (failure ''task not found'')
                     else if schedule_changed args
                     then (case computeNextRun loc cronExpr (trunc_rat (get_num args ''interval_seconds'')) now of
                             None \<Rightarrow> ret None
                           | Some r \<Rightarrow>
                               do { exec_ignore d (on_task i (\<lambda>t. t\<lparr>t_next_run := Some r\<rparr>));
                                    replied (success (GObj [(''id'', GInt i)])) })
                     else replied (success (GObj [(''id'', GInt i)])) }))"

definition executeDelete :: "deps \<Rightarrow> (int \<Rightarrow> site_db \<Rightarrow> site_db) \<Rightarrow> jobj \<Rightarrow> tool_outcome option eff" where
  \<comment> \<open>the second argument: what the database does with the runs of a deleted task (the schema declares a
      cascade; whether it is enforced is a setting of the connection)\<close>
  "executeDelete d cascade args =
     (let i = trunc_rat (get_num args ''id'') in
      if get_num args ''id'' = 0 then replied (failure ''id is required'')
      else do { w \<leftarrow> State_Monad.get;
                e \<leftarrow> ExecWrite d (\<lambda>b. cascade i (b\<lparr>scheduled_tasks := filter (\<lambda>t. t_id t \<noteq> i) (scheduled_tasks b)\<rparr>));
                case e of
                  Some err \<Rightarrow> refused (''deleting task: '' @ err)
                | None \<Rightarrow>
                    if i \<notin> t_id ` set (scheduled_tasks (sdb w)) then replied (failure ''task not found'')
                    else replied (success (GObj [(''deleted_id'', GInt i)])) })"

lemma computeNextRun_future:
  "computeNextRun loc cronExpr n now = Some r \<Longrightarrow> n \<le> 9223372036 \<Longrightarrow> now < r"
  by (auto simp: computeNextRun_def interval_span_pos dest: NextTime_future split: if_splits)

definition new_task_ok :: "instant \<Rightarrow> rat \<Rightarrow> task_row list \<Rightarrow> task_row \<Rightarrow> bool" where
  "new_task_ok now interval ts t \<longleftrightarrow>
     t_id t \<notin> t_id ` set ts \<and> t_enabled t \<and> t_name t \<noteq> [] \<and>
     (\<exists>c. t_cron t = Some c \<and> (c = [] \<or> Validate c = None)) \<and>
     (case t_next_run t of Some n \<Rightarrow> now < n | None \<Rightarrow> t_cron t = Some [] \<and> interval \<le> 0)"



text \<open>
  Changing only the interval of a task that runs on a cron expression keeps the expression, which the
  scheduler prefers, yet computes the next run from the new interval alone.
\<close>
theorem update_ignores_stored_schedule:
  assumes "no_faults d" "get_num args ''id'' = rat_of_int i" "i \<noteq> 0"
    and "map_of args ''cron_expression'' = None" "map_of args ''interval_seconds'' = Some (JNum (rat_of_int n))" "0 < n"
    and "t \<in> set (scheduled_tasks (sdb w))" "t_id t = i"
  shows "case run_state (executeUpdate d loc now args) w of
    (_, w') \<Rightarrow> (\<exists>t'. t' \<in> set (scheduled_tasks (sdb w')) \<and> t_id t' = i \<and> t_cron t' = t_cron t \<and>
      t_interval t' = Some n \<and> t_next_run t' = Some (now + interval_span n))"
proof -
  have faults: "db_fault d n = None" for n using assms(1) by (simp add: no_faults_def)
  have trunc: "trunc_rat (rat_of_int k) = k" for k by (simp add: trunc_rat_def)
  define t' where "t' = (update_fields args t)\<lparr>t_next_run := Some (now + interval_span n)\<rparr>"
  have fields: "t_id (update_fields args t) = i" "t_cron (update_fields args t) = t_cron t"
    "t_interval (update_fields args t) = Some n"
    using assms(4,5,8) by (simp_all add: update_fields_def Let_def trunc split: option.splits jval.splits)
  have cron: "get_str args ''cron_expression'' = []" by (simp add: get_str_def as_string_def assms(4))
  have num: "get_num args ''interval_seconds'' = rat_of_int n" by (simp add: get_num_def assms(5))
  have "snd (run_state (executeUpdate d loc now args) w) = w\<lparr>tick := Suc (Suc (tick w)),
      sdb := on_task i (\<lambda>t. t\<lparr>t_next_run := Some (now + interval_span n)\<rparr>) (on_task i (update_fields args) (sdb w))\<rparr>"
    using assms(3,5-8)
    by (auto simp: executeUpdate_def run_simps faults Let_def assms(2) cron num trunc computeNextRun_def
        schedule_changed_def)
  moreover have "t' \<in> set (scheduled_tasks (on_task i (\<lambda>t. t\<lparr>t_next_run := Some (now + interval_span n)\<rparr>)
      (on_task i (update_fields args) (sdb w))))"
    using assms(7,8) by (auto simp: on_task_def t'_def fields image_iff intro!: bexI [of _ t])
  ultimately show ?thesis
    by (auto simp: t'_def fields split: prod.splits intro!: exI [of _ t'])
qed

theorem update_ignores_stored_schedule_witness:
  "\<exists>t'. t' \<in> set (scheduled_tasks (sdb (snd (run_state (executeUpdate quiet_deps 0 100
      [(''id'', JNum 3), (''interval_seconds'', JNum 60)])
      (fresh_world\<lparr>sdb := (sdb fresh_world)\<lparr>scheduled_tasks := [nightly]\<rparr>\<rparr>))))) \<and>
     t_cron t' = Some ''0 9 * * 1-5'' \<and> t_next_run t' = Some (100 + interval_span 60)"
  using update_ignores_stored_schedule [OF quiet_no_faults, of "[(''id'', JNum 3), (''interval_seconds'', JNum 60)]" 3 60
      nightly "fresh_world\<lparr>sdb := (sdb fresh_world)\<lparr>scheduled_tasks := [nightly]\<rparr>\<rparr>" 100 0]
  by (auto simp: get_num_def nightly_def split: prod.splits)

end
