(* ===== verification/Http.thy ===== *)
theory Http
  imports ToolCore
begin

text \<open>
  What the HTTP handlers share: requests, responses, and the middleware of \<^verbatim>\<open>server/middleware\<close>: the
  client address, cross-origin and security headers, request identifiers and the token-bucket rate
  limiter. The limiter is related to an abstract bucket that is never swept; the numbers of requests it
  admits are bounded. \<^verbatim>\<open>float64\<close> token counts are rationals, rounding is not modelled.
\<close>

section \<open>Requests and responses\<close>

record request =
  ReqMethod :: string
  URLPath :: string
  Query :: "(string \<times> string list) list"
  Header :: "string \<Rightarrow> string"
  Cookies :: "(string \<times> string) list"
  ReqHost :: string
  RemoteAddr :: string
  ReqBody :: string

definition query_get :: "request \<Rightarrow> string \<Rightarrow> string" where
  \<comment> \<open>\<^verbatim>\<open>Query().Get\<close>\<close>
  "query_get r k = (case map_of (Query r) k of Some (v # _) \<Rightarrow> v | _ \<Rightarrow> [])"

record response =
  Status :: nat
  RespHeaders :: "(string \<times> string) list"
  RespBody :: gval

definition json_response :: "nat \<Rightarrow> gval \<Rightarrow> response" where
  \<comment> \<open>\<^verbatim>\<open>writePublicJSON\<close>\<close>
  "json_response status v = \<lparr>Status = status, RespHeaders = [(''Content-Type'', ''application/json'')], RespBody = v\<rparr>"

definition error_response :: "nat \<Rightarrow> string \<Rightarrow> response" where
  \<comment> \<open>\<^verbatim>\<open>writePublicError\<close>\<close>
  "error_response status msg = json_response status (GObj [(''error'', GStr msg)])"

type_synonym headers = "(string \<times> string) list"

definition set_header :: "string \<Rightarrow> string \<Rightarrow> headers \<Rightarrow> headers" where
  "set_header k v hs = AList.update k v hs"

interpretation header_store: put_store map_of set_header
  by unfold_locales (simp add: set_header_def)

section \<open>Cross-origin headers\<close>

definition CORS :: "string list \<Rightarrow> request \<Rightarrow> headers \<Rightarrow> bool \<times> headers" where
  \<comment> \<open>false: the request is answered here, with status 204\<close>
  "CORS allowedOrigins r hs =
     (let allowAll = allowedOrigins = [] \<or> ''*'' \<in> set allowedOrigins;
          origin = Header r ''Origin'';
          hs1 = (if allowAll then set_header ''Access-Control-Allow-Origin'' ''*'' hs
                 else if origin \<noteq> [] \<and> origin \<in> set allowedOrigins
                 then set_header ''Vary'' ''Origin''
                   (set_header ''Access-Control-Allow-Credentials'' ''true''
                     (set_header ''Access-Control-Allow-Origin'' origin hs))
                 else hs);
          hs2 = set_header ''Access-Control-Max-Age'' ''86400''
                 (set_header ''Access-Control-Allow-Headers'' ''Accept, Authorization, Content-Type, X-Request-ID''
                   (set_header ''Access-Control-Allow-Methods'' ''GET, POST, PUT, DELETE, OPTIONS, PATCH'' hs1))
      in (ReqMethod r \<noteq> ''OPTIONS'', hs2))"

definition SecurityHeaders :: "headers \<Rightarrow> headers" where
  "SecurityHeaders hs =
     set_header ''Permissions-Policy'' ''camera=(self), microphone=(self), geolocation=()''
       (set_header ''Referrer-Policy'' ''strict-origin-when-cross-origin''
         (set_header ''X-Frame-Options'' ''SAMEORIGIN'' (set_header ''X-Content-Type-Options'' ''nosniff'' hs)))"

definition RequestID :: "string \<Rightarrow> request \<Rightarrow> headers \<Rightarrow> string \<times> headers" where
  \<comment> \<open>the first argument: the fresh UUID\<close>
  "RequestID fresh r hs =
     (let i = (if Header r ''X-Request-ID'' = [] then fresh else Header r ''X-Request-ID'')
      in (i, set_header ''X-Request-ID'' i hs))"

lemma CORS_credentials_exact:
  "map_of hs ''Access-Control-Allow-Credentials'' = None \<Longrightarrow>
   map_of hs ''Access-Control-Allow-Origin'' = None \<Longrightarrow> (ok, hs') = CORS allowed r hs \<Longrightarrow>
   map_of hs' ''Access-Control-Allow-Credentials'' = Some v \<Longrightarrow>
   map_of hs' ''Access-Control-Allow-Origin'' = Some (Header r ''Origin'') \<and> Header r ''Origin'' \<in> set allowed \<and>
   ''*'' \<notin> set allowed"
  by (auto simp: CORS_def Let_def header_store.lookup_put split: if_splits)

section \<open>The client address\<close>

definition SplitHostPort :: "string \<Rightarrow> (string \<times> string) option" where
  \<comment> \<open>of the package \<^verbatim>\<open>net\<close>; \<^term>\<open>None\<close> for its errors\<close>
  "SplitHostPort hp =
     (case last_index CHR '':'' hp of
        None \<Rightarrow> None
      | Some i \<Rightarrow>
          (if has_prefix ''['' hp
           then (case cut '']'' hp of
                   Some (a, b) \<Rightarrow>
                     (if Suc (length a) = i \<and> CHR ''['' \<notin> set (drop 1 hp) \<and> CHR '']'' \<notin> set b
                      then Some (drop 1 a, drop (Suc i) hp) else None)
                 | None \<Rightarrow> None)
           else if CHR '':'' \<in> set (take i hp) \<or> CHR ''['' \<in> set hp \<or> CHR '']'' \<in> set hp then None
           else Some (take i hp, drop (Suc i) hp)))"

definition ClientIP :: "request \<Rightarrow> string" where
  "ClientIP r =
     (let host = (case SplitHostPort (RemoteAddr r) of Some (h, _) \<Rightarrow> h | None \<Rightarrow> RemoteAddr r);
          xff = Header r ''X-Forwarded-For''; xri = Header r ''X-Real-IP''
      in if host \<in> {''127.0.0.1'', ''::1'', ''localhost''}
         then (if xff \<noteq> [] then (case cut '','' xff of Some (a, _) \<Rightarrow> trim_space a | None \<Rightarrow> trim_space xff)
               else if xri \<noteq> [] then trim_space xri
               else host)
         else host)"

lemma ClientIP_untrusted:
  "SplitHostPort (RemoteAddr r) = Some (h, p) \<Longrightarrow> h \<notin> {''127.0.0.1'', ''::1'', ''localhost''} \<Longrightarrow> ClientIP r = h"
  by (simp add: ClientIP_def)

section \<open>The rate limiter\<close>

record bucket =
  tokens :: rat
  lastCheck :: int

record RateLimiter =
  buckets :: "(string \<times> bucket) list"
  rate :: rat
  burst :: rat
  lastSweep :: int

definition NewRateLimiter :: "rat \<Rightarrow> int \<Rightarrow> int \<Rightarrow> RateLimiter" where
  "NewRateLimiter rt bst now = \<lparr>buckets = [], rate = rt, burst = of_int bst, lastSweep = now\<rparr>"

definition seconds :: "int \<Rightarrow> rat" where
  "seconds ns = of_int ns / 1000000000"

definition sweep :: "int \<Rightarrow> RateLimiter \<Rightarrow> RateLimiter" where
  "sweep now rl =
     (if now - lastSweep rl > 60000000000
      then rl\<lparr>buckets := filter (\<lambda>(k, b). now - lastCheck b \<le> 120000000000) (buckets rl), lastSweep := now\<rparr>
      else rl)"

definition refill :: "int \<Rightarrow> RateLimiter \<Rightarrow> bucket \<Rightarrow> rat" where
  "refill now rl b =
     (let t = tokens b + seconds (now - lastCheck b) * rate rl in if t > burst rl then burst rl else t)"

definition allow :: "string \<Rightarrow> int \<Rightarrow> RateLimiter \<Rightarrow> bool \<times> RateLimiter" where
  "allow ip now rl0 =
     (let rl = sweep now rl0;
          b = (case map_of (buckets rl) ip of Some b \<Rightarrow> b | None \<Rightarrow> \<lparr>tokens = burst rl, lastCheck = now\<rparr>);
          t = refill now rl b;
          put = (\<lambda>t. rl\<lparr>buckets := AList.update ip \<lparr>tokens = t, lastCheck = now\<rparr> (buckets rl)\<rparr>)
      in if t < 1 then (False, put t) else (True, put (t - 1)))"

definition http_error :: "nat \<Rightarrow> string \<Rightarrow> response" where
  \<comment> \<open>\<^verbatim>\<open>http.Error\<close>\<close>
  "http_error status text =
     \<lparr>Status = status,
      RespHeaders = [(''Content-Type'', ''text/plain; charset=utf-8''), (''X-Content-Type-Options'', ''nosniff'')],
      RespBody = GStr (text @ [nl])\<rparr>"

definition RateLimit :: "request \<Rightarrow> int \<Rightarrow> RateLimiter \<Rightarrow> response option \<times> RateLimiter" where
  \<comment> \<open>\<^verbatim>\<open>Handler\<close>: the answer 429, or nothing when the next handler runs\<close>
  "RateLimit r now rl =
     (let (ok, rl') = allow (ClientIP r) now rl
      in (if ok then None
          else Some (http_error 429 (''{'' @ quote ''error'' @ '':'' @ quote ''rate limit exceeded'' @ ''}'')), rl'))"

section \<open>The limiter as an abstract token bucket\<close>

definition level :: "RateLimiter \<Rightarrow> string \<Rightarrow> int \<Rightarrow> rat" where
  \<comment> \<open>the tokens an address has at a time\<close>
  "level rl ip now = (case map_of (buckets rl) ip of Some b \<Rightarrow> refill now rl b | None \<Rightarrow> burst rl)"

definition limiter_ok :: "int \<Rightarrow> RateLimiter \<Rightarrow> bool" where
  \<comment> \<open>a bucket refills within the two minutes after which it is swept\<close>
  "limiter_ok now rl \<longleftrightarrow> 0 \<le> rate rl \<and> 0 \<le> burst rl \<and> burst rl \<le> 120 * rate rl \<and> distinct (map fst (buckets rl)) \<and>
     (\<forall>ip b. map_of (buckets rl) ip = Some b \<longrightarrow> lastCheck b \<le> now \<and> 0 \<le> tokens b \<and> tokens b \<le> burst rl)"

lemma map_of_filter:
  "distinct (map fst xs) \<Longrightarrow> map_of (filter (\<lambda>(k, v). P v) xs) k =
     (case map_of xs k of Some v \<Rightarrow> if P v then Some v else None | None \<Rightarrow> None)"
proof (induction xs)
  case (Cons x xs)
  moreover have "fst x \<notin> fst ` set (filter (\<lambda>(k, v). P v) xs)" using Cons.prems by auto
  ultimately show ?case by (cases x) (auto simp: map_of_eq_None_iff split: option.splits)
qed simp

lemma sweep_fields [simp]: "rate (sweep now rl) = rate rl" "burst (sweep now rl) = burst rl"
  by (simp_all add: sweep_def)

lemma sweep_buckets:
  assumes "distinct (map fst (buckets rl))"
  shows "map_of (buckets (sweep now rl)) ip = map_of (buckets rl) ip \<or>
    map_of (buckets (sweep now rl)) ip = None \<and>
    (\<exists>b. map_of (buckets rl) ip = Some b \<and> now - lastCheck b > 120000000000)"
  using map_of_filter [OF assms, of "\<lambda>b. now - lastCheck b \<le> 120000000000" ip]
  by (auto simp: sweep_def split: option.splits)

lemma sweep_distinct: "distinct (map fst (buckets rl)) \<Longrightarrow> distinct (map fst (buckets (sweep now rl)))"
  by (simp add: sweep_def distinct_map_filter)

lemma sweep_ok: "limiter_ok now rl \<Longrightarrow> limiter_ok now (sweep now rl)"
  using sweep_buckets [of rl now] sweep_distinct [of rl now] unfolding limiter_ok_def by (metis option.distinct(1) sweep_fields)

lemma seconds_simps: "seconds (b - a) = seconds b - seconds a"
  by (simp add: seconds_def diff_divide_distrib)

lemma seconds_mono: "a \<le> b \<Longrightarrow> seconds a \<le> seconds b"
  by (simp add: seconds_def divide_right_mono)

lemma level_sweep:
  assumes "limiter_ok now rl" "now \<le> later"
  shows "level (sweep now rl) ip later = level rl ip later"
proof -
  have d: "distinct (map fst (buckets rl))" using assms(1) by (simp add: limiter_ok_def)
  have full: "refill later rl b = burst rl" if b: "map_of (buckets rl) ip = Some b" "now - lastCheck b > 120000000000" for b
  proof -
    have "seconds 120000000000 \<le> seconds (later - lastCheck b)" using b(2) assms(2) by (intro seconds_mono) simp
    then have "120 \<le> seconds (later - lastCheck b)" by (simp add: seconds_def)
    then have "120 * rate rl \<le> seconds (later - lastCheck b) * rate rl"
      using assms(1) by (intro mult_right_mono) (simp_all add: limiter_ok_def)
    moreover have "0 \<le> tokens b" "burst rl \<le> 120 * rate rl" using assms(1) b(1) by (auto simp: limiter_ok_def)
    ultimately show ?thesis by (simp add: refill_def Let_def)
  qed
  have refill: "refill later (sweep now rl) b = refill later rl b" for b by (simp add: refill_def Let_def)
  from sweep_buckets [OF d, of now ip] show ?thesis
    by (auto simp: level_def refill full split: option.splits)
qed
lemma level_later:
  assumes "limiter_ok t rl" "t \<le> now" "now \<le> later"
  shows "level rl ip later = min (burst rl) (level rl ip now + seconds (later - now) * rate rl)"
proof -
  have r: "0 \<le> rate rl" "0 \<le> burst rl" using assms(1) by (simp_all add: limiter_ok_def)
  have s: "0 \<le> seconds (later - now)" using assms(3) by (simp add: seconds_def)
  with r have g: "0 \<le> seconds (later - now) * rate rl" by simp
  show ?thesis
  proof (cases "map_of (buckets rl) ip")
    case None
    with g show ?thesis by (simp add: level_def min_def)
  next
    case (Some b)
    have "seconds (later - lastCheck b) * rate rl = seconds (now - lastCheck b) * rate rl + seconds (later - now) * rate rl"
      by (simp add: seconds_simps flip: distrib_right)
    with Some g show ?thesis by (auto simp: level_def refill_def Let_def min_def)
  qed
qed

lemma level_bounds:
  assumes "limiter_ok t rl" "t \<le> now"
  shows "0 \<le> level rl ip now" "level rl ip now \<le> burst rl"
proof -
  have nn: "0 \<le> burst rl" using assms(1) by (simp add: limiter_ok_def)
  have "0 \<le> refill now rl b" if "map_of (buckets rl) ip = Some b" for b
  proof -
    have "0 \<le> seconds (now - lastCheck b) * rate rl"
      using assms that by (fastforce simp: limiter_ok_def seconds_def intro!: mult_nonneg_nonneg)
    moreover have "0 \<le> tokens b" using assms(1) that by (auto simp: limiter_ok_def)
    ultimately show ?thesis using nn by (simp add: refill_def Let_def)
  qed
  then show "0 \<le> level rl ip now" using nn by (simp add: level_def split: option.splits)
  show "level rl ip now \<le> burst rl" using nn by (auto simp: level_def refill_def Let_def split: option.splits)
qed

lemma limiter_ok_later: "limiter_ok t rl \<Longrightarrow> t \<le> now \<Longrightarrow> limiter_ok now rl"
  by (fastforce simp: limiter_ok_def)

text \<open>
  C17. The limiter refines a bucket per address that is never swept: a request is admitted exactly when
  its address has a token left, which it then takes, and no other address is affected, now or later.
  Its token counts stay between zero and the burst.
\<close>
theorem allow_refines_bucket:
  assumes "limiter_ok t rl" "t \<le> now" "allow ip now rl = (ok, rl')"
  shows "ok = (1 \<le> level rl ip now) \<and>
    level rl' ip now = level rl ip now - (if ok then 1 else 0) \<and>
    (ip' = ip \<or> later < now \<or> level rl' ip' later = level rl ip' later) \<and>
    limiter_ok now rl' \<and> rate rl' = rate rl \<and> burst rl' = burst rl"
proof -
  define r where "r = sweep now rl"
  define b where "b = (case map_of (buckets r) ip of Some b \<Rightarrow> b | None \<Rightarrow> \<lparr>tokens = burst r, lastCheck = now\<rparr>)"
  have now: "limiter_ok now rl" using assms(1,2) by (rule limiter_ok_later)
  then have ok_r: "limiter_ok now r" unfolding r_def by (rule sweep_ok)
  have lv: "refill now r b = level rl ip now"
  proof -
    have "refill now r b = level r ip now"
      by (cases "map_of (buckets r) ip") (simp_all add: b_def level_def refill_def seconds_def)
    with level_sweep [OF now order_refl, of ip] show ?thesis by (simp add: r_def)
  qed
  have bounds: "0 \<le> level rl ip now" "level rl ip now \<le> burst rl"
    using level_bounds [OF now order_refl] by auto
  have br: "burst r = burst rl" "rate r = rate rl" by (simp_all add: r_def)
  define x where "x = (if level rl ip now < 1 then level rl ip now else level rl ip now - 1)"
  have rl': "ok = (\<not> level rl ip now < 1)" "rl' = r\<lparr>buckets := AList.update ip \<lparr>tokens = x, lastCheck = now\<rparr> (buckets r)\<rparr>"
    using assms(3) unfolding allow_def r_def [symmetric] Let_def b_def [symmetric] lv x_def
    by (auto split: if_splits)
  have x: "0 \<le> x" "x \<le> burst rl" using bounds by (auto simp: x_def)
  have "limiter_ok now rl'"
    using ok_r x br by (auto simp: limiter_ok_def rl')
  moreover have "level rl' ip now = x"
    using x br by (simp add: level_def rl' refill_def seconds_def Let_def)
  moreover have "ip' = ip \<or> later < now \<or> level rl' ip' later = level rl ip' later"
  proof (cases "ip' = ip \<or> later < now")
    case False
    then have "level rl' ip' later = level r ip' later"
      by (cases "map_of (buckets r) ip'") (simp_all add: level_def rl' refill_def Let_def)
    with False level_sweep [OF now, of later ip'] show ?thesis by (simp add: r_def)
  qed blast
  ultimately show ?thesis using br by (simp add: rl' x_def)
qed

fun admitted :: "string \<Rightarrow> (string \<times> int) list \<Rightarrow> RateLimiter \<Rightarrow> nat" where
  \<comment> \<open>of a sequence of requests, how many of one address are let through\<close>
  "admitted ip [] rl = 0"
| "admitted ip ((a, now) # rs) rl =
     (let (ok, rl') = allow a now rl in (if ok \<and> a = ip then 1 else 0) + admitted ip rs rl')"

lemma admitted_level:
  "limiter_ok t rl \<Longrightarrow> sorted (t # map snd rs @ [e]) \<Longrightarrow>
   of_nat (admitted ip rs rl) \<le> level rl ip t + rate rl * seconds (e - t)"
proof (induction rs arbitrary: t rl)
  case Nil
  then show ?case using level_bounds [OF Nil.prems(1) order_refl, of ip]
    by (auto simp: limiter_ok_def seconds_def intro!: add_nonneg_nonneg mult_nonneg_nonneg)
next
  case (Cons r rs)
  obtain a now where r: "r = (a, now)" by (cases r)
  obtain ok rl' where al: "allow a now rl = (ok, rl')" by (cases "allow a now rl")
  from Cons.prems(2) have le: "t \<le> now" and srt: "sorted (now # map snd rs @ [e])"
    by (auto simp: r)
  note step = allow_refines_bucket [OF Cons.prems(1) le al]
  have ih: "of_nat (admitted ip rs rl') \<le> level rl' ip now + rate rl * seconds (e - now)"
    using Cons.IH [of now rl'] srt step [of ip now] by auto
  have fall: "level rl' ip now = level rl ip now - (if ok \<and> a = ip then 1 else 0)"
    using step [of ip now] by auto
  have grow: "level rl ip now \<le> level rl ip t + rate rl * seconds (now - t)"
    using level_later [OF Cons.prems(1) order_refl le, of ip] by (simp add: mult.commute)
  have "rate rl * seconds (e - t) = rate rl * seconds (now - t) + rate rl * seconds (e - now)"
    by (simp add: seconds_simps algebra_simps)
  with ih fall grow have "of_nat ((if ok \<and> a = ip then 1 else 0) + admitted ip rs rl') \<le>
      level rl ip t + rate rl * seconds (e - t)"
    by (cases "ok \<and> a = ip") auto
  then show ?case by (simp add: r al)
qed

text \<open>
  C16. Of any sequence of requests in a window of time, however the addresses interleave, at most the
  burst plus the rate times the length of the window are let through for one address, provided a
  bucket refills within the two minutes of the sweep.
\<close>
theorem rate_limit_bound:
  assumes "0 \<le> rt" "0 \<le> bst" "of_int bst \<le> 120 * rt" "sorted (start # map snd rs @ [e])"
  shows "of_nat (admitted ip rs (NewRateLimiter rt bst start)) \<le> of_int bst + rt * seconds (e - start)"
proof -
  have "limiter_ok start (NewRateLimiter rt bst start)"
    using assms by (simp add: limiter_ok_def NewRateLimiter_def)
  from admitted_level [OF this assms(4), of ip] show ?thesis
    by (simp add: NewRateLimiter_def level_def)
qed

theorem rate_limit_bound_witness:
  "of_nat (admitted ''10.0.0.7'' [(''10.0.0.7'', 5), (''10.0.0.8'', 6), (''10.0.0.7'', 1000000000)] (NewRateLimiter 5 10 0))
     \<le> (of_int 10 + 5 * seconds 2000000000 :: rat)"
  using rate_limit_bound [of 5 10 0 "[(''10.0.0.7'', 5), (''10.0.0.8'', 6), (''10.0.0.7'', 1000000000)]" 2000000000 "''10.0.0.7''"]
  by simp

theorem allow_refines_bucket_witness:
  "fst (allow ''10.0.0.7'' 3 (NewRateLimiter 5 10 0))"
  using allow_refines_bucket [of 0 "NewRateLimiter 5 10 0" 3 "''10.0.0.7''", OF _ _ prod.collapse [symmetric]]
  by (simp add: limiter_ok_def NewRateLimiter_def level_def)

end
