(* ===== verification/Security.thy ===== *)
theory Security
  imports Http
begin

text \<open>
  The package \<^verbatim>\<open>security\<close>: identifiers that may be pasted into SQL, secure column values, the encryption
  of stored secrets with the Base64 and hexadecimal codecs of Go's standard library written out, session
  tokens and the two middleware functions that check them. AES-GCM, bcrypt and the token library are not
  part of the repository: they are arguments, with their documented laws as hypotheses.
\<close>

section \<open>Identifiers\<close>

definition valid_identifier :: "string \<Rightarrow> bool" where
  \<comment> \<open>the regular expression \<^verbatim>\<open>^[a-zA-Z][a-zA-Z0-9_]*$\<close>\<close>
  "valid_identifier s \<longleftrightarrow> (case s of [] \<Rightarrow> False | c # cs \<Rightarrow> is_letter c \<and> list_all is_word_char cs)"

definition ValidateColumnName :: "string \<Rightarrow> string option" where
  "ValidateColumnName name =
     (if valid_identifier name then None
      else Some (''invalid column name: '' @ quote name @
        '' (must start with letter, contain only alphanumeric/underscore)''))"

fun ValidateColumnNames :: "string list \<Rightarrow> string option" where
  "ValidateColumnNames [] = None"
| "ValidateColumnNames (n # ns) = (case ValidateColumnName n of Some e \<Rightarrow> Some e | None \<Rightarrow> ValidateColumnNames ns)"

lemma ValidateColumnName_iff [simp]: "ValidateColumnName name = None \<longleftrightarrow> valid_identifier name"
  by (simp add: ValidateColumnName_def)

lemma ValidateColumnNames_iff: "ValidateColumnNames ns = None \<longleftrightarrow> list_all valid_identifier ns"
  by (induction ns) (auto simp: ValidateColumnName_def)

lemma valid_identifier_chars: "valid_identifier s \<Longrightarrow> list_all is_word_char s"
  by (auto simp: valid_identifier_def is_word_char_def split: list.splits)

section \<open>Base64 and hexadecimal\<close>

definition b64_char :: "nat \<Rightarrow> char" where
  "b64_char n =
     (if n < 26 then char_of (65 + n) else if n < 52 then char_of (71 + n) else if n < 62 then char_of (n - 4)
      else if n = 62 then CHR ''+'' else CHR ''/'')"

definition b64_val :: "char \<Rightarrow> nat option" where
  "b64_val c =
     (let n = of_char c :: nat in
      if 65 \<le> n \<and> n \<le> 90 then Some (n - 65) else if 97 \<le> n \<and> n \<le> 122 then Some (n - 71)
      else if 48 \<le> n \<and> n \<le> 57 then Some (n + 4)
      else if c = CHR ''+'' then Some 62 else if c = CHR ''/'' then Some 63 else None)"

fun b64_encode :: "string \<Rightarrow> string" where
  "b64_encode [] = []"
| "b64_encode [a] =
     (let n = of_char a * 16 in [b64_char (n div 64), b64_char (n mod 64), CHR ''='', CHR ''=''])"
| "b64_encode [a, b] =
     (let n = (of_char a * 256 + of_char b) * 4
      in [b64_char (n div 4096), b64_char (n div 64 mod 64), b64_char (n mod 64), CHR ''=''])"
| "b64_encode (a # b # c # s) =
     (let n = (of_char a * 256 + of_char b) * 256 + of_char c
      in [b64_char (n div 262144), b64_char (n div 4096 mod 64), b64_char (n div 64 mod 64), b64_char (n mod 64)]
         @ b64_encode s)"

fun b64_groups :: "string \<Rightarrow> string option" where
  \<comment> \<open>the trailing bits of a padded group are ignored, as without \<^verbatim>\<open>Strict\<close>\<close>
  "b64_groups [] = Some []"
| "b64_groups (w # x # y # z # s) =
     (case (b64_val w, b64_val x) of
        (Some i, Some j) \<Rightarrow>
          (if y = CHR ''='' then
             (if z = CHR ''='' \<and> s = [] then Some [char_of ((i * 64 + j) div 16)] else None)
           else case b64_val y of
             None \<Rightarrow> None
           | Some k \<Rightarrow>
               (if z = CHR ''='' then
                  (if s = [] then Some [char_of (((i * 64 + j) * 64 + k) div 1024),
                                        char_of (((i * 64 + j) * 64 + k) div 4 mod 256)] else None)
                else case (b64_val z, b64_groups s) of
                  (Some l, Some t) \<Rightarrow>
                    (let n = ((i * 64 + j) * 64 + k) * 64 + l
                     in Some (char_of (n div 65536) # char_of (n div 256 mod 256) # char_of (n mod 256) # t))
                | _ \<Rightarrow> None))
      | _ \<Rightarrow> None)"
| "b64_groups _ = None"

definition b64_decode :: "string \<Rightarrow> string option" where
  \<comment> \<open>line breaks are skipped\<close>
  "b64_decode s = b64_groups (filter (\<lambda>c. c \<noteq> CHR 0x0A \<and> c \<noteq> CHR 0x0D) s)"

lemma of_b64_char:
  "n < 64 \<Longrightarrow> of_char (b64_char n) =
     (if n < 26 then 65 + n else if n < 52 then 71 + n else if n < 62 then n - 4 else if n = 62 then 43 else 47)"
  by (simp add: b64_char_def)

lemma b64_val_char [simp]: "n < 64 \<Longrightarrow> b64_val (b64_char n) = Some n"
proof -
  assume n: "n < 64"
  then consider "n < 62" | "n = 62" | "n = 63" by linarith
  then show ?thesis
  proof cases
    case 1
    then show ?thesis unfolding b64_val_def Let_def of_b64_char [OF n] by auto
  qed (simp_all add: b64_val_def b64_char_def)
qed

lemma b64_char_plain [simp]:
  assumes "n < 64"
  shows "b64_char n \<noteq> CHR ''=''" "b64_char n \<noteq> CHR 0x0A" "b64_char n \<noteq> CHR 0x0D"
proof -
  have "of_char (b64_char n) \<noteq> (61::nat) \<and> of_char (b64_char n) \<noteq> (10::nat) \<and> of_char (b64_char n) \<noteq> (13::nat)"
    unfolding of_b64_char [OF assms] by auto
  then show "b64_char n \<noteq> CHR ''=''" "b64_char n \<noteq> CHR 0x0A" "b64_char n \<noteq> CHR 0x0D" by auto
qed

lemma base_div: "y < k \<Longrightarrow> (x * k + y) div k = (x::nat)" "y < k \<Longrightarrow> (x * k + y) mod k = y"
  by simp_all

lemma split3:
  fixes a b c :: nat
  assumes "a < 256" "b < 256" "c < 256"
  defines "n \<equiv> (a * 256 + b) * 256 + c"
  shows "((n div 262144 * 64 + n div 4096 mod 64) * 64 + n div 64 mod 64) * 64 + n mod 64 = n"
    "n div 262144 < 64" "n div 65536 = a" "n div 256 mod 256 = b" "n mod 256 = c"
proof -
  have "n div 4096 = n div 64 div 64" "n div 262144 = n div 64 div 64 div 64" by (simp_all add: div_mult2_eq)
  moreover have "k div 64 * 64 + k mod 64 = k" for k :: nat by simp
  ultimately show "((n div 262144 * 64 + n div 4096 mod 64) * 64 + n div 64 mod 64) * 64 + n mod 64 = n" by metis
  have "n < 16777216" using assms by simp
  then show "n div 262144 < 64" by (simp add: less_mult_imp_div_less)
  have "n div 256 = a * 256 + b" "n mod 256 = c" using assms(3) by (simp_all only: n_def base_div)
  moreover have "n div 65536 = n div 256 div 256" by (simp add: div_mult2_eq)
  ultimately show "n div 65536 = a" "n div 256 mod 256 = b" "n mod 256 = c" using assms(2) by simp_all
qed

lemma pair_small: "a < 256 \<Longrightarrow> b < 256 \<Longrightarrow> (a * 256 + b) * 4 < (262144::nat)"
  by presburger

lemma div_small: "x < k * m \<Longrightarrow> x div m < (k::nat)"
  by (simp add: less_mult_imp_div_less)

lemma b64_groups_four:
  "i < 64 \<Longrightarrow> j < 64 \<Longrightarrow> k < 64 \<Longrightarrow> l < 64 \<Longrightarrow> b64_groups s = Some t \<Longrightarrow>
   b64_groups ([b64_char i, b64_char j, b64_char k, b64_char l] @ s) =
     (let n = ((i * 64 + j) * 64 + k) * 64 + l
      in Some (char_of (n div 65536) # char_of (n div 256 mod 256) # char_of (n mod 256) # t))"
  by simp

lemma b64_groups_encode: "b64_groups (b64_encode s) = Some s"
proof (induction s rule: b64_encode.induct)
  case (2 a)
  define n where "n = (of_char a :: nat)"
  have n: "n < 256" by (simp add: n_def)
  have "n * 16 div 64 < 64" using n by (simp add: less_mult_imp_div_less)
  moreover have "(n * 16 div 64 * 64 + n * 16 mod 64) div 16 = n" by (simp only: div_mult_mod_eq)
  ultimately have "b64_groups (b64_encode [a]) = Some [char_of n]"
    by (simp add: Let_def n_def [symmetric] del: div_mult_mult1 div_mult_mult2 mod_mult_mult1 mod_mult_mult2)
  then show ?case by (simp add: n_def)
next
  case (3 a b)
  define n where "n = (of_char a * 256 + of_char b) * (4::nat)"
  have "of_char a < (256::nat)" "of_char b < (256::nat)" by simp_all
  then have n: "n < 262144" unfolding n_def by (rule pair_small)
  have k: "n div 4096 < 64" using n by (simp add: less_mult_imp_div_less)
  have "n div 4096 = n div 64 div 64" by (simp add: div_mult2_eq)
  moreover have "k div 64 * 64 + k mod 64 = k" for k :: nat by simp
  ultimately have j: "(n div 4096 * 64 + n div 64 mod 64) * 64 + n mod 64 = n" by metis
  have "n div 1024 = of_char a" "n div 4 mod 256 = of_char b"
  proof -
    have "n div 4 = of_char a * 256 + of_char b" by (simp add: n_def)
    moreover have "n div 1024 = n div 4 div 256" by (simp add: div_mult2_eq)
    ultimately show "n div 1024 = of_char a" "n div 4 mod 256 = of_char b" by simp_all
  qed
  moreover have "b64_encode [a, b] = [b64_char (n div 4096), b64_char (n div 64 mod 64), b64_char (n mod 64), CHR ''='']"
    by (simp only: b64_encode.simps Let_def n_def)
  ultimately show ?case using k j by simp
next
  case (4 a b c s)
  define n where "n = (of_char a * 256 + of_char b) * 256 + (of_char c :: nat)"
  have "of_char a < (256::nat)" "of_char b < (256::nat)" "of_char c < (256::nat)" by simp_all
  note f = split3 [OF this, folded n_def]
  have "b64_encode (a # b # c # s) =
      [b64_char (n div 262144), b64_char (n div 4096 mod 64), b64_char (n div 64 mod 64), b64_char (n mod 64)] @ b64_encode s"
    by (simp only: b64_encode.simps Let_def n_def)
  with b64_groups_four [OF f(2) _ _ _ "4.IH", of "n div 4096 mod 64" "n div 64 mod 64" "n mod 64"]
  show ?case by (simp only: f Let_def) simp
qed simp

lemma b64_encode_plain: "c \<in> set (b64_encode s) \<Longrightarrow> c \<noteq> CHR 0x0A \<and> c \<noteq> CHR 0x0D"
proof (induction s rule: b64_encode.induct)
  case (2 a)
  have "of_char a * 16 div 64 < (64::nat)" by (simp add: less_mult_imp_div_less)
  with 2 show ?case by (auto simp: Let_def)
next
  case (3 a b)
  have "of_char a < (256::nat)" "of_char b < (256::nat)" by simp_all
  then have "(of_char a * 256 + of_char b) * 4 < (262144::nat)" by (rule pair_small)
  then have "(of_char a * 256 + of_char b) * 4 div 4096 < (64::nat)" by (rule div_small [of _ 64 4096, simplified])
  with 3 show ?case by (auto simp: Let_def)
next
  case (4 a b c s)
  have "of_char a < (256::nat)" "of_char b < (256::nat)" "of_char c < (256::nat)" by simp_all
  from split3(2) [OF this] 4 show ?case by (auto simp: Let_def)
qed simp

lemma b64_roundtrip: "b64_decode (b64_encode s) = Some s"
proof -
  have "filter (\<lambda>c. c \<noteq> CHR 0x0A \<and> c \<noteq> CHR 0x0D) (b64_encode s) = b64_encode s"
    using b64_encode_plain by (auto intro: filter_True)
  then show ?thesis by (simp add: b64_decode_def b64_groups_encode)
qed

definition hex_val :: "char \<Rightarrow> nat option" where
  "hex_val c =
     (let n = of_char c :: nat in
      if 48 \<le> n \<and> n \<le> 57 then Some (n - 48) else if 97 \<le> n \<and> n \<le> 102 then Some (n - 87)
      else if 65 \<le> n \<and> n \<le> 70 then Some (n - 55) else None)"

fun hex_decode :: "string \<Rightarrow> string option" where
  "hex_decode [] = Some []"
| "hex_decode [_] = None"
| "hex_decode (a # b # s) =
     (case (hex_val a, hex_val b, hex_decode s) of
        (Some i, Some j, Some t) \<Rightarrow> Some (char_of (16 * i + j) # t)
      | _ \<Rightarrow> None)"

section \<open>Encryption of stored secrets\<close>

record aead =
  NonceSize :: nat
  Seal :: "string \<Rightarrow> string \<Rightarrow> string"
  Open :: "string \<Rightarrow> string \<Rightarrow> string option"

definition NewEncryptor :: "(string \<Rightarrow> aead) \<Rightarrow> string \<Rightarrow> string + aead" where
  \<comment> \<open>the first argument builds AES-GCM for a key of 32 bytes, which succeeds\<close>
  "NewEncryptor gcm hexKey =
     (case hex_decode hexKey of
        None \<Rightarrow> Inl ''decoding key''
      | Some key \<Rightarrow>
          if length key \<noteq> 32 then Inl (''key must be 32 bytes (got '' @ show_nat (length key) @ '')'')
          else Inr (gcm key))"

definition Encrypt :: "aead \<Rightarrow> string option \<Rightarrow> string \<Rightarrow> string + string" where
  \<comment> \<open>the second argument: the random nonce, of the requested size, if it could be read\<close>
  "Encrypt e rand plaintext =
     (case rand of
        None \<Rightarrow> Inl ''generating nonce''
      | Some nonce \<Rightarrow> Inr (b64_encode (nonce @ Seal e nonce plaintext)))"

definition Decrypt :: "aead \<Rightarrow> string \<Rightarrow> string + string" where
  "Decrypt e encoded =
     (case b64_decode encoded of
        None \<Rightarrow> Inl ''decoding base64''
      | Some ciphertext \<Rightarrow>
          if length ciphertext < NonceSize e then Inl ''ciphertext too short''
          else (case Open e (take (NonceSize e) ciphertext) (drop (NonceSize e) ciphertext) of
                  Some p \<Rightarrow> Inr p
                | None \<Rightarrow> Inl ''decrypting''))"

text \<open>
  Every secret that was encrypted is decrypted to itself, whatever its bytes: the nonce is read back
  from the stored text, which survives Base64. The law of the cipher is that it opens what it sealed.
\<close>
theorem Decrypt_Encrypt:
  assumes "\<And>n p. length n = NonceSize e \<Longrightarrow> Open e n (Seal e n p) = Some p"
    and "length nonce = NonceSize e" "Encrypt e (Some nonce) plaintext = Inr stored"
  shows "Decrypt e stored = Inr plaintext"
  using assms(2,3) by (auto simp: Encrypt_def Decrypt_def b64_roundtrip assms(1) [OF assms(2)])

definition xor_free_cipher :: aead where
  \<comment> \<open>a cipher that satisfies the law: the tag is the nonce\<close>
  "xor_free_cipher = \<lparr>NonceSize = 2, Seal = (\<lambda>n p. rev p @ n),
     Open = (\<lambda>n c. if drop (length c - 2) c = n then Some (rev (take (length c - 2) c)) else None)\<rparr>"

theorem Decrypt_Encrypt_witness:
  "Decrypt xor_free_cipher (b64_encode (''ab'' @ Seal xor_free_cipher ''ab'' ''sk_live'')) = Inr ''sk_live''"
  by (rule Decrypt_Encrypt [of xor_free_cipher "''ab''"]) (simp_all add: xor_free_cipher_def Encrypt_def)

definition HashPassword :: "(nat \<Rightarrow> string \<Rightarrow> string + string) \<Rightarrow> string \<Rightarrow> string + string" where
  \<comment> \<open>the first argument: bcrypt at a cost\<close>
  "HashPassword bcrypt password = bcrypt 14 password"

definition CheckPassword :: "(string \<Rightarrow> string \<Rightarrow> bool) \<Rightarrow> string \<Rightarrow> string \<Rightarrow> bool" where
  "CheckPassword compare password hash = compare hash password"

record crypto =
  cr_bcrypt :: "nat \<Rightarrow> string \<Rightarrow> string + string"
  cr_aead :: "aead option"
  cr_nonce :: "string option"
  cr_print :: "gval \<Rightarrow> string"

definition ProcessSecureValue :: "crypto \<Rightarrow> string \<Rightarrow> gval \<Rightarrow> string + gval" where
  \<comment> \<open>\<^verbatim>\<open>cr_print\<close> is the verb \<^verbatim>\<open>%v\<close>\<close>
  "ProcessSecureValue cr kind value =
     (if kind = ''hash'' then
        (case HashPassword (cr_bcrypt cr) (cr_print cr value) of
           Inl e \<Rightarrow> Inl (''hashing password: '' @ e)
         | Inr h \<Rightarrow> Inr (GStr h))
      else if kind = ''encrypt'' then
        (case cr_aead cr of
           None \<Rightarrow> Inl ''encryption not configured''
         | Some e \<Rightarrow>
             (case Encrypt e (cr_nonce cr) (cr_print cr value) of
                Inl err \<Rightarrow> Inl (''encrypting value: '' @ err)
              | Inr c \<Rightarrow> Inr (GStr c)))
      else Inr value)"

section \<open>Session tokens\<close>

record Claims =
  ClaimSiteID :: int
  UserID :: int
  Username :: string
  ClaimRole :: string
  ExpiresAt :: int
  IssuedAt :: int

record JWTManager =
  jwt_secret :: string
  jwt_expiry :: int
  SecureCookies :: bool

record jwt_library =
  \<comment> \<open>\<^verbatim>\<open>ParseWithClaims\<close> asks for the key with whether the token's method is an HMAC; its result has the claims
      and whether the token is valid\<close>
  ParseWithClaims :: "(bool \<Rightarrow> string + string) \<Rightarrow> string \<Rightarrow> string + (Claims \<times> bool)"
  SignedString :: "Claims \<Rightarrow> string \<Rightarrow> string + string"

definition GenerateForSite :: "jwt_library \<Rightarrow> JWTManager \<Rightarrow> int \<Rightarrow> int \<Rightarrow> int \<Rightarrow> string \<Rightarrow> string \<Rightarrow> string + string" where
  "GenerateForSite lib j now sid userID username role =
     SignedString lib \<lparr>ClaimSiteID = sid, UserID = userID, Username = username, ClaimRole = role,
        ExpiresAt = now + jwt_expiry j, IssuedAt = now\<rparr> (jwt_secret j)"

definition Generate :: "jwt_library \<Rightarrow> JWTManager \<Rightarrow> int \<Rightarrow> int \<Rightarrow> string \<Rightarrow> string \<Rightarrow> string + string" where
  "Generate lib j now userID username role = GenerateForSite lib j now 0 userID username role"

definition ValidateToken :: "jwt_library \<Rightarrow> JWTManager \<Rightarrow> string \<Rightarrow> string + Claims" where
  "ValidateToken lib j token =
     (case ParseWithClaims lib (\<lambda>hmac. if hmac then Inr (jwt_secret j) else Inl ''unexpected signing method'') token of
        Inl e \<Rightarrow> Inl e
      | Inr (claims, valid) \<Rightarrow> if valid then Inr claims else Inl ''invalid token'')"

definition AuthCookieName :: string where
  "AuthCookieName = ''iatan_auth''"

definition unauthorized :: "string \<Rightarrow> response" where
  "unauthorized msg = error_response 401 msg"

definition request_token :: "request \<Rightarrow> string + string" where
  "request_token r =
     (let h = Header r ''Authorization'' in
      if h \<noteq> [] then (if has_prefix ''Bearer '' h then Inr (drop 7 h) else Inl ''invalid authorization format'')
      else case map_of (Cookies r) AuthCookieName of
             Some (c # cs) \<Rightarrow> Inr (c # cs)
           | _ \<Rightarrow> (if query_get r ''token'' \<noteq> [] then Inr (query_get r ''token'') else Inl ''missing authorization''))"

definition Authenticator :: "jwt_library \<Rightarrow> JWTManager \<Rightarrow> request \<Rightarrow> response + Claims" where
  \<comment> \<open>the claims put into the context of the next handler, or the answer\<close>
  "Authenticator lib j r =
     (case request_token r of
        Inl e \<Rightarrow> Inl (unauthorized e)
      | Inr t \<Rightarrow>
          (case ValidateToken lib j t of
             Inl _ \<Rightarrow> Inl (unauthorized ''invalid or expired token'')
           | Inr c \<Rightarrow> Inr c))"

definition RequireRole :: "string \<Rightarrow> Claims option \<Rightarrow> response option" where
  "RequireRole role claims =
     (case claims of
        Some c \<Rightarrow> if ClaimRole c = role then None else Some (error_response 403 ''insufficient permissions'')
      | None \<Rightarrow> Some (error_response 403 ''insufficient permissions''))"

lemma Authenticator_valid:
  "Authenticator lib j r = Inr c \<Longrightarrow> \<exists>t. request_token r = Inr t \<and> ValidateToken lib j t = Inr c"
  by (auto simp: Authenticator_def split: sum.splits)

end
