(* ===== verification/PublicApi.thy ===== *)
theory PublicApi
  imports Security
begin

text \<open>
  The public data API of \<^verbatim>\<open>server/public/handler.go\<close>: routing of a request to an endpoint, its
  authorisation, and the statements built for listing, reading, inserting, updating, deleting and
  aggregating rows. SQLite is outside the repository: it is a pair of functions of the statement's text
  and arguments. Shown: the texts contain no character that could leave an identifier or a placeholder,
  and as many placeholders as arguments; no request reaches a protected table without its credentials; no
  hash column is answered.
\<close>

section \<open>Texts of SQL statements\<close>

definition sql_char :: "char \<Rightarrow> bool" where
  \<comment> \<open>no quote, semicolon, dash or slash: nothing that ends a statement, a literal or starts a comment\<close>
  "sql_char c \<longleftrightarrow> is_word_char c \<or> c \<in> set '' ,()?*=<>!''"

definition placeholders :: "string \<Rightarrow> nat" where
  "placeholders s = length (filter (\<lambda>c. c = CHR ''?'') s)"

definition sql_text :: "string \<Rightarrow> bool" where
  "sql_text s \<longleftrightarrow> list_all sql_char s"

named_theorems sql_rules \<open>texts of statements and their placeholders\<close>

lemma sql_text_append [simp]: "sql_text (s @ t) \<longleftrightarrow> sql_text s \<and> sql_text t"
  by (simp add: sql_text_def)

lemma placeholders_append [simp]: "placeholders (s @ t) = placeholders s + placeholders t"
  by (simp add: placeholders_def)

lemma sql_text_join: "sql_text sep \<Longrightarrow> list_all sql_text ws \<Longrightarrow> sql_text (join sep ws)"
  by (induction sep ws rule: join.induct) (simp_all add: sql_text_def)

lemma placeholders_join: "placeholders sep = 0 \<Longrightarrow> placeholders (join sep ws) = sum_list (map placeholders ws)"
  by (induction sep ws rule: join.induct) (simp_all add: placeholders_def)

lemma sql_identifier:
  assumes "valid_identifier s"
  shows "sql_text s" "placeholders s = 0"
proof -
  have "\<not> is_word_char CHR ''?''" by code_simp
  with valid_identifier_chars [OF assms] show "sql_text s" "placeholders s = 0"
    by (auto simp: sql_text_def placeholders_def sql_char_def list_all_iff filter_empty_conv)
qed

section \<open>Endpoints\<close>

record apiEndpoint =
  EpPath :: string
  TableName :: string
  Methods :: "string list"
  PublicColumns :: "string list"
  RequiresAuth :: bool
  PublicRead :: bool
  RequiredRole :: string
  EpRateLimit :: int
  SecureCols :: "(string \<times> string) list"

type_synonym rows = "string list \<times> gval list list"

record 'db sqlite =
  db_query :: "'db \<Rightarrow> string \<Rightarrow> gval list \<Rightarrow> string + rows"
  db_exec :: "'db \<Rightarrow> string \<Rightarrow> gval list \<Rightarrow> (string + (int \<times> nat)) \<times> 'db"

record 'db api_env =
  env_db :: "'db sqlite"
  env_site :: int
  env_jwt :: "(jwt_library \<times> JWTManager) option"
  env_crypto :: crypto
  env_bus :: bool
  env_config :: "jobj option"
  env_strings :: "string \<Rightarrow> string list"
  env_string_map :: "string \<Rightarrow> (string \<times> string) list"
  env_body :: "string \<Rightarrow> (string \<times> gval) list option"
  env_float :: "string \<Rightarrow> rat option"

definition row_string :: "gval \<Rightarrow> string option" where
  "row_string v = (case v of GStr s \<Rightarrow> Some s | _ \<Rightarrow> None)"

definition row_bool :: "gval \<Rightarrow> bool option" where
  \<comment> \<open>SQLite stores a truth value as 0 or 1\<close>
  "row_bool v = (case v of GBool b \<Rightarrow> Some b | GInt i \<Rightarrow> (if i \<in> {0, 1} then Some (i = 1) else None) | _ \<Rightarrow> None)"

definition null_string :: "gval \<Rightarrow> string option" where
  \<comment> \<open>\<^verbatim>\<open>sql.NullString\<close>, whose text is empty for NULL\<close>
  "null_string v = (case v of GStr s \<Rightarrow> Some s | GNil \<Rightarrow> Some [] | _ \<Rightarrow> None)"

definition endpoint_query :: string where
  "endpoint_query = ''SELECT id, path, table_name, methods, public_columns, requires_auth, public_read, required_role, rate_limit FROM api_endpoints WHERE path = ?''"

definition secure_query :: string where
  "secure_query = ''SELECT secure_columns FROM dynamic_tables WHERE table_name = ?''"

definition scan_endpoint :: "(string \<Rightarrow> string list) \<Rightarrow> gval list \<Rightarrow> apiEndpoint option" where
  "scan_endpoint strings vs =
     (case vs of
        [GInt _, path, table, methods, cols, auth, read, role, GInt limit] \<Rightarrow>
          (case (row_string path, row_string table, row_string methods, null_string cols) of
             (Some p, Some t, Some m, Some cs) \<Rightarrow>
               (case (row_bool auth, row_bool read, null_string role) of
                  (Some a, Some rd, Some rl) \<Rightarrow>
                    Some \<lparr>EpPath = p, TableName = t, Methods = strings m,
                          PublicColumns = (if cs \<noteq> [] then strings cs else []), RequiresAuth = a, PublicRead = rd,
                          RequiredRole = rl, EpRateLimit = limit, SecureCols = []\<rparr>
                | _ \<Rightarrow> None)
           | _ \<Rightarrow> None)
      | _ \<Rightarrow> None)"

definition first_row :: "'db sqlite \<Rightarrow> 'db \<Rightarrow> string \<Rightarrow> gval list \<Rightarrow> gval list option" where
  \<comment> \<open>\<^verbatim>\<open>QueryRow\<close>\<close>
  "first_row lib db q args = (case db_query lib db q args of Inr (_, r # _) \<Rightarrow> Some r | _ \<Rightarrow> None)"

definition secure_columns :: "'db api_env \<Rightarrow> 'db \<Rightarrow> string \<Rightarrow> (string \<times> string) list" where
  "secure_columns env db table =
     (case first_row (env_db env) db secure_query [GStr table] of
        Some [GStr raw] \<Rightarrow> env_string_map env raw
      | _ \<Rightarrow> [])"

definition loadEndpoint :: "'db api_env \<Rightarrow> 'db \<Rightarrow> string \<Rightarrow> apiEndpoint option" where
  "loadEndpoint env db path =
     (case first_row (env_db env) db endpoint_query [GStr path] of
        None \<Rightarrow> None
      | Some r \<Rightarrow>
          map_option (\<lambda>ep. ep\<lparr>SecureCols := secure_columns env db (TableName ep)\<rparr>) (scan_endpoint (env_strings env) r))"

definition methodAllowed :: "string list \<Rightarrow> string \<Rightarrow> bool" where
  "methodAllowed methods m \<longleftrightarrow> list_ex (\<lambda>x. equal_fold x m) methods"

definition validateSiteToken :: "'db api_env \<Rightarrow> string \<Rightarrow> bool" where
  "validateSiteToken env token \<longleftrightarrow>
     token \<noteq> [] \<and>
     (case env_config env of
        None \<Rightarrow> False
      | Some cfg \<Rightarrow> (let k = get_str cfg ''api_key'' in k \<noteq> [] \<and> k = token))"

definition bearer :: "request \<Rightarrow> string" where
  "bearer r = trim_prefix ''Bearer '' (Header r ''Authorization'')"

definition authorize :: "'db api_env \<Rightarrow> apiEndpoint \<Rightarrow> request \<Rightarrow> response option" where
  \<comment> \<open>nothing when the request may go on\<close>
  "authorize env ep r =
     (if RequiresAuth ep \<and> \<not> (ReqMethod r = ''GET'' \<and> PublicRead ep) then
        if validateSiteToken env (bearer r) then None
        else (case env_jwt env of
                None \<Rightarrow> Some (error_response 401 ''unauthorized'')
              | Some (lib, j) \<Rightarrow>
                  (case ValidateToken lib j (bearer r) of
                     Inl _ \<Rightarrow> Some (error_response 401 ''invalid or expired token'')
                   | Inr c \<Rightarrow>
                       if ClaimSiteID c \<noteq> env_site env then Some (error_response 401 ''invalid or expired token'')
                       else if RequiredRole ep \<noteq> [] \<and> ClaimRole c \<noteq> RequiredRole ep
                         then Some (error_response 403 ''insufficient permissions'')
                       else None))
      else None)"

section \<open>Columns and rows\<close>

definition is_hash :: "apiEndpoint \<Rightarrow> string \<Rightarrow> bool" where
  "is_hash ep col \<longleftrightarrow> map_of (SecureCols ep) col = Some ''hash''"

definition visibleColumns :: "apiEndpoint \<Rightarrow> string" where
  "visibleColumns ep =
     (if PublicColumns ep \<noteq> [] then
        (let safe = filter (\<lambda>c. \<not> is_hash ep c) (PublicColumns ep)
         in if safe = [] then ''id'' else join '', '' safe)
      else ''*'')"

fun row_map :: "string list \<Rightarrow> gval list \<Rightarrow> (string \<times> gval) list \<Rightarrow> (string \<times> gval) list" where
  "row_map (c # cs) (v # vs) m = row_map cs vs (AList.update c v m)"
| "row_map _ _ m = m"

definition scanRowsToMaps :: "rows \<Rightarrow> (string \<times> gval) list list" where
  "scanRowsToMaps = (\<lambda>(cols, rs). map (\<lambda>r. row_map cols r []) rs)"

fun delete_hashes :: "(string \<times> string) list \<Rightarrow> (string \<times> gval) list \<Rightarrow> (string \<times> gval) list" where
  "delete_hashes [] m = m"
| "delete_hashes ((col, kind) # cs) m =
     delete_hashes cs (if kind = ''hash'' then AList.delete col m else m)"

definition stripSecureColumns :: "(string \<times> gval) list list \<Rightarrow> (string \<times> string) list \<Rightarrow> (string \<times> gval) list list" where
  "stripSecureColumns results secure = (if secure = [] then results else map (delete_hashes secure) results)"
section \<open>Listing rows\<close>

definition reservedParams :: "string list" where
  "reservedParams = [''limit'', ''offset'', ''sort'', ''order'', ''order_by'', ''direction'', ''page'', ''search'',
     ''stats'', ''q'']"

definition parseFilterParam :: "string \<Rightarrow> (string \<times> string \<times> bool) option" where
  "parseFilterParam key =
     (case cut ''__'' key of
        None \<Rightarrow> Some (key, ''='', False)
      | Some (col, sfx) \<Rightarrow>
          if sfx = ''like'' then Some (col, ''LIKE'', True)
          else if sfx = ''gt'' then Some (col, ''>'', False)
          else if sfx = ''gte'' then Some (col, ''>='', False)
          else if sfx = ''lt'' then Some (col, ''<'', False)
          else if sfx = ''lte'' then Some (col, ''<='', False)
          else if sfx = ''ne'' then Some (col, ''!='', False)
          else None)"

definition like_clause :: "string \<Rightarrow> string" where
  "like_clause col = col @ '' LIKE ? COLLATE NOCASE''"

definition filter_clause :: "apiEndpoint \<Rightarrow> string \<times> string list \<Rightarrow> (string \<times> gval) option" where
  "filter_clause ep = (\<lambda>(key, vals).
     if key \<in> set reservedParams \<or> vals = [] then None
     else (case parseFilterParam key of
             None \<Rightarrow> None
           | Some (col, op, isLike) \<Rightarrow>
               if ValidateColumnName col \<noteq> None \<or> is_hash ep col then None
               else if isLike then Some (like_clause col, GStr (''%'' @ hd vals @ ''%''))
               else Some (col @ '' '' @ op @ '' ?'', GStr (hd vals))))"

definition filter_clauses :: "apiEndpoint \<Rightarrow> request \<Rightarrow> (string \<times> gval) list" where
  "filter_clauses ep r = List.map_filter (filter_clause ep) (Query r)"

definition text_column :: "apiEndpoint \<Rightarrow> gval list \<Rightarrow> string option" where
  "text_column ep vs =
     (case vs of
        [GInt _, GStr name, GStr ty, GInt _, _, GInt _] \<Rightarrow>
          if equal_fold ty ''TEXT'' \<and> name \<noteq> ''id'' \<and> name \<noteq> ''created_at'' \<and> \<not> is_hash ep name
          then Some name else None
      | _ \<Rightarrow> None)"

definition getTextColumns :: "'db sqlite \<Rightarrow> 'db \<Rightarrow> apiEndpoint \<Rightarrow> string list" where
  "getTextColumns lib db ep =
     (case db_query lib db (''PRAGMA table_info('' @ TableName ep @ '')'') [] of
        Inl _ \<Rightarrow> []
      | Inr (_, rs) \<Rightarrow> List.map_filter (text_column ep) rs)"

definition search_clause :: "string list \<Rightarrow> string \<Rightarrow> (string \<times> gval list) list" where
  \<comment> \<open>one disjunction over the text columns, if there are any\<close>
  "search_clause cols term =
     (if term = [] \<or> cols = [] then []
      else [(''('' @ join '' OR '' (map like_clause cols) @ '')'', map (\<lambda>_. GStr (''%'' @ term @ ''%'')) cols)])"

definition where_sql :: "string list \<Rightarrow> string" where
  "where_sql clauses = (if clauses = [] then [] else '' WHERE '' @ join '' AND '' clauses)"

definition order_sql :: "request \<Rightarrow> string" where
  "order_sql r =
     (let sortCol = (if query_get r ''sort'' = [] then query_get r ''order_by'' else query_get r ''sort'');
          dir = (if query_get r ''order'' = [] then query_get r ''direction'' else query_get r ''order'')
      in if sortCol \<noteq> [] \<and> ValidateColumnName sortCol = None
         then sortCol @ '' '' @ (if equal_fold dir ''desc'' then ''DESC'' else ''ASC'')
         else ''id DESC'')"

definition page_limit :: "request \<Rightarrow> int" where
  "page_limit r = (case atoi (query_get r ''limit'') of Some n \<Rightarrow> if n > 0 \<and> n \<le> 200 then n else 50 | None \<Rightarrow> 50)"

definition page_offset :: "request \<Rightarrow> int" where
  "page_offset r = (case atoi (query_get r ''offset'') of Some n \<Rightarrow> if n \<ge> 0 then n else 0 | None \<Rightarrow> 0)"

definition list_statement :: "apiEndpoint \<Rightarrow> string list \<Rightarrow> request \<Rightarrow> string \<times> gval list" where
  \<comment> \<open>the second argument: the text columns of the table\<close>
  "list_statement ep cols r =
     (let fs = filter_clauses ep r; ss = search_clause cols (query_get r ''q'')
      in (''SELECT '' @ visibleColumns ep @ '' FROM '' @ TableName ep @ where_sql (map fst fs @ map fst ss) @
            '' ORDER BY '' @ order_sql r @ '' LIMIT ? OFFSET ?'',
          map snd fs @ concat (map snd ss) @ [GInt (page_limit r), GInt (page_offset r)]))"

definition apiList :: "'db api_env \<Rightarrow> 'db \<Rightarrow> apiEndpoint \<Rightarrow> request \<Rightarrow> response" where
  "apiList env db ep r =
     (let (q, args) = list_statement ep (if query_get r ''q'' \<noteq> [] then getTextColumns (env_db env) db ep else []) r
      in case db_query (env_db env) db q args of
           Inl e \<Rightarrow>
             (if contains e ''no such column'' then error_response 400 (''invalid filter column: '' @ e)
              else error_response 500 ''query error'')
         | Inr rs \<Rightarrow>
             (let results = stripSecureColumns (scanRowsToMaps rs) (SecureCols ep)
              in json_response 200 (GObj [(''data'', GArr (map GObj results)), (''count'', GInt (int (length results))),
                   (''limit'', GInt (page_limit r)), (''offset'', GInt (page_offset r))])))"

section \<open>Single rows\<close>

definition column_probe :: "string \<Rightarrow> string" where
  "column_probe table = ''SELECT COUNT(*) FROM pragma_table_info('' @ [CHR 0x27] @ table @ [CHR 0x27] @ '') WHERE name = ?''"

definition has_column :: "'db sqlite \<Rightarrow> 'db \<Rightarrow> string \<Rightarrow> string \<Rightarrow> bool" where
  "has_column lib db table col =
     (case first_row lib db (column_probe table) [GStr col] of
        Some [GInt n] \<Rightarrow> n > 0
      | _ \<Rightarrow> False)"

definition rowIDColumn :: "'db sqlite \<Rightarrow> 'db \<Rightarrow> string \<Rightarrow> string \<Rightarrow> string" where
  \<comment> \<open>the column; the value is always the identifier of the request\<close>
  "rowIDColumn lib db table rowID =
     (if atoi rowID \<noteq> None then ''id''
      else if has_column lib db table ''uuid'' then ''uuid''
      else if has_column lib db table ''slug'' then ''slug''
      else ''id'')"

definition get_statement :: "apiEndpoint \<Rightarrow> string \<Rightarrow> string \<Rightarrow> string \<times> gval list" where
  "get_statement ep col rowID =
     (''SELECT '' @ visibleColumns ep @ '' FROM '' @ TableName ep @ '' WHERE '' @ col @ '' = ?'', [GStr rowID])"

definition apiGetOne :: "'db api_env \<Rightarrow> 'db \<Rightarrow> apiEndpoint \<Rightarrow> string \<Rightarrow> response" where
  "apiGetOne env db ep rowID =
     (let (q, args) = get_statement ep (rowIDColumn (env_db env) db (TableName ep) rowID) rowID
      in case db_query (env_db env) db q args of
           Inl e \<Rightarrow> error_response 500 ''query error''
         | Inr rs \<Rightarrow>
             (case stripSecureColumns (scanRowsToMaps rs) (SecureCols ep) of
                [] \<Rightarrow> error_response 404 ''not found''
              | m # _ \<Rightarrow> json_response 200 (GObj m)))"

section \<open>Writing rows\<close>

fun process_secure :: "crypto \<Rightarrow> (string \<times> string) list \<Rightarrow> (string \<times> gval) list \<Rightarrow> string + (string \<times> gval) list" where
  "process_secure cr [] b = Inr b"
| "process_secure cr ((col, kind) # cs) b =
     (case map_of b col of
        None \<Rightarrow> process_secure cr cs b
      | Some v \<Rightarrow>
          (case ProcessSecureValue cr kind v of
             Inl e \<Rightarrow> Inl (''error processing '' @ col @ '': '' @ e)
           | Inr p \<Rightarrow> process_secure cr cs (AList.update col p b)))"

fun first_bad_field :: "(string \<times> gval) list \<Rightarrow> string option" where
  "first_bad_field [] = None"
| "first_bad_field ((col, v) # b) = (if ValidateColumnName col \<noteq> None then Some col else first_bad_field b)"

definition checked_body :: "'db api_env \<Rightarrow> apiEndpoint \<Rightarrow> request \<Rightarrow> response + (string \<times> gval) list" where
  "checked_body env ep r =
     (case env_body env (ReqBody r) of
        None \<Rightarrow> Inl (error_response 400 ''invalid JSON body'')
      | Some b \<Rightarrow>
          (case process_secure (env_crypto env) (SecureCols ep) (AList.delete ''id'' b) of
             Inl e \<Rightarrow> Inl (error_response 400 e)
           | Inr b \<Rightarrow>
               if b = [] then Inl (error_response 400 ''no data provided'')
               else (case first_bad_field b of
                       Some col \<Rightarrow> Inl (error_response 400 (''invalid field name: '' @ col))
                     | None \<Rightarrow> Inr b)))"

definition insert_statement :: "apiEndpoint \<Rightarrow> (string \<times> gval) list \<Rightarrow> string \<times> gval list" where
  "insert_statement ep b =
     (''INSERT INTO '' @ TableName ep @ '' ('' @ join '', '' (map fst b) @ '') VALUES ('' @
        join '', '' (map (\<lambda>_. ''?'') b) @ '')'', map snd b)"

definition update_statement :: "apiEndpoint \<Rightarrow> string \<Rightarrow> string \<Rightarrow> (string \<times> gval) list \<Rightarrow> string \<times> gval list" where
  "update_statement ep col rowID b =
     (''UPDATE '' @ TableName ep @ '' SET '' @ join '', '' (map (\<lambda>(c, _). c @ '' = ?'') b) @ '' WHERE '' @ col @ '' = ?'',
      map snd b @ [GStr rowID])"

definition delete_statement :: "apiEndpoint \<Rightarrow> string \<Rightarrow> string \<Rightarrow> string \<times> gval list" where
  "delete_statement ep col rowID = (''DELETE FROM '' @ TableName ep @ '' WHERE '' @ col @ '' = ?'', [GStr rowID])"

definition data_event :: "'db api_env \<Rightarrow> string \<Rightarrow> string \<Rightarrow> jval \<Rightarrow> Event list" where
  "data_event env ty path i =
     (if env_bus env then [\<lparr>EvType = ty, EvPayload = [(''table'', JStr path), (''id'', i)]\<rparr>] else [])"

definition apiInsert :: "'db api_env \<Rightarrow> 'db \<Rightarrow> apiEndpoint \<Rightarrow> string \<Rightarrow> request \<Rightarrow> response \<times> 'db \<times> Event list" where
  "apiInsert env db ep path r =
     (case checked_body env ep r of
        Inl resp \<Rightarrow> (resp, db, [])
      | Inr b \<Rightarrow>
          (let (q, args) = insert_statement ep b
           in case db_exec (env_db env) db q args of
                (Inl e, db') \<Rightarrow> (error_response 400 ''insert failed'', db', [])
              | (Inr (i, n), db') \<Rightarrow>
                  (json_response 201 (GObj [(''id'', GInt i), (''success'', GBool True)]), db',
                   data_event env ''data.insert'' path (JNum (of_int i)))))"

definition changed_row :: "'db api_env \<Rightarrow> string \<Rightarrow> string \<Rightarrow> string \<Rightarrow> (string + (int \<times> nat)) \<times> 'db \<Rightarrow> response \<Rightarrow>
    response \<times> 'db \<times> Event list" where
  \<comment> \<open>the end of an update and of a deletion\<close>
  "changed_row env ty path rowID res failed =
     (case res of
        (Inl e, db') \<Rightarrow> (failed, db', [])
      | (Inr (_, n), db') \<Rightarrow>
          if n = 0 then (error_response 404 ''not found'', db', [])
          else (json_response 200 (GObj [(''success'', GBool True)]), db', data_event env ty path (JStr rowID)))"

definition apiUpdate :: "'db api_env \<Rightarrow> 'db \<Rightarrow> apiEndpoint \<Rightarrow> string \<Rightarrow> string \<Rightarrow> request \<Rightarrow> response \<times> 'db \<times> Event list" where
  "apiUpdate env db ep path rowID r =
     (case checked_body env ep r of
        Inl resp \<Rightarrow> (resp, db, [])
      | Inr b \<Rightarrow>
          (let (q, args) = update_statement ep (rowIDColumn (env_db env) db (TableName ep) rowID) rowID b
           in changed_row env ''data.update'' path rowID (db_exec (env_db env) db q args)
                (error_response 400 ''update failed'')))"

definition apiDelete :: "'db api_env \<Rightarrow> 'db \<Rightarrow> apiEndpoint \<Rightarrow> string \<Rightarrow> string \<Rightarrow> response \<times> 'db \<times> Event list" where
  "apiDelete env db ep path rowID =
     (let (q, args) = delete_statement ep (rowIDColumn (env_db env) db (TableName ep) rowID) rowID
      in changed_row env ''data.delete'' path rowID (db_exec (env_db env) db q args)
           (error_response 500 ''delete failed''))"

section \<open>Aggregation\<close>

definition allowedAggFuncsPublic :: "string list" where
  "allowedAggFuncsPublic = [''count'', ''sum'', ''avg'', ''min'', ''max'']"

definition agg_expr :: "string \<Rightarrow> string \<Rightarrow> string" where
  "agg_expr fn col =
     (if fn \<noteq> ''count'' then to_upper fn @ ''('' @ col @ '')''
      else if col \<noteq> [] then ''COUNT('' @ col @ '')''
      else ''COUNT(*)'')"

fun group_columns :: "apiEndpoint \<Rightarrow> string list \<Rightarrow> string + string list" where
  "group_columns ep [] = Inr []"
| "group_columns ep (g # gs) =
     (let c = trim_space g in
      if c = [] then group_columns ep gs
      else if ValidateColumnName c \<noteq> None then Inl (''invalid group_by column: '' @ c)
      else if is_hash ep c then Inl ''cannot group by secure columns''
      else (case group_columns ep gs of Inl e \<Rightarrow> Inl e | Inr cs \<Rightarrow> Inr (c # cs)))"

definition stats_filter :: "apiEndpoint \<Rightarrow> string \<times> string list \<Rightarrow> (string \<times> gval) option" where
  "stats_filter ep = (\<lambda>(key, vals).
     if key \<in> set (reservedParams @ [''fn'', ''column'', ''group_by'']) \<or> vals = [] then None
     else if ValidateColumnName key \<noteq> None \<or> is_hash ep key then None
     else Some (key @ '' = ?'', GStr (hd vals)))"

definition stats_statement :: "apiEndpoint \<Rightarrow> string \<Rightarrow> string \<Rightarrow> string list \<Rightarrow> request \<Rightarrow> string \<times> gval list" where
  "stats_statement ep fn col groups r =
     (let fs = List.map_filter (stats_filter ep) (Query r)
      in (''SELECT '' @ join '', '' (groups @ [agg_expr fn col @ '' AS result'']) @ '' FROM '' @ TableName ep @
            where_sql (map fst fs) @
            (if groups = [] then []
             else '' GROUP BY '' @ join '', '' groups @ '' ORDER BY '' @ join '', '' groups),
          map snd fs))"

definition stats_authorized :: "'db api_env \<Rightarrow> apiEndpoint \<Rightarrow> request \<Rightarrow> bool" where
  \<comment> \<open>unlike the other routes, a session token is not accepted and the role is not looked at\<close>
  "stats_authorized env ep r \<longleftrightarrow>
     \<not> (RequiresAuth ep \<and> \<not> PublicRead ep) \<or> validateSiteToken env (bearer r)"

definition scan_float :: "(string \<Rightarrow> rat option) \<Rightarrow> gval \<Rightarrow> rat option" where
  "scan_float parse v = (case v of GInt i \<Rightarrow> Some (of_int i) | GNum q \<Rightarrow> Some q | GStr s \<Rightarrow> parse s | _ \<Rightarrow> None)"

definition stats_result :: "'db api_env \<Rightarrow> 'db \<Rightarrow> string \<Rightarrow> string list \<Rightarrow> string \<times> gval list \<Rightarrow> response" where
  "stats_result env db fn groups = (\<lambda>(q, args).
     let failed = error_response 500 ''aggregation query failed'' in
     if groups = [] then
       (case first_row (env_db env) db q args of
          Some [v] \<Rightarrow>
            (case scan_float (env_float env) v of
               Some x \<Rightarrow> json_response 200 (GObj [(''function'', GStr fn), (''result'', GNum x)])
             | None \<Rightarrow> failed)
        | _ \<Rightarrow> failed)
     else
       (case db_query (env_db env) db q args of
          Inl _ \<Rightarrow> failed
        | Inr (_, rs) \<Rightarrow>
            (let out = map (\<lambda>r. GObj (row_map (groups @ [''result'']) r [])) (filter (\<lambda>r. length r = Suc (length groups)) rs)
             in json_response 200 (GObj [(''function'', GStr fn), (''data'', if out = [] then GNil else GArr out)]))))"

definition apiStats :: "'db api_env \<Rightarrow> 'db \<Rightarrow> string \<Rightarrow> request \<Rightarrow> response" where
  "apiStats env db path r =
     (case loadEndpoint env db path of
        None \<Rightarrow> error_response 404 ''endpoint not found''
      | Some ep \<Rightarrow>
          (let fn = to_lower (trim_space (query_get r ''fn'')); col = query_get r ''column'' in
           if \<not> stats_authorized env ep r then error_response 401 ''unauthorized''
           else if fn \<notin> set allowedAggFuncsPublic then error_response 400 ''fn is required: count, sum, avg, min, or max''
           else if fn \<noteq> ''count'' \<and> col = [] then error_response 400 (fn @ '' requires a column parameter'')
           else if col \<noteq> [] \<and> ValidateColumnName col \<noteq> None then error_response 400 ''invalid column name''
           else if col \<noteq> [] \<and> is_hash ep col then error_response 400 ''cannot aggregate on secure columns''
           else (case group_columns ep (if query_get r ''group_by'' = [] then [] else split_on CHR '','' (query_get r ''group_by'')) of
                   Inl e \<Rightarrow> error_response 400 e
                 | Inr groups \<Rightarrow> stats_result env db fn groups (stats_statement ep fn col groups r))))"

section \<open>Routing\<close>

datatype special_route = UploadRoute | StreamRoute | SocketRoute

definition crud :: "'db api_env \<Rightarrow> 'db \<Rightarrow> apiEndpoint \<Rightarrow> string \<Rightarrow> string \<Rightarrow> request \<Rightarrow> response \<times> 'db \<times> Event list" where
  "crud env db ep path rowID r =
     (let m = ReqMethod r in
      if m = ''GET'' then (if rowID \<noteq> [] then apiGetOne env db ep rowID else apiList env db ep r, db, [])
      else if m = ''POST'' then apiInsert env db ep path r
      else if m = ''PUT'' then
        (if rowID = [] then (error_response 400 ''ID required for PUT'', db, []) else apiUpdate env db ep path rowID r)
      else if m = ''DELETE'' then
        (if rowID = [] then (error_response 400 ''ID required for DELETE'', db, []) else apiDelete env db ep path rowID)
      else (error_response 405 ''method not allowed'', db, []))"

definition DynamicAPI ::
  "'db api_env \<Rightarrow> ('db \<Rightarrow> request \<Rightarrow> string \<Rightarrow> (response \<times> 'db) option) \<Rightarrow>
   (special_route \<Rightarrow> 'db \<Rightarrow> request \<Rightarrow> string \<Rightarrow> response \<times> 'db \<times> Event list) \<Rightarrow> 'db \<Rightarrow> request \<Rightarrow> response \<times> 'db \<times> Event list" where
  \<comment> \<open>the second argument: the authentication endpoints, which may take the request; the third: uploads,
      event streams and sockets\<close>
  "DynamicAPI env auth special db r =
     (let fullPath = trim_prefix ''/api/'' (URLPath r) in
      if fullPath = [] then (error_response 404 ''endpoint not found'', db, [])
      else (case auth db r fullPath of
          Some (resp, db') \<Rightarrow> (resp, db', [])
        | None \<Rightarrow>
            (let path = (case cut ''/'' fullPath of Some (a, _) \<Rightarrow> a | None \<Rightarrow> fullPath);
                 rowID = (case cut ''/'' fullPath of Some (_, b) \<Rightarrow> b | None \<Rightarrow> [])
             in if rowID = ''_stats'' \<and> ReqMethod r = ''GET'' then (apiStats env db path r, db, [])
                else if rowID = ''upload'' \<and> ReqMethod r = ''POST'' then special UploadRoute db r path
                else if rowID = ''stream'' \<and> ReqMethod r = ''GET'' then special StreamRoute db r path
                else if rowID = ''ws'' then special SocketRoute db r path
                else (case loadEndpoint env db path of
                        None \<Rightarrow> (error_response 404 ''endpoint not found'', db, [])
                      | Some ep \<Rightarrow>
                          if \<not> methodAllowed (Methods ep) (ReqMethod r)
                          then (error_response 405 ''method not allowed'', db, [])
                          else (case authorize env ep r of
                                  Some resp \<Rightarrow> (resp, db, [])
                                | None \<Rightarrow> crud env db ep path rowID r)))))"

section \<open>The statements are well formed\<close>

definition sql_ok :: "string \<times> gval list \<Rightarrow> bool" where
  "sql_ok = (\<lambda>(q, args). sql_text q \<and> placeholders q = length args)"

definition endpoint_names_ok :: "apiEndpoint \<Rightarrow> bool" where
  "endpoint_names_ok ep \<longleftrightarrow> valid_identifier (TableName ep) \<and> list_all valid_identifier (PublicColumns ep)"

lemma sql_constants:
  "sql_text ''SELECT ''" "placeholders ''SELECT '' = 0" "sql_text '' FROM ''" "placeholders '' FROM '' = 0"
  "sql_text '' WHERE ''" "placeholders '' WHERE '' = 0" "sql_text '' AND ''" "placeholders '' AND '' = 0"
  "sql_text '' OR ''" "placeholders '' OR '' = 0" "sql_text '' ORDER BY ''" "placeholders '' ORDER BY '' = 0"
  "sql_text '' LIMIT ? OFFSET ?''" "placeholders '' LIMIT ? OFFSET ?'' = 2"
  "sql_text '' LIKE ? COLLATE NOCASE''" "placeholders '' LIKE ? COLLATE NOCASE'' = 1"
  "sql_text '', ''" "placeholders '', '' = 0" "sql_text ''*''" "placeholders ''*'' = 0"
  "sql_text '' = ?''" "placeholders '' = ?'' = 1" "sql_text '' ?''" "placeholders '' ?'' = 1"
  "sql_text ''?''" "placeholders ''?'' = 1" "sql_text ''id DESC''" "placeholders ''id DESC'' = 0"
  "sql_text ''INSERT INTO ''" "placeholders ''INSERT INTO '' = 0" "sql_text '') VALUES (''" "placeholders '') VALUES ('' = 0"
  "sql_text ''UPDATE ''" "placeholders ''UPDATE '' = 0" "sql_text '' SET ''" "placeholders '' SET '' = 0"
  "sql_text ''DELETE FROM ''" "placeholders ''DELETE FROM '' = 0" "sql_text '' (''" "placeholders '' ('' = 0"
  "sql_text '')''" "placeholders '')'' = 0" "sql_text ''(''" "placeholders ''('' = 0" "sql_text '' ''" "placeholders '' '' = 0"
  "sql_text ''ASC''" "placeholders ''ASC'' = 0" "sql_text ''DESC''" "placeholders ''DESC'' = 0"
  "sql_text ''COUNT(*)''" "placeholders ''COUNT(*)'' = 0" "sql_text ''COUNT(''" "placeholders ''COUNT('' = 0"
  "sql_text '' AS result''" "placeholders '' AS result'' = 0" "sql_text '' GROUP BY ''" "placeholders '' GROUP BY '' = 0"
  "sql_text []" "placeholders [] = 0"
  by code_simp+

lemmas sql_pieces = sql_constants sql_text_append placeholders_append sql_identifier sql_text_join placeholders_join

lemma map_filter_Some: "y \<in> set (List.map_filter f xs) \<Longrightarrow> \<exists>x \<in> set xs. f x = Some y"
  by (auto simp: map_filter_def)

lemma joined_identifiers:
  assumes "list_all valid_identifier ws"
  shows "sql_text (join '', '' ws)" "placeholders (join '', '' ws) = 0"
proof -
  have "list_all sql_text ws" "sum_list (map placeholders ws) = 0"
    using assms by (induction ws) (simp_all add: sql_identifier)
  then show "sql_text (join '', '' ws)" "placeholders (join '', '' ws) = 0"
    by (simp_all add: sql_text_join placeholders_join sql_constants)
qed

lemma visibleColumns_ok:
  assumes "endpoint_names_ok ep"
  shows "sql_text (visibleColumns ep)" "placeholders (visibleColumns ep) = 0"
proof -
  have id: "valid_identifier ''id''" by code_simp
  have cols: "list_all valid_identifier (filter (\<lambda>c. \<not> is_hash ep c) (PublicColumns ep))"
    using assms by (auto simp: endpoint_names_ok_def list_all_iff)
  from joined_identifiers [OF cols] sql_identifier [OF id]
  show "sql_text (visibleColumns ep)" "placeholders (visibleColumns ep) = 0"
    by (simp_all add: visibleColumns_def Let_def sql_constants)
qed

lemma filter_operators:
  "parseFilterParam key = Some (col, op, False) \<Longrightarrow> sql_text op \<and> placeholders op = 0"
proof -
  have "sql_text ''=''" "placeholders ''='' = 0" "sql_text ''>''" "placeholders ''>'' = 0"
    "sql_text ''>=''" "placeholders ''>='' = 0" "sql_text ''<''" "placeholders ''<'' = 0"
    "sql_text ''<=''" "placeholders ''<='' = 0" "sql_text ''!=''" "placeholders ''!='' = 0" by code_simp+
  then show "parseFilterParam key = Some (col, op, False) \<Longrightarrow> ?thesis"
    by (auto simp: parseFilterParam_def split: option.splits if_splits)
qed

lemma filter_clause_ok:
  assumes "filter_clause ep kv = Some (c, a)"
  shows "sql_text c" "placeholders c = 1"
proof -
  obtain key vals where kv: "kv = (key, vals)" by (cases kv)
  with assms obtain col op like where p: "parseFilterParam key = Some (col, op, like)" "valid_identifier col"
    and c: "c = (if like then like_clause col else col @ '' '' @ op @ '' ?'')"
    by (auto simp: filter_clause_def split: if_splits option.splits simp del: append.simps)
  have "\<not> like \<Longrightarrow> sql_text op \<and> placeholders op = 0" using filter_operators p(1) by (cases like) auto
  then show "sql_text c" "placeholders c = 1"
    using sql_identifier [OF p(2)] by (auto simp: c like_clause_def sql_constants simp del: append.simps)
qed

lemma where_sql_ok:
  assumes "list_all sql_text cs"
  shows "sql_text (where_sql cs)" "placeholders (where_sql cs) = sum_list (map placeholders cs)"
  using assms by (simp_all add: where_sql_def sql_pieces del: append.simps)

lemma order_sql_ok: "sql_text (order_sql r)" "placeholders (order_sql r) = 0"
  by (auto simp: order_sql_def Let_def sql_pieces simp del: append.simps)

lemma search_clause_ok:
  assumes "list_all valid_identifier cols"
  shows "list_all sql_text (map fst (search_clause cols t))"
    "sum_list (map placeholders (map fst (search_clause cols t))) = length (concat (map snd (search_clause cols t)))"
proof -
  have like: "sql_text (like_clause c)" "placeholders (like_clause c) = 1" if "c \<in> set cols" for c
    using assms that sql_identifier [of c] by (simp_all add: list_all_iff like_clause_def sql_constants del: append.simps)
  have "sum_list (map (placeholders \<circ> like_clause) cols) = length cols"
    using like(2) by (induction cols) auto
  with like(1) show "list_all sql_text (map fst (search_clause cols t))"
    "sum_list (map placeholders (map fst (search_clause cols t))) = length (concat (map snd (search_clause cols t)))"
    by (auto simp: search_clause_def sql_constants sql_text_join placeholders_join list_all_iff simp del: append.simps)
qed

lemma one_each:
  "(\<And>y. y \<in> set ys \<Longrightarrow> sql_text (fst y) \<and> placeholders (fst y) = 1) \<Longrightarrow>
   list_all sql_text (map fst ys) \<and> sum_list (map placeholders (map fst ys)) = length ys"
  by (induction ys) auto

lemma clauses_ok:
  assumes "\<And>x y. x \<in> set xs \<Longrightarrow> f x = Some y \<Longrightarrow> sql_text (fst y) \<and> placeholders (fst y) = 1"
  shows "list_all sql_text (map fst (List.map_filter f xs))"
    "sum_list (map placeholders (map fst (List.map_filter f xs))) = length (List.map_filter f xs)"
proof -
  have "sql_text (fst y) \<and> placeholders (fst y) = 1" if "y \<in> set (List.map_filter f xs)" for y
    using map_filter_Some [OF that] assms by blast
  then show "list_all sql_text (map fst (List.map_filter f xs))"
    "sum_list (map placeholders (map fst (List.map_filter f xs))) = length (List.map_filter f xs)"
    using one_each [of "List.map_filter f xs"] by blast+
qed

lemma list_statement_ok:
  assumes "endpoint_names_ok ep" "list_all valid_identifier cols"
  shows "sql_ok (list_statement ep cols r)"
proof -
  have f: "list_all sql_text (map fst (filter_clauses ep r))"
    "sum_list (map placeholders (map fst (filter_clauses ep r))) = length (filter_clauses ep r)"
    using clauses_ok [of "Query r" "filter_clause ep"] filter_clause_ok [of ep]
    by (force simp: filter_clauses_def)+
  have t: "sql_text (TableName ep)" "placeholders (TableName ep) = 0"
    using assms(1) sql_identifier by (auto simp: endpoint_names_ok_def)
  show ?thesis
    using f search_clause_ok [OF assms(2), of "query_get r ''q''"] t visibleColumns_ok [OF assms(1)] order_sql_ok [of r]
    by (simp add: sql_ok_def list_statement_def Let_def sql_constants where_sql_ok del: append.simps)
qed

lemma rowIDColumn_identifier: "valid_identifier (rowIDColumn lib db table rowID)"
proof -
  have "valid_identifier ''id''" "valid_identifier ''uuid''" "valid_identifier ''slug''" by code_simp+
  then show ?thesis by (simp add: rowIDColumn_def)
qed

lemma first_bad_field_None: "first_bad_field b = None \<longleftrightarrow> list_all valid_identifier (map fst b)"
  by (induction b rule: first_bad_field.induct) auto

lemma checked_body_names: "checked_body env ep r = Inr b \<Longrightarrow> list_all valid_identifier (map fst b)"
  by (auto simp: checked_body_def first_bad_field_None split: option.splits sum.splits if_splits)

lemma write_statements_ok:
  assumes "valid_identifier (TableName ep)" "valid_identifier col"
  shows "sql_ok (delete_statement ep col rowID)"
    "list_all valid_identifier (map fst b) \<Longrightarrow> sql_ok (insert_statement ep b)"
    "list_all valid_identifier (map fst b) \<Longrightarrow> sql_ok (update_statement ep col rowID b)"
proof -
  note ids = sql_identifier [OF assms(1)] sql_identifier [OF assms(2)]
  show "sql_ok (delete_statement ep col rowID)"
    using ids by (simp add: sql_ok_def delete_statement_def sql_constants del: append.simps)
  assume names: "list_all valid_identifier (map fst b)"
  have marks: "list_all sql_text (map (\<lambda>_. ''?'') b)" "sum_list (map placeholders (map (\<lambda>_. ''?'') b)) = length b"
    by (induction b) (simp_all add: sql_constants)
  show "sql_ok (insert_statement ep b)"
    using ids joined_identifiers [OF names] marks
    by (simp add: sql_ok_def insert_statement_def sql_constants sql_text_join placeholders_join del: append.simps)
  have sets: "list_all sql_text (map (\<lambda>(c, _). c @ '' = ?'') b)"
    "sum_list (map placeholders (map (\<lambda>(c, _). c @ '' = ?'') b)) = length b"
    using names by (induction b) (auto simp: sql_constants sql_identifier simp del: append.simps)
  show "sql_ok (update_statement ep col rowID b)"
    using ids sets
    by (simp add: sql_ok_def update_statement_def sql_constants sql_text_join placeholders_join del: append.simps map_map)
qed

lemma agg_expr_ok:
  assumes "fn \<in> set allowedAggFuncsPublic" "col = [] \<or> valid_identifier col" "fn = ''count'' \<or> col \<noteq> []"
  shows "sql_text (agg_expr fn col)" "placeholders (agg_expr fn col) = 0"
proof -
  have "list_all (\<lambda>f. sql_text (to_upper f) \<and> placeholders (to_upper f) = 0) allowedAggFuncsPublic" by code_simp
  then have "sql_text (to_upper fn) \<and> placeholders (to_upper fn) = 0" using assms(1) by (auto simp: list_all_iff)
  with assms(2,3) show "sql_text (agg_expr fn col)" "placeholders (agg_expr fn col) = 0"
    by (auto simp: agg_expr_def sql_constants sql_identifier simp del: append.simps)
qed

lemma group_columns_ok: "group_columns ep gs = Inr cs \<Longrightarrow> list_all valid_identifier cs \<and> list_all (\<lambda>c. \<not> is_hash ep c) cs"
  by (induction ep gs arbitrary: cs rule: group_columns.induct)
    (auto simp: Let_def split: if_splits sum.splits)

lemma stats_statement_ok:
  assumes "valid_identifier (TableName ep)" "list_all valid_identifier groups"
    and "fn \<in> set allowedAggFuncsPublic" "col = [] \<or> valid_identifier col" "fn = ''count'' \<or> col \<noteq> []"
  shows "sql_ok (stats_statement ep fn col groups r)"
proof -
  have "sql_text (fst y) \<and> placeholders (fst y) = 1" if "stats_filter ep x = Some y" for x y
    using that by (auto simp: stats_filter_def sql_identifier sql_constants split: prod.splits if_splits simp del: append.simps)
  note f = clauses_ok [of "Query r" "stats_filter ep", OF this]
  have g: "list_all sql_text (groups @ [agg_expr fn col @ '' AS result''])"
    "sum_list (map placeholders (groups @ [agg_expr fn col @ '' AS result''])) = 0"
  proof -
    have "list_all sql_text groups" "sum_list (map placeholders groups) = 0"
      using assms(2) by (induction groups) (simp_all add: sql_identifier)
    then show "list_all sql_text (groups @ [agg_expr fn col @ '' AS result''])"
      "sum_list (map placeholders (groups @ [agg_expr fn col @ '' AS result''])) = 0"
      using agg_expr_ok [OF assms(3-5)] by (simp_all add: sql_constants del: append.simps)
  qed
  show ?thesis
    using f g sql_identifier [OF assms(1)] joined_identifiers [OF assms(2)]
    by (simp add: sql_ok_def stats_statement_def Let_def sql_constants where_sql_ok sql_text_join placeholders_join
        del: append.simps map_append sum_list.append)
qed

lemma get_statement_ok:
  assumes "endpoint_names_ok ep" "valid_identifier col"
  shows "sql_ok (get_statement ep col rowID)"
  using visibleColumns_ok [OF assms(1)] sql_identifier [of "TableName ep"] sql_identifier [OF assms(2)] assms(1)
  by (simp add: sql_ok_def get_statement_def endpoint_names_ok_def sql_constants del: append.simps)

definition harmless :: "string \<Rightarrow> gval list \<Rightarrow> string \<Rightarrow> bool" where
  \<comment> \<open>a statement of the characters above with an argument for each placeholder, or the question whether a
      table has a column\<close>
  "harmless q args table \<longleftrightarrow> sql_ok (q, args) \<or> valid_identifier table \<and> q = column_probe table"

definition guarded :: "string \<Rightarrow> 'db api_env \<Rightarrow> 'db api_env" where
  \<comment> \<open>the same environment with a database that refuses any other statement\<close>
  "guarded table env = env\<lparr>env_db := \<lparr>
     db_query = (\<lambda>db q args. if harmless q args table then db_query (env_db env) db q args else Inl ''refused''),
     db_exec = (\<lambda>db q args. if harmless q args table then db_exec (env_db env) db q args else (Inl ''refused'', db))\<rparr>\<rparr>"

lemma guarded_simps [simp]:
  "env_crypto (guarded t env) = env_crypto env" "env_body (guarded t env) = env_body env"
  "env_bus (guarded t env) = env_bus env" "env_float (guarded t env) = env_float env"
  "env_config (guarded t env) = env_config env"
  by (simp_all add: guarded_def)

lemma guarded_body [simp]:
  "checked_body (guarded t env) = checked_body env" "data_event (guarded t env) = data_event env"
  by (auto simp: checked_body_def data_event_def fun_eq_iff split: option.split sum.split)

lemma guarded_changed_row [simp]: "changed_row (guarded t env) = changed_row env"
  by (auto simp: changed_row_def fun_eq_iff split: sum.split)

lemma guarded_query: "sql_ok s \<Longrightarrow> db_query (env_db (guarded t env)) db (fst s) (snd s) = db_query (env_db env) db (fst s) (snd s)"
  by (simp add: guarded_def harmless_def)

lemma guarded_exec: "sql_ok s \<Longrightarrow> db_exec (env_db (guarded t env)) db (fst s) (snd s) = db_exec (env_db env) db (fst s) (snd s)"
  by (simp add: guarded_def harmless_def)

lemma guarded_rowIDColumn:
  "valid_identifier t \<Longrightarrow> rowIDColumn (env_db (guarded t env)) db t rowID = rowIDColumn (env_db env) db t rowID"
  by (simp add: rowIDColumn_def has_column_def first_row_def guarded_def harmless_def column_probe_def)

lemma table_info_ok: "valid_identifier t \<Longrightarrow> sql_ok (''PRAGMA table_info('' @ t @ '')'', [])"
proof -
  have "sql_text ''PRAGMA table_info(''" "placeholders ''PRAGMA table_info('' = 0" by code_simp+
  then show "valid_identifier t \<Longrightarrow> ?thesis" by (simp add: sql_ok_def sql_identifier sql_constants del: append.simps)
qed

lemma guarded_text_columns:
  "endpoint_names_ok ep \<Longrightarrow> getTextColumns (env_db (guarded t env)) db ep = getTextColumns (env_db env) db ep"
  using guarded_query [OF table_info_ok, of "TableName ep" t env db]
  by (simp add: getTextColumns_def endpoint_names_ok_def)

text \<open>
  C18. Whatever a request holds (parameter names and values, field names, row identifiers), the statements
  a data route sends to the database for an endpoint whose table and columns are identifiers are made of
  letters, digits and template characters, none of which ends a statement or opens a literal or a comment,
  with an argument for each placeholder: a database that refuses all other statements answers the same.
\<close>
theorem crud_injection_free:
  assumes "endpoint_names_ok ep" "list_all valid_identifier (getTextColumns (env_db env) db ep)"
  shows "crud (guarded (TableName ep) env) db ep path rowID r = crud env db ep path rowID r"
proof -
  define col where "col = rowIDColumn (env_db env) db (TableName ep) rowID"
  have t: "valid_identifier (TableName ep)" using assms(1) by (simp add: endpoint_names_ok_def)
  have col: "valid_identifier col" unfolding col_def by (rule rowIDColumn_identifier)
  note rid = guarded_rowIDColumn [OF t, of env db rowID, folded col_def]
  note stm = list_statement_ok [OF assms] list_statement_ok [OF assms(1), of "[]"] get_statement_ok [OF assms(1) col]
    write_statements_ok [OF t col]
  have qry: "db_query (env_db (guarded (TableName ep) env)) db (fst s) (snd s) = db_query (env_db env) db (fst s) (snd s)"
    and exc: "db_exec (env_db (guarded (TableName ep) env)) db (fst s) (snd s) = db_exec (env_db env) db (fst s) (snd s)"
    if "sql_ok s" for s using that by (rule guarded_query, rule guarded_exec)
  have "apiList (guarded (TableName ep) env) db ep r = apiList env db ep r"
    using qry [OF stm(1)] qry [OF stm(2)]
    by (simp add: apiList_def guarded_text_columns [OF assms(1)] case_prod_beta)
  moreover have "apiGetOne (guarded (TableName ep) env) db ep rowID = apiGetOne env db ep rowID"
    using qry [OF stm(3)] by (simp add: apiGetOne_def rid col_def [symmetric] case_prod_beta)
  moreover have "apiInsert (guarded (TableName ep) env) db ep path r = apiInsert env db ep path r"
    using exc [OF stm(5)] checked_body_names [of env ep r]
    by (auto simp: apiInsert_def case_prod_beta split: sum.split)
  moreover have "apiUpdate (guarded (TableName ep) env) db ep path rowID r = apiUpdate env db ep path rowID r"
    using exc [OF stm(6)] checked_body_names [of env ep r]
    by (auto simp: apiUpdate_def rid col_def [symmetric] case_prod_beta split: sum.split)
  moreover have "apiDelete (guarded (TableName ep) env) db ep path rowID = apiDelete env db ep path rowID"
    using exc [OF stm(4)] by (simp add: apiDelete_def rid col_def [symmetric] case_prod_beta)
  ultimately show ?thesis by (simp add: crud_def Let_def)
qed

section \<open>Access to protected endpoints\<close>

definition has_credentials :: "'db api_env \<Rightarrow> apiEndpoint \<Rightarrow> request \<Rightarrow> bool" where
  \<comment> \<open>the site's key, or a valid session of this site with the role the endpoint asks for\<close>
  "has_credentials env ep r \<longleftrightarrow>
     bearer r \<noteq> [] \<and> (\<exists>cfg. env_config env = Some cfg \<and> get_str cfg ''api_key'' = bearer r) \<or>
     (\<exists>lib j c. env_jwt env = Some (lib, j) \<and> ValidateToken lib j (bearer r) = Inr c \<and>
        ClaimSiteID c = env_site env \<and> (RequiredRole ep = [] \<or> ClaimRole c = RequiredRole ep))"

lemma authorize_iff:
  "authorize env ep r = None \<longleftrightarrow> \<not> RequiresAuth ep \<or> ReqMethod r = ''GET'' \<and> PublicRead ep \<or> has_credentials env ep r"
  by (auto simp: authorize_def validateSiteToken_def has_credentials_def Let_def split: option.splits sum.splits)

lemma authorize_status: "authorize env ep r = Some resp \<Longrightarrow> Status resp \<in> {401, 403}"
  by (auto simp: authorize_def error_response_def json_response_def split: if_splits option.splits sum.splits)


section \<open>Hash columns\<close>

lemma delete_hashes_keys:
  "map_of (delete_hashes secure m) c = (if (c, ''hash'') \<in> set secure then None else map_of m c)"
  by (induction secure m rule: delete_hashes.induct) auto

lemma stripSecureColumns_none:
  "m \<in> set (stripSecureColumns results secure) \<Longrightarrow> (c, ''hash'') \<in> set secure \<Longrightarrow> map_of m c = None"
  by (auto simp: stripSecureColumns_def delete_hashes_keys split: if_splits)

definition answered_rows :: "gval \<Rightarrow> (string \<times> gval) list list" where
  \<comment> \<open>the row objects of a listing, or the object answered\<close>
  "answered_rows v =
     (case v of
        GObj m \<Rightarrow> (case map_of m ''data'' of
                     Some (GArr vs) \<Rightarrow> List.map_filter (\<lambda>v. case v of GObj r \<Rightarrow> Some r | _ \<Rightarrow> None) vs
                   | _ \<Rightarrow> [m])
      | _ \<Rightarrow> [])"

text \<open>
  No listing holds a value under the exact name of a hash column, whatever columns the endpoint
  publishes, the table has or the request asks for, in every row.
\<close>
theorem apiList_hides_hashes:
  assumes "Status (apiList env db ep r) = 200" "(c, ''hash'') \<in> set (SecureCols ep)"
    and "m \<in> set (answered_rows (RespBody (apiList env db ep r)))"
  shows "map_of m c = None"
proof -
  obtain rs where "RespBody (apiList env db ep r) = GObj [(''data'', GArr (map GObj (stripSecureColumns
      (scanRowsToMaps rs) (SecureCols ep)))), (''count'', GInt (int (length (stripSecureColumns (scanRowsToMaps rs)
      (SecureCols ep))))), (''limit'', GInt (page_limit r)), (''offset'', GInt (page_offset r))]"
    using assms(1)
    by (auto simp: apiList_def error_response_def json_response_def Let_def split: prod.splits sum.splits if_splits)
  with assms(3) have "m \<in> set (stripSecureColumns (scanRowsToMaps rs) (SecureCols ep))"
    by (auto simp: answered_rows_def map_filter_map_filter [symmetric] map_filter_def image_iff split: if_splits)
  then show ?thesis by (rule stripSecureColumns_none [OF _ assms(2)])
qed

text \<open>
  A listing may be sorted by a hash column, and the check of filter columns compares names exactly:
  another spelling of the column, which SQLite takes for the same column, is accepted. Both let a client
  learn the order of hashes it cannot read.
\<close>
theorem hash_column_oracle:
  assumes "is_hash ep col" "valid_identifier col" "query_get r ''sort'' = col"
    and "equal_fold col' col" "valid_identifier col'" "\<not> is_hash ep col'" "key = col' @ ''__gt''" "cut ''__'' key = Some (col', ''gt'')"
    and "key \<notin> set reservedParams"
  shows "(\<exists>dir. order_sql r = col @ '' '' @ dir) \<and>
    filter_clause ep (key, [v]) = Some (col' @ '' > ?'', GStr v)"
proof
  have "col \<noteq> []" using assms(2) by (auto simp: valid_identifier_def)
  with assms(2,3) show "\<exists>dir. order_sql r = col @ '' '' @ dir" by (auto simp: order_sql_def Let_def)
  show "filter_clause ep (key, [v]) = Some (col' @ '' > ?'', GStr v)"
    using assms(5,6,8,9) by (simp add: filter_clause_def parseFilterParam_def)
qed

section \<open>A concrete site\<close>

definition users_db :: "unit sqlite" where
  "users_db = \<lparr>
     db_query = (\<lambda>_ q args.
       if q = endpoint_query then Inr ([], [[GInt 1, GStr ''users'', GStr ''users'', GStr ''POST'', GNil, GInt 1, GInt 0, GNil, GInt 60]])
       else if q = secure_query then Inr ([], [[GStr ''password'']])
       else Inr ([''id'', ''password''], [[GInt 1, GStr ''h'']])),
     db_exec = (\<lambda>db _ _. (Inr (1, 1), db))\<rparr>"

definition users_env :: "unit api_env" where
  "users_env = \<lparr>env_db = users_db, env_site = 1, env_jwt = None,
     env_crypto = \<lparr>cr_bcrypt = (\<lambda>_ s. Inr s), cr_aead = None, cr_nonce = None, cr_print = (\<lambda>_. [])\<rparr>,
     env_bus = True, env_config = Some [(''api_key'', JStr ''k1'')], env_strings = (\<lambda>s. [s]),
     env_string_map = (\<lambda>s. [(s, ''hash'')]), env_body = (\<lambda>_. Some [(''name'', GStr ''x'')]), env_float = (\<lambda>_. None)\<rparr>"

definition anonymous :: "string \<Rightarrow> string \<Rightarrow> (string \<times> string list) list \<Rightarrow> request" where
  "anonymous m path q = \<lparr>ReqMethod = m, URLPath = path, Query = q, Header = (\<lambda>_. []), Cookies = [], ReqHost = [],
     RemoteAddr = [], ReqBody = []\<rparr>"

definition users_ep :: apiEndpoint where
  "users_ep = \<lparr>EpPath = ''users'', TableName = ''users'', Methods = [''POST''], PublicColumns = [], RequiresAuth = True,
     PublicRead = False, RequiredRole = [], EpRateLimit = 60, SecureCols = [(''password'', ''hash'')]\<rparr>"

lemma load_users: "loadEndpoint users_env () ''users'' = Some users_ep"
  by (simp add: loadEndpoint_def first_row_def users_env_def users_db_def scan_endpoint_def row_string_def row_bool_def
      null_string_def secure_columns_def users_ep_def endpoint_query_def secure_query_def)


lemma users_names_ok: "endpoint_names_ok users_ep"
proof -
  have "valid_identifier ''users''" by code_simp
  then show ?thesis by (simp add: endpoint_names_ok_def users_ep_def)
qed

theorem crud_injection_free_witness:
  "crud (guarded (TableName users_ep) users_env) () users_ep ''users'' [] (anonymous ''POST'' ''/api/users'' []) =
   crud users_env () users_ep ''users'' [] (anonymous ''POST'' ''/api/users'' [])"
  by (rule crud_injection_free [OF users_names_ok])
    (simp add: getTextColumns_def users_env_def users_db_def endpoint_query_def secure_query_def map_filter_def text_column_def)

theorem apiList_hides_hashes_witness:
  "list_all (\<lambda>m. map_of m ''password'' = None)
     (answered_rows (RespBody (apiList users_env () users_ep (anonymous ''GET'' ''/api/users'' []))))"
proof -
  have "Status (apiList users_env () users_ep (anonymous ''GET'' ''/api/users'' [])) = 200"
    by (simp add: apiList_def json_response_def users_env_def users_db_def Let_def list_statement_def endpoint_query_def
        secure_query_def query_get_def anonymous_def)
  from apiList_hides_hashes [OF this, of "''password''"] show ?thesis
    by (simp add: list_all_iff users_ep_def)
qed

theorem hash_column_oracle_witness:
  "filter_clause users_ep (''Password__gt'', [''$2a$14$M'']) = Some (''Password > ?'', GStr ''$2a$14$M'')"
proof -
  have "valid_identifier ''password''" "valid_identifier ''Password''" "equal_fold ''Password'' ''password''"
    "cut ''__'' ''Password__gt'' = Some (''Password'', ''gt'')" by code_simp+
  with hash_column_oracle [of users_ep "''password''" "anonymous ''GET'' [] [(''sort'', [''password''])]" "''Password''"
      "''Password__gt''" "''$2a$14$M''"]
  show ?thesis by (simp add: is_hash_def users_ep_def query_get_def anonymous_def reservedParams_def)
qed

end
