(* ===== verification/Tables.thy ===== *)
theory Tables
  imports PublicApi
begin

text \<open>
  The tools \<^verbatim>\<open>manage_schema\<close> and \<^verbatim>\<open>manage_data\<close> of \<^verbatim>\<open>tools/tables.go\<close>, with which the language model
  creates tables and reads and writes their rows. A tool runs on the site's own tables (the world of the
  worker, reached through the approvals and the log of destructive actions), on a database reached by the
  text of statements, and on the record of every statement sent. Shown: the texts are made of identifiers
  and templates, reserved names send nothing, dropping needs the owner's approval, bulk inserts are atomic.
\<close>

section \<open>Names and types of columns\<close>

definition systemTables :: "string list" where
  "systemTables =
     [''pages'', ''page_versions'', ''assets'', ''files'', ''file_versions'', ''brain_log'', ''memory'',
      ''chat_messages'', ''questions'', ''answers'', ''dynamic_tables'', ''api_endpoints'', ''auth_endpoints'',
      ''oauth_providers'', ''webhooks'', ''webhook_subscriptions'', ''webhook_logs'', ''analytics'', ''secrets'',
      ''scheduled_tasks'', ''task_runs'', ''activity_log'', ''approval_rules'', ''site_snapshots'', ''service_providers'',
      ''llm_log'', ''layouts'', ''layout_versions'', ''pipeline_state'', ''stage_log'', ''upload_endpoints'',
      ''stream_endpoints'', ''redirects'', ''ws_endpoints'']"

definition sanitizedTableName :: "string \<Rightarrow> string + string" where
  "sanitizedTableName name =
     (if \<not> valid_identifier name
      then Inl (''invalid table name: '' @ name @ '' (must be alphanumeric/underscore, start with letter)'')
      else if name \<in> set systemTables then Inl (''cannot use reserved system table: '' @ name)
      else Inr name)"

definition allowedColumnTypes :: "(string \<times> string) list" where
  "allowedColumnTypes =
     [(''TEXT'', ''TEXT''), (''INTEGER'', ''INTEGER''), (''REAL'', ''REAL''), (''BLOB'', ''BLOB''), (''BOOLEAN'', ''BOOLEAN''),
      (''PASSWORD'', ''TEXT''), (''ENCRYPTED'', ''TEXT'')]"

definition secureColumnKinds :: "(string \<times> string) list" where
  "secureColumnKinds = [(''PASSWORD'', ''hash''), (''ENCRYPTED'', ''encrypt'')]"

fun column_defs :: "string \<Rightarrow> (string \<times> jval) list \<Rightarrow> string + (string \<times> string \<times> string) list" where
  \<comment> \<open>name, logical type and SQL type of each column; the first argument ends the message for an unknown type\<close>
  "column_defs hint [] = Inr []"
| "column_defs hint ((colName, raw) # cols) =
     (if \<not> valid_identifier colName then Inl (''invalid column name: '' @ colName)
      else (case raw of
              JStr s \<Rightarrow>
                (case map_of allowedColumnTypes (to_upper s) of
                   None \<Rightarrow> Inl (''unsupported column type: '' @ to_upper s @ hint)
                 | Some sqlType \<Rightarrow>
                     (case column_defs hint cols of
                        Inl e \<Rightarrow> Inl e
                      | Inr ds \<Rightarrow> Inr ((colName, to_upper s, sqlType) # ds)))
            | _ \<Rightarrow> Inl (''column type must be a string for '' @ colName)))"

definition secure_kinds :: "(string \<times> string \<times> string) list \<Rightarrow> (string \<times> string) list" where
  "secure_kinds = List.map_filter (\<lambda>(colName, colType, _). map_option (Pair colName) (map_of secureColumnKinds colType))"

section \<open>Filters\<close>

fun gval_of :: "jval \<Rightarrow> gval" where
  "gval_of JNull = GNil"
| "gval_of (JBool b) = GBool b"
| "gval_of (JNum q) = GNum q"
| "gval_of (JStr s) = GStr s"
| "gval_of (JArr vs) = GArr (map gval_of vs)"
| "gval_of (JObj m) = GObj (map (map_prod id gval_of) m)"

definition allowedOps :: "string list" where
  "allowedOps = [''='', ''!='', ''<'', ''>'', ''<='', ''>='', ''LIKE'', ''NOT LIKE'', ''IS NULL'', ''IS NOT NULL'']"

definition where_part :: "jval \<Rightarrow> string + (string \<times> gval list)" where
  "where_part f =
     (case f of
        JObj fm \<Rightarrow>
          (let col = get_str fm ''column''; op = to_upper (trim_space (get_str fm ''op'')) in
           if \<not> valid_identifier col then Inl (''invalid column name in filter: '' @ col)
           else if op \<notin> set allowedOps then Inl (''unsupported operator: '' @ op)
           else if op = ''IS NULL'' \<or> op = ''IS NOT NULL'' then Inr (col @ '' '' @ op, [])
           else (case map_of fm ''value'' of
                   None \<Rightarrow> Inl (''filter on '' @ col @ '' requires a value'')
                 | Some v \<Rightarrow> Inr (col @ '' '' @ op @ '' ?'', [gval_of v])))
      | _ \<Rightarrow> Inl ''each filter must be an object with column, op, and value'')"

fun where_parts :: "jval list \<Rightarrow> string + (string \<times> gval list) list" where
  "where_parts [] = Inr []"
| "where_parts (f # fs) =
     (case where_part f of
        Inl e \<Rightarrow> Inl e
      | Inr c \<Rightarrow> (case where_parts fs of Inl e \<Rightarrow> Inl e | Inr cs \<Rightarrow> Inr (c # cs)))"

definition buildWhereClause :: "jval list \<Rightarrow> string + (string \<times> gval list)" where
  "buildWhereClause filters =
     (if filters = [] then Inr ([], [])
      else (case where_parts filters of
              Inl e \<Rightarrow> Inl e
            | Inr cs \<Rightarrow> Inr ('' WHERE '' @ join '' AND '' (map fst cs), concat (map snd cs))))"

definition arg_filters :: "jobj \<Rightarrow> string + (string \<times> gval list)" where
  \<comment> \<open>the argument \<^verbatim>\<open>filters\<close> when it is a list with elements\<close>
  "arg_filters args =
     (case map_of args ''filters'' of
        Some (JArr (f # fs)) \<Rightarrow> buildWhereClause (f # fs)
      | _ \<Rightarrow> Inr ([], []))"

section \<open>Running tools\<close>

record 'db tool_world =
  tw_world :: world
  tw_db :: 'db
  tw_sent :: "(string \<times> gval list) list"
  tw_draws :: nat

record 'db tool_env =
  te_lib :: "'db sqlite"
  te_begin :: "'db \<Rightarrow> string option"
  te_commit :: "'db \<Rightarrow> string + 'db"
  te_deps :: deps
  te_bus :: bool
  te_crypto :: "nat \<Rightarrow> crypto"
  te_string_map :: "string \<Rightarrow> (string \<times> string) list option"
  te_encoder :: encoder
  te_float :: "string \<Rightarrow> rat option"
  te_print :: "jval option \<Rightarrow> string"
  te_scan_error :: "gval option \<Rightarrow> string"

type_synonym ('db, 'a) act = "('db tool_world, 'a) State_Monad.state"

abbreviation answer :: "Result \<Rightarrow> ('db, tool_outcome) act" where
  "answer r \<equiv> State_Monad.return (Returned (Some r) None)"

abbreviation rejected :: "string \<Rightarrow> ('db, tool_outcome) act" where
  "rejected e \<equiv> answer (failure e)"

abbreviation raised :: "string \<Rightarrow> ('db, tool_outcome) act" where
  \<comment> \<open>\<^verbatim>\<open>return nil, fmt.Errorf(...)\<close>\<close>
  "raised e \<equiv> State_Monad.return (Returned None (Some e))"

definition on_world :: "'a eff \<Rightarrow> ('db, 'a) act" where
  "on_world m = State (\<lambda>s. (fst (run_state m (tw_world s)), s\<lparr>tw_world := snd (run_state m (tw_world s))\<rparr>))"

definition Exec :: "'db tool_env \<Rightarrow> string \<Rightarrow> gval list \<Rightarrow> ('db, string + (int \<times> nat)) act" where
  "Exec env q args = State (\<lambda>s.
     (fst (db_exec (te_lib env) (tw_db s) q args),
      s\<lparr>tw_db := snd (db_exec (te_lib env) (tw_db s) q args), tw_sent := tw_sent s @ [(q, args)]\<rparr>))"

definition QueryRows :: "'db tool_env \<Rightarrow> string \<Rightarrow> gval list \<Rightarrow> ('db, string + rows) act" where
  "QueryRows env q args = State (\<lambda>s.
     (db_query (te_lib env) (tw_db s) q args, s\<lparr>tw_sent := tw_sent s @ [(q, args)]\<rparr>))"

definition QueryOne :: "'db tool_env \<Rightarrow> string \<Rightarrow> gval list \<Rightarrow> ('db, string + gval list option) act" where
  \<comment> \<open>the first row, if there is one\<close>
  "QueryOne env q args =
     do { r \<leftarrow> QueryRows env q args;
          State_Monad.return (case r of
             Inl e \<Rightarrow> Inl e
           | Inr (_, v # _) \<Rightarrow> Inr (Some v)
           | Inr (_, []) \<Rightarrow> Inr None) }"

definition QueryInt :: "'db tool_env \<Rightarrow> string \<Rightarrow> gval list \<Rightarrow> ('db, string + int) act" where
  \<comment> \<open>\<^verbatim>\<open>QueryRow(...).Scan(&n)\<close>\<close>
  "QueryInt env q args =
     do { r \<leftarrow> QueryOne env q args;
          State_Monad.return (case r of
             Inl e \<Rightarrow> Inl e
           | Inr (Some [GInt n]) \<Rightarrow> Inr n
           | Inr (Some [v]) \<Rightarrow> Inl (te_scan_error env (Some v))
           | Inr _ \<Rightarrow> Inl (te_scan_error env None)) }"

definition LoadSecureColumns :: "'db tool_env \<Rightarrow> string \<Rightarrow> ('db, (string \<times> string) list) act" where
  \<comment> \<open>the error is always nil, and a nil map is the empty one\<close>
  "LoadSecureColumns env table =
     do { r \<leftarrow> QueryOne env secure_query [GStr table];
          State_Monad.return (case r of
             Inr (Some [GStr raw]) \<Rightarrow> (case te_string_map env raw of Some m \<Rightarrow> m | None \<Rightarrow> [])
           | _ \<Rightarrow> []) }"

definition processColumn :: "'db tool_env \<Rightarrow> (string \<times> string) list \<Rightarrow> string \<Rightarrow> gval \<Rightarrow> ('db, string + gval) act" where
  \<comment> \<open>each processed value draws its own randomness\<close>
  "processColumn env secure col v =
     (case map_of secure col of
        None \<Rightarrow> State_Monad.return (Inr v)
      | Some kind \<Rightarrow>
          State (\<lambda>s. (ProcessSecureValue (te_crypto env (tw_draws s)) kind v, s\<lparr>tw_draws := Suc (tw_draws s)\<rparr>)))"

section \<open>The tool \<^verbatim>\<open>manage_schema\<close>\<close>

definition squoted :: "string \<Rightarrow> string" where
  "squoted s = [CHR 0x27] @ s @ [CHR 0x27]"

definition indent :: "nat \<Rightarrow> string" where
  "indent n = nl # replicate n CHR 0x09"

definition text_list :: "string list \<Rightarrow> gval" where
  \<comment> \<open>a nil slice is the empty list\<close>
  "text_list xs = GArr (map GStr xs)"

definition text_map :: "(string \<times> string) list \<Rightarrow> gval" where
  "text_map m = GObj (map (map_prod id GStr) m)"

definition create_statement :: "string \<Rightarrow> (string \<times> string \<times> string) list \<Rightarrow> string" where
  "create_statement table ds =
     ''CREATE TABLE IF NOT EXISTS '' @ table @ '' (id INTEGER PRIMARY KEY AUTOINCREMENT, '' @
     join '', '' (map (\<lambda>(colName, _, sqlType). colName @ '' '' @ sqlType) ds) @
     '', created_at DATETIME DEFAULT CURRENT_TIMESTAMP)''"

definition registry_upsert :: string where
  "registry_upsert =
     ''INSERT INTO dynamic_tables (table_name, schema_def, secure_columns)'' @ indent 2 @
     '' VALUES (?, ?, ?)'' @ indent 2 @
     '' ON CONFLICT(table_name) DO UPDATE SET schema_def = excluded.schema_def, secure_columns = excluded.secure_columns''"

definition fts_statements :: "string \<Rightarrow> string list \<Rightarrow> (string \<times> string) list" where
  \<comment> \<open>what is being created, and the statement\<close>
  "fts_statements table columns =
     (let fts = table @ ''_fts''; cols = join '', '' columns;
          new = join '', '' (map (\<lambda>c. ''new.'' @ c) columns); old = join '', '' (map (\<lambda>c. ''old.'' @ c) columns);
          ins = ''INSERT INTO '' @ fts @ ''(rowid, '' @ cols @ '') VALUES (new.id, '' @ new @ '');'';
          del = ''INSERT INTO '' @ fts @ ''('' @ fts @ '', rowid, '' @ cols @ '') VALUES('' @ squoted ''delete'' @
            '', old.id, '' @ old @ '');'';
          trigger = (\<lambda>sfx event stmts. ''CREATE TRIGGER IF NOT EXISTS '' @ table @ sfx @ '' AFTER '' @ event @ '' ON '' @
            table @ '' BEGIN'' @ concat (map (\<lambda>s. indent 3 @ s) stmts) @ indent 2 @ ''END'')
      in [(''creating FTS5 table: '', ''CREATE VIRTUAL TABLE IF NOT EXISTS '' @ fts @ '' USING fts5('' @ cols @ '', content='' @
             table @ '', content_rowid=id)''),
          (''creating INSERT trigger: '', trigger ''_ai'' ''INSERT'' [ins]),
          (''creating DELETE trigger: '', trigger ''_ad'' ''DELETE'' [del]),
          (''creating UPDATE trigger: '', trigger ''_au'' ''UPDATE'' [del, ins])])"

fun exec_args :: "'db tool_env \<Rightarrow> (string \<times> string \<times> gval list) list \<Rightarrow> ('db, string option) act" where
  \<comment> \<open>up to the first error\<close>
  "exec_args env [] = State_Monad.return None"
| "exec_args env ((what, q, args) # qs) =
     do { r \<leftarrow> Exec env q args;
          case r of
            Inl e \<Rightarrow> State_Monad.return (Some (what @ e))
          | Inr _ \<Rightarrow> exec_args env qs }"

definition createFTSIndex :: "'db tool_env \<Rightarrow> string \<Rightarrow> string list \<Rightarrow> ('db, string option) act" where
  "createFTSIndex env table columns =
     exec_args env (map (\<lambda>(what, q). (what, q, [])) (fts_statements table columns))"

definition searchable :: "jobj \<Rightarrow> jval \<Rightarrow> string option" where
  "searchable columns sc =
     (case sc of
        JStr c \<Rightarrow>
          (if \<not> valid_identifier c then None
           else (case map_of columns c of
                   Some (JStr ct) \<Rightarrow> if equal_fold ct ''TEXT'' then Some c else None
                 | _ \<Rightarrow> None))
      | _ \<Rightarrow> None)"

definition arg_object :: "jobj \<Rightarrow> string \<Rightarrow> jobj" where
  \<comment> \<open>\<^verbatim>\<open>m, _ := args[k].(map[string]interface{})\<close>\<close>
  "arg_object args k = (case map_of args k of Some (JObj m) \<Rightarrow> m | _ \<Rightarrow> [])"

definition arg_array :: "jobj \<Rightarrow> string \<Rightarrow> jval list" where
  "arg_array args k = (case map_of args k of Some (JArr vs) \<Rightarrow> vs | _ \<Rightarrow> [])"

definition SchemaTool_create :: "'db tool_env \<Rightarrow> jobj \<Rightarrow> ('db, tool_outcome) act" where
  "SchemaTool_create env args =
     (let tableName = get_str args ''table_name''; columnsRaw = arg_object args ''columns'' in
      if tableName = [] \<or> columnsRaw = [] then rejected ''table_name and columns are required''
      else (case sanitizedTableName tableName of
          Inl e \<Rightarrow> rejected e
        | Inr physicalName \<Rightarrow>
            (case column_defs '' (allowed: TEXT, INTEGER, REAL, BOOLEAN, PASSWORD, ENCRYPTED)'' columnsRaw of
               Inl e \<Rightarrow> rejected e
             | Inr ds \<Rightarrow>
                 do { r \<leftarrow> Exec env (create_statement physicalName ds) [];
                      case r of
                        Inl e \<Rightarrow> raised (''creating table: '' @ e)
                      | Inr _ \<Rightarrow>
                          (case (marshal (te_encoder env) (gval_of (JObj columnsRaw)),
                                 marshal (te_encoder env) (text_map (secure_kinds ds))) of
                             (None, _) \<Rightarrow> raised ''marshaling schema''
                           | (_, None) \<Rightarrow> raised ''marshaling secure columns''
                           | (Some schemaDef, Some secureJSON) \<Rightarrow>
                               do { u \<leftarrow> Exec env registry_upsert [GStr tableName, GStr schemaDef, GStr secureJSON];
                                    case u of
                                      Inl e \<Rightarrow> raised (''recording dynamic table: '' @ e)
                                    | Inr _ \<Rightarrow>
                                        (let sc = List.map_filter (searchable columnsRaw) (arg_array args ''searchable_columns'');
                                             info = [(''table'', GStr tableName), (''columns'', gval_of (JObj columnsRaw)),
                                               (''secure_columns'', text_map (secure_kinds ds))]
                                         in if sc = [] then answer (success (GObj info))
                                            else do { f \<leftarrow> createFTSIndex env physicalName sc;
                                                      case f of
                                                        Some e \<Rightarrow> answer (success (GObj (info @ [(''fts_warning'',
                                                          GStr (''FTS5 index creation failed: '' @ e))])))
                                                      | None \<Rightarrow> answer (success (GObj (info @
                                                          [(''fts_columns'', text_list sc)]))) }) }) })))"

definition add_statement :: "string \<Rightarrow> string \<Rightarrow> string \<Rightarrow> string" where
  "add_statement table colName sqlType = ''ALTER TABLE '' @ table @ '' ADD COLUMN '' @ colName @ '' '' @ sqlType"

definition drop_column_statement :: "string \<Rightarrow> string \<Rightarrow> string" where
  "drop_column_statement table colName = ''ALTER TABLE '' @ table @ '' DROP COLUMN '' @ colName"

fun add_columns :: "'db tool_env \<Rightarrow> string \<Rightarrow> (string \<times> jval) list \<Rightarrow> (string \<times> string) list \<Rightarrow> string list \<Rightarrow>
    ('db, tool_outcome + ((string \<times> string) list \<times> string list)) act" where
  \<comment> \<open>each column is checked just before it is added; the secure columns and the added ones are collected\<close>
  "add_columns env table [] secure added = State_Monad.return (Inr (secure, added))"
| "add_columns env table (c # cols) secure added =
     (case column_defs [] [c] of
        Inl e \<Rightarrow> State_Monad.return (Inl (Returned (Some (failure e)) None))
      | Inr ds \<Rightarrow>
          do { r \<leftarrow> Exec env (add_statement table (fst c) (snd (snd (hd ds)))) [];
               case r of
                 Inl e \<Rightarrow> State_Monad.return (Inl (Returned None (Some (''adding column '' @ fst c @ '': '' @ e))))
               | Inr _ \<Rightarrow> add_columns env table cols (foldl (\<lambda>m (k, v). AList.update k v m) secure (secure_kinds ds))
                   (added @ [fst c]) })"

fun names_to_drop :: "jval list \<Rightarrow> string + string list" where
  "names_to_drop [] = Inr []"
| "names_to_drop (v # vs) =
     (case v of
        JStr c \<Rightarrow>
          (if c = [] then names_to_drop vs
           else if c = ''id'' \<or> c = ''created_at'' then Inl (''cannot drop protected column: '' @ c)
           else (case names_to_drop vs of Inl e \<Rightarrow> Inl e | Inr cs \<Rightarrow> Inr (c # cs)))
      | _ \<Rightarrow> names_to_drop vs)"

fun drop_columns :: "'db tool_env \<Rightarrow> string \<Rightarrow> string list \<Rightarrow> (string \<times> string) list \<Rightarrow>
    ('db, tool_outcome + (string \<times> string) list) act" where
  "drop_columns env table [] secure = State_Monad.return (Inr secure)"
| "drop_columns env table (c # cols) secure =
     do { r \<leftarrow> Exec env (drop_column_statement table c) [];
          case r of
            Inl e \<Rightarrow> State_Monad.return (Inl (Returned None (Some (''dropping column '' @ c @ '': '' @ e))))
          | Inr _ \<Rightarrow> drop_columns env table cols (AList.delete c secure) }"

definition drop_columns_key :: "string \<Rightarrow> string list \<Rightarrow> string" where
  "drop_columns_key tableName cols = ''drop_columns:'' @ tableName @ '':'' @ join '','' cols"

definition alter_drop :: "'db tool_env \<Rightarrow> string \<Rightarrow> string \<Rightarrow> jobj \<Rightarrow> (string \<times> string) list \<Rightarrow>
    ('db, tool_outcome + ((string \<times> string) list \<times> string list)) act" where
  "alter_drop env tableName physicalName args secure =
     (case names_to_drop (arg_array args ''drop_columns'') of
        Inl e \<Rightarrow> State_Monad.return (Inl (Returned (Some (failure e)) None))
      | Inr [] \<Rightarrow> State_Monad.return (Inr (secure, []))
      | Inr cols \<Rightarrow>
          do { ok \<leftarrow> on_world (CheckApproval (te_deps env) (drop_columns_key tableName cols));
               if \<not> ok
               then do { r \<leftarrow> on_world (RequestApproval (te_deps env) (te_bus env) (drop_columns_key tableName cols)
                           (''The AI wants to drop column(s) '' @ join '', '' cols @ '' from table '' @ squoted tableName @
                            ''. Data in these columns will be permanently lost. Approve?'')
                           (''Dropping columns ['' @ join '', '' cols @ ''] from table '' @ squoted tableName @ ''.''));
                         State_Monad.return (Inl (Returned (Some r) None)) }
               else do { d \<leftarrow> drop_columns env physicalName cols secure;
                         case d of
                           Inl out \<Rightarrow> State_Monad.return (Inl out)
                         | Inr secure' \<Rightarrow>
                             do { _ \<leftarrow> on_world (LogDestructiveAction (te_deps env) ''manage_schema'' ''alter_drop_columns''
                                    (tableName @ '':['' @ join '','' cols @ '']''));
                                  State_Monad.return (Inr (secure', cols)) } } })"

definition registry_update :: string where
  "registry_update = ''UPDATE dynamic_tables SET secure_columns = ? WHERE table_name = ?''"

definition SchemaTool_alter :: "'db tool_env \<Rightarrow> jobj \<Rightarrow> ('db, tool_outcome) act" where
  \<comment> \<open>an error of the final update of the registry is only logged\<close>
  "SchemaTool_alter env args =
     (let tableName = get_str args ''table_name'' in
      if tableName = [] then rejected ''table_name is required''
      else (case sanitizedTableName tableName of
          Inl e \<Rightarrow> rejected e
        | Inr physicalName \<Rightarrow>
            do { secure \<leftarrow> LoadSecureColumns env tableName;
                 a \<leftarrow> add_columns env physicalName (arg_object args ''add_columns'') secure [];
                 case a of
                   Inl out \<Rightarrow> State_Monad.return out
                 | Inr (secure', added) \<Rightarrow>
                     do { d \<leftarrow> alter_drop env tableName physicalName args secure';
                          case d of
                            Inl out \<Rightarrow> State_Monad.return out
                          | Inr (secure'', dropped) \<Rightarrow>
                              if added = [] \<and> dropped = [] then rejected ''no columns to add or drop''
                              else do { _ \<leftarrow> (case marshal (te_encoder env) (text_map secure'') of
                                               None \<Rightarrow> State_Monad.return (Inl [])
                                             | Some t \<Rightarrow> Exec env registry_update [GStr t, GStr tableName]);
                                        answer (success (GObj [(''table'', GStr tableName), (''added'', text_list added),
                                          (''dropped'', text_list dropped)])) } } }))"

definition describe_column :: "(string \<times> string) list \<Rightarrow> gval list \<Rightarrow> gval option" where
  \<comment> \<open>a row that cannot be scanned is skipped\<close>
  "describe_column secure vs =
     (case vs of
        [GInt _, GStr name, GStr ty, GInt _, _, GInt pk] \<Rightarrow>
          Some (GObj ([(''name'', GStr name), (''type'', GStr ty)] @
            (if pk = 1 then [(''primary_key'', GBool True)] else []) @
            (if map_of secure name = Some ''hash'' then [(''secure'', GStr ''PASSWORD'')]
             else if map_of secure name = Some ''encrypt'' then [(''secure'', GStr ''ENCRYPTED'')] else [])))
      | _ \<Rightarrow> None)"

definition SchemaTool_describe :: "'db tool_env \<Rightarrow> jobj \<Rightarrow> ('db, tool_outcome) act" where
  "SchemaTool_describe env args =
     (let tableName = get_str args ''table_name'' in
      if tableName = [] then rejected ''table_name is required''
      else (case sanitizedTableName tableName of
          Inl e \<Rightarrow> rejected e
        | Inr physicalName \<Rightarrow>
            do { secure \<leftarrow> LoadSecureColumns env tableName;
                 r \<leftarrow> QueryRows env (''PRAGMA table_info('' @ physicalName @ '')'') [];
                 case r of
                   Inl e \<Rightarrow> raised (''describing table: '' @ e)
                 | Inr (_, rs) \<Rightarrow>
                     (let columns = List.map_filter (describe_column secure) rs in
                      if columns = [] then rejected ''table not found''
                      else answer (success (GObj [(''table'', GStr tableName), (''columns'', GArr columns)]))) }))"

definition list_row :: "gval list \<Rightarrow> gval option" where
  "list_row vs =
     (case vs of
        [GStr name, GStr schemaDef, createdAt] \<Rightarrow>
          Some (GObj [(''table_name'', GStr name), (''schema'', GStr schemaDef), (''created_at'', createdAt)])
      | _ \<Rightarrow> None)"

definition tables_query :: string where
  "tables_query = ''SELECT table_name, schema_def, created_at FROM dynamic_tables ORDER BY table_name''"

definition SchemaTool_list :: "'db tool_env \<Rightarrow> jobj \<Rightarrow> ('db, tool_outcome) act" where
  "SchemaTool_list env args =
     do { r \<leftarrow> QueryRows env tables_query [];
          case r of
            Inl e \<Rightarrow> raised (''listing tables: '' @ e)
          | Inr (_, rs) \<Rightarrow> answer (success (GArr (List.map_filter list_row rs))) }"

definition registered_query :: string where
  "registered_query = ''SELECT COUNT(*) FROM dynamic_tables WHERE table_name = ?''"

definition drop_statements :: "string \<Rightarrow> (string \<times> string \<times> gval list) list" where
  \<comment> \<open>the error's prefix, the statement and its arguments\<close>
  "drop_statements t =
     [(''dropping table: '', ''DROP TABLE IF EXISTS '' @ t, []),
      (''removing table registry entry: '', ''DELETE FROM dynamic_tables WHERE table_name = ?'', [GStr t]),
      (''removing api endpoints: '', ''DELETE FROM api_endpoints WHERE table_name = ?'', [GStr t]),
      (''removing auth endpoints: '', ''DELETE FROM auth_endpoints WHERE table_name = ?'', [GStr t])]"

definition SchemaTool_drop :: "'db tool_env \<Rightarrow> jobj \<Rightarrow> ('db, tool_outcome) act" where
  "SchemaTool_drop env args =
     (let tableName = get_str args ''table_name'' in
      if tableName = [] then rejected ''table_name is required''
      else (case sanitizedTableName tableName of
          Inl e \<Rightarrow> rejected e
        | Inr physicalName \<Rightarrow>
            do { n \<leftarrow> QueryInt env registered_query [GStr tableName];
                 (if (case n of Inr k \<Rightarrow> k = 0 | Inl _ \<Rightarrow> True) then rejected ''table not found''
                  else do { c \<leftarrow> QueryInt env (''SELECT COUNT(*) FROM '' @ physicalName) [];
                            ok \<leftarrow> on_world (CheckApproval (te_deps env) (''drop_table:'' @ tableName));
                            (if \<not> ok
                             then (let rowCount = show_int (case c of Inr k \<Rightarrow> k | Inl _ \<Rightarrow> 0) in
                               do { r \<leftarrow> on_world (RequestApproval (te_deps env) (te_bus env) (''drop_table:'' @ tableName)
                                      (''The AI wants to DROP the table '' @ squoted tableName @ '' ('' @ rowCount @
                                       '' rows). This will permanently delete all data in the table and remove related API endpoints. This cannot be undone. Approve?'')
                                      (''Dropping table '' @ squoted tableName @ '' ('' @ rowCount @
                                       '' rows) and its related endpoints.''));
                                    answer r })
                             else do { f \<leftarrow> exec_args env (drop_statements physicalName);
                                       case f of
                                         Some e \<Rightarrow> raised e
                                       | None \<Rightarrow>
                                           do { _ \<leftarrow> on_world (LogDestructiveAction (te_deps env) ''manage_schema'' ''drop'' tableName);
                                                answer (success (GObj [(''dropped'', GStr tableName)])) } }) }) }))"

definition SchemaTool_infer :: "jobj \<Rightarrow> string" where
  "SchemaTool_infer a =
     (if map_of a ''columns'' \<noteq> None then ''create''
      else if map_of a ''table_name'' \<noteq> None then ''describe''
      else ''list'')"

definition as_handler :: "(jobj \<Rightarrow> ('w, tool_outcome) State_Monad.state) \<Rightarrow> 'w handler" where
  "as_handler m w args = (fst (run_state (m args) w), args, snd (run_state (m args) w))"

definition SchemaTool_routes :: "'db tool_env \<Rightarrow> (string \<times> (jobj \<Rightarrow> ('db, tool_outcome) act)) list" where
  "SchemaTool_routes env =
     [(''create'', SchemaTool_create env), (''alter'', SchemaTool_alter env), (''describe'', SchemaTool_describe env),
      (''list'', SchemaTool_list env), (''drop'', SchemaTool_drop env)]"

definition SchemaTool_Execute :: "'db tool_env \<Rightarrow> 'db tool_world handler" where
  "SchemaTool_Execute env =
     DispatchAction (map (map_prod id as_handler) (SchemaTool_routes env)) (Some SchemaTool_infer)"

section \<open>The tool \<^verbatim>\<open>manage_data\<close>\<close>

definition visible_map :: "(string \<times> string) list \<Rightarrow> string list \<Rightarrow> gval list \<Rightarrow> (string \<times> gval) list" where
  \<comment> \<open>a row without the hash columns\<close>
  "visible_map secure cols vs =
     (let ps = filter (\<lambda>(c, _). map_of secure c \<noteq> Some ''hash'') (zip cols vs)
      in row_map (map fst ps) (map snd ps) [])"

definition arg_order :: "jobj \<Rightarrow> string + string" where
  "arg_order args =
     (case map_of args ''order_by'' of
        Some (JObj ob) \<Rightarrow>
          (let col = get_str ob ''column''; dir = to_upper (trim_space (get_str ob ''direction'')) in
           if col = [] then Inr []
           else if \<not> valid_identifier col then Inl (''invalid order_by column: '' @ col)
           else Inr ('' ORDER BY '' @ col @ '' '' @ (if dir \<noteq> ''ASC'' \<and> dir \<noteq> ''DESC'' then ''ASC'' else dir)))
      | _ \<Rightarrow> Inr [])"

definition arg_limit :: "jobj \<Rightarrow> string" where
  "arg_limit args =
     (let q = get_num args ''limit'' in if q > 0 then '' LIMIT '' @ show_int (trunc_rat q) else '' LIMIT 50'')"

definition DataTool_query :: "'db tool_env \<Rightarrow> jobj \<Rightarrow> ('db, tool_outcome) act" where
  "DataTool_query env args =
     (let tableName = get_str args ''table_name'' in
      case sanitizedTableName tableName of
        Inl e \<Rightarrow> rejected e
      | Inr physicalName \<Rightarrow>
          do { secure \<leftarrow> LoadSecureColumns env tableName;
               case arg_filters args of
                 Inl e \<Rightarrow> rejected e
               | Inr (wh, params) \<Rightarrow>
                   (case arg_order args of
                      Inl e \<Rightarrow> rejected e
                    | Inr ord \<Rightarrow>
                        do { r \<leftarrow> QueryRows env (''SELECT * FROM '' @ physicalName @ wh @ ord @ arg_limit args) params;
                             case r of
                               Inl e \<Rightarrow> raised (''querying table: '' @ e)
                             | Inr (cols, rs) \<Rightarrow>
                                 answer (success (GArr (map (\<lambda>vs. GObj (visible_map secure cols vs)) rs))) }) })"

fun write_values :: "'db tool_env \<Rightarrow> string \<Rightarrow> (string \<times> string) list \<Rightarrow> (string \<times> jval) list \<Rightarrow>
    ('db, tool_outcome + gval list) act" where
  \<comment> \<open>the values to store; the second argument names the row in messages\<close>
  "write_values env row_name secure [] = State_Monad.return (Inr [])"
| "write_values env row_name secure ((col, v) # cols) =
     (if \<not> valid_identifier col
      then State_Monad.return (Inl (Returned (Some (failure (''invalid column name'' @ row_name @ '': '' @ col))) None))
      else do { p \<leftarrow> processColumn env secure col (gval_of v);
                case p of
                  Inl e \<Rightarrow> State_Monad.return (Inl (Returned None
                    (Some (''processing secure column '' @ col @ row_name @ '': '' @ e))))
                | Inr x \<Rightarrow>
                    do { r \<leftarrow> write_values env row_name secure cols;
                         State_Monad.return (map_sum id ((#) x) r) } })"

definition insert_row_statement :: "string \<Rightarrow> string list \<Rightarrow> string" where
  "insert_row_statement table cols =
     ''INSERT INTO '' @ table @ '' ('' @ join '', '' cols @ '') VALUES ('' @ join '', '' (map (\<lambda>_. ''?'') cols) @ '')''"

definition insertSingle :: "'db tool_env \<Rightarrow> string \<Rightarrow> jobj \<Rightarrow> (string \<times> string) list \<Rightarrow> ('db, tool_outcome) act" where
  \<comment> \<open>the physical name of a table is its logical name\<close>
  "insertSingle env table data secure =
     do { v \<leftarrow> write_values env [] secure data;
          case v of
            Inl out \<Rightarrow> State_Monad.return out
          | Inr vals \<Rightarrow>
              do { r \<leftarrow> Exec env (insert_row_statement table (map fst data)) vals;
                   case r of
                     Inl e \<Rightarrow> raised (''inserting row: '' @ e)
                   | Inr (i, _) \<Rightarrow> answer (success (GObj [(''id'', GInt i), (''table'', GStr table)])) } }"

fun insert_rows :: "'db tool_env \<Rightarrow> string \<Rightarrow> nat \<Rightarrow> jval list \<Rightarrow> (string \<times> string) list \<Rightarrow>
    ('db, tool_outcome + int list) act" where
  \<comment> \<open>the statements of the transaction; the third argument counts the rows\<close>
  "insert_rows env table i [] secure = State_Monad.return (Inr [])"
| "insert_rows env table i (JObj data # rows) secure =
     do { v \<leftarrow> write_values env ('' in row '' @ show_nat i) secure data;
          case v of
            Inl out \<Rightarrow> State_Monad.return (Inl out)
          | Inr vals \<Rightarrow>
              do { r \<leftarrow> Exec env (insert_row_statement table (map fst data)) vals;
                   case r of
                     Inl e \<Rightarrow> State_Monad.return (Inl (Returned None (Some (''inserting row '' @ show_nat i @ '': '' @ e))))
                   | Inr (n, _) \<Rightarrow>
                       do { ns \<leftarrow> insert_rows env table (Suc i) rows secure;
                            State_Monad.return (map_sum id ((#) n) ns) } } }"
| "insert_rows env table i (_ # rows) secure =
     State_Monad.return (Inl (Returned (Some (failure (''row '' @ show_nat i @ '' is not a valid object''))) None))"

definition restore :: "'db \<Rightarrow> ('db, unit) act" where
  \<comment> \<open>\<^verbatim>\<open>tx.Rollback\<close>\<close>
  "restore db = State_Monad.update (\<lambda>s. s\<lparr>tw_db := db\<rparr>)"

definition insertBulk :: "'db tool_env \<Rightarrow> string \<Rightarrow> jval list \<Rightarrow> (string \<times> string) list \<Rightarrow> ('db, tool_outcome) act" where
  "insertBulk env table rows secure =
     (if length rows > 100 then rejected ''maximum 100 rows per bulk insert''
      else do { s \<leftarrow> State_Monad.get;
                (case te_begin env (tw_db s) of
                   Some e \<Rightarrow> raised (''starting transaction: '' @ e)
                 | None \<Rightarrow>
                     do { r \<leftarrow> insert_rows env table 0 rows secure;
                          case r of
                            Inl out \<Rightarrow> do { _ \<leftarrow> restore (tw_db s); State_Monad.return out }
                          | Inr ns \<Rightarrow>
                              do { s' \<leftarrow> State_Monad.get;
                                   case te_commit env (tw_db s') of
                                     Inl e \<Rightarrow> do { _ \<leftarrow> restore (tw_db s); raised (''committing bulk insert: '' @ e) }
                                   | Inr db \<Rightarrow>
                                       do { _ \<leftarrow> restore db;
                                            answer (success (GObj [(''table'', GStr table),
                                              (''inserted'', GInt (int (length ns))), (''first_id'', GInt (hd ns)),
                                              (''last_id'', GInt (last ns))])) } } }) })"

definition DataTool_insert :: "'db tool_env \<Rightarrow> jobj \<Rightarrow> ('db, tool_outcome) act" where
  "DataTool_insert env args =
     (let tableName = get_str args ''table_name'' in
      if tableName = [] then rejected ''table_name is required''
      else (case sanitizedTableName tableName of
          Inl e \<Rightarrow> rejected e
        | Inr physicalName \<Rightarrow>
            do { secure \<leftarrow> LoadSecureColumns env tableName;
                 (if arg_array args ''rows'' \<noteq> [] then insertBulk env physicalName (arg_array args ''rows'') secure
                  else if arg_object args ''data'' = [] then rejected ''data or rows parameter is required for insert''
                  else insertSingle env physicalName (arg_object args ''data'') secure) }))"

definition update_row_statement :: "string \<Rightarrow> string list \<Rightarrow> string" where
  "update_row_statement table cols =
     ''UPDATE '' @ table @ '' SET '' @ join '', '' (map (\<lambda>c. c @ '' = ?'') cols) @ '' WHERE id = ?''"

definition DataTool_update :: "'db tool_env \<Rightarrow> jobj \<Rightarrow> ('db, tool_outcome) act" where
  "DataTool_update env args =
     (let tableName = get_str args ''table_name''; data = arg_object args ''data'' in
      if tableName = [] \<or> data = [] then rejected ''table_name, id, and data are required''
      else (case sanitizedTableName tableName of
          Inl e \<Rightarrow> rejected e
        | Inr physicalName \<Rightarrow>
            do { secure \<leftarrow> LoadSecureColumns env tableName;
                 v \<leftarrow> write_values env [] secure data;
                 case v of
                   Inl out \<Rightarrow> State_Monad.return out
                 | Inr vals \<Rightarrow>
                     do { r \<leftarrow> Exec env (update_row_statement physicalName (map fst data))
                            (vals @ [GInt (trunc_rat (get_num args ''id''))]);
                          case r of
                            Inl e \<Rightarrow> raised (''updating row: '' @ e)
                          | Inr (_, n) \<Rightarrow> answer (success (GObj [(''rows_affected'', GInt (int n))])) } }))"

definition DataTool_del :: "'db tool_env \<Rightarrow> jobj \<Rightarrow> ('db, tool_outcome) act" where
  "DataTool_del env args =
     (let tableName = get_str args ''table_name''; i = trunc_rat (get_num args ''id'') in
      if tableName = [] then rejected ''table_name and id are required''
      else (case sanitizedTableName tableName of
          Inl e \<Rightarrow> rejected e
        | Inr physicalName \<Rightarrow>
            do { r \<leftarrow> Exec env (''DELETE FROM '' @ physicalName @ '' WHERE id = ?'') [GInt i];
                 case r of
                   Inl e \<Rightarrow> raised (''deleting row: '' @ e)
                 | Inr (_, n) \<Rightarrow>
                     (if n = 0 then rejected ''row not found''
                      else do { _ \<leftarrow> on_world (LogDestructiveAction (te_deps env) ''manage_data'' ''delete''
                                  (tableName @ '' id='' @ show_int i));
                                answer (success (GObj [(''deleted_id'', GInt i)])) }) }))"

definition DataTool_count :: "'db tool_env \<Rightarrow> jobj \<Rightarrow> ('db, tool_outcome) act" where
  "DataTool_count env args =
     (let tableName = get_str args ''table_name'' in
      if tableName = [] then rejected ''table_name is required''
      else (case sanitizedTableName tableName of
          Inl e \<Rightarrow> rejected e
        | Inr physicalName \<Rightarrow>
            (case arg_filters args of
               Inl e \<Rightarrow> rejected e
             | Inr (wh, params) \<Rightarrow>
                 do { n \<leftarrow> QueryInt env (''SELECT COUNT(*) FROM '' @ physicalName @ wh) params;
                      case n of
                        Inl e \<Rightarrow> raised (''counting rows: '' @ e)
                      | Inr k \<Rightarrow> answer (success (GObj [(''table'', GStr tableName), (''count'', GInt k)])) })))"

definition allowedAggFuncs :: "string list" where
  "allowedAggFuncs = [''count'', ''sum'', ''avg'', ''min'', ''max'']"

definition aggregate_expression :: "string \<Rightarrow> string \<Rightarrow> string" where
  "aggregate_expression fn col =
     (if fn \<noteq> ''count'' then to_upper fn @ ''('' @ col @ '')''
      else if col \<noteq> [] then ''COUNT('' @ col @ '')'' else ''COUNT(*)'')"

fun arg_groups :: "'db tool_env \<Rightarrow> jval list \<Rightarrow> string + string list" where
  \<comment> \<open>a value that is not a string has the empty name\<close>
  "arg_groups env [] = Inr []"
| "arg_groups env (g # gs) =
     (let gc = as_string (Some g) in
      if gc = [] \<or> \<not> valid_identifier gc then Inl (''invalid group_by column: '' @ te_print env (Some g))
      else (case arg_groups env gs of Inl e \<Rightarrow> Inl e | Inr cs \<Rightarrow> Inr (gc # cs)))"

definition scan_result :: "'db tool_env \<Rightarrow> gval list option \<Rightarrow> string + rat" where
  \<comment> \<open>into a \<^verbatim>\<open>float64\<close>: numbers and numeric texts, but not NULL\<close>
  "scan_result env cells =
     (case cells of
        Some [GInt n] \<Rightarrow> Inr (of_int n)
      | Some [GNum q] \<Rightarrow> Inr q
      | Some [GStr s] \<Rightarrow> (case te_float env s of Some q \<Rightarrow> Inr q | None \<Rightarrow> Inl (te_scan_error env (Some (GStr s))))
      | Some [v] \<Rightarrow> Inl (te_scan_error env (Some v))
      | _ \<Rightarrow> Inl (te_scan_error env None))"

definition group_row :: "string list \<Rightarrow> gval list \<Rightarrow> gval option" where
  "group_row groups vs =
     (if length vs \<noteq> Suc (length groups) then None
      else Some (GObj (AList.update ''result'' (last vs) (row_map groups vs []))))"

definition aggregate_statement :: "string \<Rightarrow> string \<Rightarrow> string list \<Rightarrow> string \<Rightarrow> string" where
  "aggregate_statement table expr groups wh =
     ''SELECT '' @ join '', '' (groups @ [expr @ '' AS result'']) @ '' FROM '' @ table @ wh @
     (if groups = [] then [] else '' GROUP BY '' @ join '', '' groups @ '' ORDER BY '' @ join '', '' groups)"

definition DataTool_aggregate :: "'db tool_env \<Rightarrow> jobj \<Rightarrow> ('db, tool_outcome) act" where
  "DataTool_aggregate env args =
     (let tableName = get_str args ''table_name'' in
      if tableName = [] then rejected ''table_name is required''
      else (case sanitizedTableName tableName of
          Inl e \<Rightarrow> rejected e
        | Inr physicalName \<Rightarrow>
            (let fn = to_lower (trim_space (get_str args ''function'')); col = get_str args ''column'' in
             if fn \<notin> set allowedAggFuncs then rejected ''function is required: count, sum, avg, min, or max''
             else if fn \<noteq> ''count'' \<and> col = [] then rejected (fn @ '' requires a column parameter'')
             else if col \<noteq> [] \<and> \<not> valid_identifier col then rejected (''invalid column name: '' @ col)
             else (case arg_groups env (arg_array args ''group_by'') of
                 Inl e \<Rightarrow> rejected e
               | Inr groups \<Rightarrow>
                   (case arg_filters args of
                      Inl e \<Rightarrow> rejected e
                    | Inr (wh, params) \<Rightarrow>
                        (let q = aggregate_statement physicalName (aggregate_expression fn col) groups wh in
                         if groups = []
                         then do { r \<leftarrow> QueryOne env q params;
                                   case (case r of Inl e \<Rightarrow> Inl e | Inr v \<Rightarrow> scan_result env v) of
                                     Inl e \<Rightarrow> raised (''aggregate query: '' @ e)
                                   | Inr x \<Rightarrow> answer (success (GObj [(''table'', GStr tableName), (''function'', GStr fn),
                                       (''result'', GNum x)])) }
                         else do { r \<leftarrow> QueryRows env q params;
                                   case r of
                                     Inl e \<Rightarrow> raised (''aggregate query: '' @ e)
                                   | Inr (_, rs) \<Rightarrow> answer (success (GObj [(''table'', GStr tableName), (''function'', GStr fn),
                                       (''data'', GArr (List.map_filter (group_row groups) rs))])) }))))))"

definition scanRowsMaps :: "rows \<Rightarrow> (string \<times> gval) list list" where
  "scanRowsMaps = (\<lambda>(cols, rs). map (\<lambda>vs. row_map cols vs []) rs)"

definition stripSecureCols :: "(string \<times> gval) list list \<Rightarrow> (string \<times> string) list \<Rightarrow> (string \<times> gval) list list" where
  "stripSecureCols results secure = (if secure = [] then results else map (delete_hashes secure) results)"

definition fts_probe :: string where
  "fts_probe = ''SELECT COUNT(*) FROM sqlite_master WHERE type='' @ squoted ''table'' @ '' AND name=?''"

definition search_statement :: "string \<Rightarrow> string" where
  "search_statement table =
     (let fts = table @ ''_fts'' in
      ''SELECT t.* FROM '' @ table @ '' t JOIN '' @ fts @ '' f ON t.id = f.rowid WHERE '' @ fts @
      '' MATCH ? ORDER BY f.rank LIMIT ?'')"

definition fts_limit :: "jobj \<Rightarrow> int" where
  "fts_limit args = (let l = get_num args ''limit'' in if l > 0 \<and> l \<le> 200 then trunc_rat l else 50)"

definition DataTool_search :: "'db tool_env \<Rightarrow> jobj \<Rightarrow> ('db, tool_outcome) act" where
  "DataTool_search env args =
     (let tableName = get_str args ''table_name''; queryText = get_str args ''query_text'' in
      if tableName = [] \<or> queryText = [] then rejected ''table_name and query_text are required''
      else (case sanitizedTableName tableName of
          Inl e \<Rightarrow> rejected e
        | Inr physicalName \<Rightarrow>
            do { n \<leftarrow> QueryInt env fts_probe [GStr (physicalName @ ''_fts'')];
                 (if (case n of Inr k \<Rightarrow> k = 0 | Inl _ \<Rightarrow> True)
                  then rejected (''no full-text search index for table '' @ tableName @ '' '' @ em_dash @
                    '' create with searchable_columns in manage_schema'')
                  else do { r \<leftarrow> QueryRows env (search_statement physicalName) [GStr queryText, GInt (fts_limit args)];
                            case r of
                              Inl e \<Rightarrow> rejected (''search error: '' @ e)
                            | Inr rs \<Rightarrow>
                                do { secure \<leftarrow> LoadSecureColumns env tableName;
                                     (let results = stripSecureCols (scanRowsMaps rs) secure in
                                      answer (success (GObj [(''query'', GStr queryText),
                                        (''count'', GInt (int (length results))), (''results'', GArr (map GObj results))]))) } }) }))"

definition DataTool_infer :: "jobj \<Rightarrow> string" where
  "DataTool_infer a =
     (if map_of a ''query_text'' \<noteq> None then ''search''
      else if map_of a ''rows'' \<noteq> None then ''insert''
      else if map_of a ''id'' \<noteq> None then (if map_of a ''data'' \<noteq> None then ''update'' else ''delete'')
      else if map_of a ''data'' \<noteq> None then ''insert''
      else if map_of a ''function'' \<noteq> None then ''aggregate''
      else ''query'')"

definition DataTool_routes :: "'db tool_env \<Rightarrow> (string \<times> (jobj \<Rightarrow> ('db, tool_outcome) act)) list" where
  "DataTool_routes env =
     [(''query'', DataTool_query env), (''insert'', DataTool_insert env), (''update'', DataTool_update env),
      (''delete'', DataTool_del env), (''count'', DataTool_count env), (''aggregate'', DataTool_aggregate env),
      (''search'', DataTool_search env)]"

definition DataTool_Execute :: "'db tool_env \<Rightarrow> 'db tool_world handler" where
  "DataTool_Execute env =
     DispatchAction (map (map_prod id as_handler) (DataTool_routes env)) (Some DataTool_infer)"

definition summary_text :: "string \<Rightarrow> string" where
  "summary_text s = ''{'' @ [dquote] @ ''success'' @ [dquote] @ '':true,'' @ [dquote] @ ''summary'' @ [dquote] @ '':'' @
     [dquote] @ s @ [dquote] @ ''}''"

definition SchemaTool_Summarize :: "(string \<Rightarrow> summaryResult option) \<Rightarrow> string \<Rightarrow> string" where
  "SchemaTool_Summarize unmarshal result =
     (let (r, m, arr, ok) = parseSummaryResult unmarshal result in
      if \<not> ok then summarizeTruncate result 200
      else if \<not> SumSuccess r then summarizeError (SumError r)
      else (case arr of
              Some vs \<Rightarrow> summary_text (''Listed '' @ show_nat (length vs) @ '' tables'')
            | None \<Rightarrow>
                (let d = (case m of Some d \<Rightarrow> d | None \<Rightarrow> []); t = get_str d ''table'' in
                 if t = [] then summarizeTruncate result 300
                 else (case map_of d ''columns'' of
                         Some (JArr cs) \<Rightarrow> summary_text (''Table '' @ t @ '': '' @ show_nat (length cs) @ '' columns'')
                       | _ \<Rightarrow> summary_text (''Table '' @ t @ '' created'')))))"

definition DataTool_Summarize :: "(string \<Rightarrow> summaryResult option) \<Rightarrow> string \<Rightarrow> string" where
  "DataTool_Summarize unmarshal result =
     (let (r, m, arr, ok) = parseSummaryResult unmarshal result in
      if \<not> ok then summarizeTruncate result 200
      else if \<not> SumSuccess r then summarizeError (SumError r)
      else (case arr of
              Some vs \<Rightarrow> summary_text (''Queried: '' @ show_nat (length vs) @ '' rows returned'')
            | None \<Rightarrow> summarizeTruncate result 300))"

section \<open>What a tool sends\<close>

text \<open>
  \<^verbatim>\<open>sends P m\<close>: whatever the state, all statements that \<open>m\<close> sends satisfy \<open>P\<close>. The rules follow the code; that of
  the sequence knows that the second part runs on a result of the first.
\<close>

named_theorems sends_rules \<open>syntax-directed rules for the statements sent\<close>

definition sends :: "(string \<times> gval list \<Rightarrow> bool) \<Rightarrow> ('db, 'a) act \<Rightarrow> bool" where
  "sends P m \<longleftrightarrow> (\<forall>s. \<exists>new. tw_sent (snd (run_state m s)) = tw_sent s @ new \<and> list_all P new)"

definition outcomes :: "('s, 'a) State_Monad.state \<Rightarrow> 'a set" where
  "outcomes m = range (\<lambda>s. fst (run_state m s))"

lemma outcomesI: "fst (run_state m s) \<in> outcomes m"
  by (simp add: outcomes_def)

lemma outcomes_return [simp]: "outcomes (State_Monad.return a) = {a}"
  by (auto simp: outcomes_def)

lemma outcomes_bind: "b \<in> outcomes (State_Monad.bind m f) \<Longrightarrow> \<exists>a \<in> outcomes m. b \<in> outcomes (f a)"
  by (force simp: outcomes_def run_bind)

lemma sendsD: "sends P m \<Longrightarrow> \<exists>new. tw_sent (snd (run_state m s)) = tw_sent s @ new \<and> list_all P new"
  by (simp add: sends_def)

lemma sends_return [sends_rules]: "sends P (State_Monad.return a)"
  by (simp add: sends_def)

lemma sends_get [sends_rules]: "sends P State_Monad.get"
  by (simp add: sends_def)

lemma sends_bind [sends_rules]:
  assumes "sends P m" "\<And>a. a \<in> outcomes m \<Longrightarrow> sends P (f a)"
  shows "sends P (State_Monad.bind m f)"
  unfolding sends_def run_bind
proof
  fix s
  obtain new where "tw_sent (snd (run_state m s)) = tw_sent s @ new" "list_all P new"
    using assms(1) by (auto simp: sends_def)
  moreover obtain more where "tw_sent (snd (run_state (f (fst (run_state m s))) (snd (run_state m s)))) =
      tw_sent (snd (run_state m s)) @ more" "list_all P more"
    using assms(2) [OF outcomesI [of m s]] by (auto simp: sends_def)
  ultimately show "\<exists>new. tw_sent (snd (run_state (f (fst (run_state m s))) (snd (run_state m s)))) = tw_sent s @ new \<and>
      list_all P new" by (metis append.assoc list_all_append)
qed

lemma sends_Exec: "P (q, args) \<Longrightarrow> sends P (Exec env q args)"
  by (simp add: sends_def Exec_def)

lemma sends_QueryRows: "P (q, args) \<Longrightarrow> sends P (QueryRows env q args)"
  by (simp add: sends_def QueryRows_def)

lemma sends_QueryOne: "P (q, args) \<Longrightarrow> sends P (QueryOne env q args)"
  unfolding QueryOne_def by (intro sends_rules sends_QueryRows)

lemma sends_QueryInt: "P (q, args) \<Longrightarrow> sends P (QueryInt env q args)"
  unfolding QueryInt_def by (intro sends_rules sends_QueryOne)

lemma sends_LoadSecureColumns: "P (secure_query, [GStr t]) \<Longrightarrow> sends P (LoadSecureColumns env t)"
  unfolding LoadSecureColumns_def by (intro sends_rules sends_QueryOne)

lemma sends_on_world [sends_rules]: "sends P (on_world m)"
  by (simp add: sends_def on_world_def)

lemma sends_restore [sends_rules]: "sends P (restore db)"
  by (simp add: sends_def restore_def)

lemma sends_processColumn [sends_rules]: "sends P (processColumn env secure col v)"
  by (auto simp: sends_def processColumn_def split: option.splits)

lemma sends_if [sends_rules]: "(b \<Longrightarrow> sends P m) \<Longrightarrow> (\<not> b \<Longrightarrow> sends P n) \<Longrightarrow> sends P (if b then m else n)"
  by simp

lemma sends_option [sends_rules]:
  "(x = None \<Longrightarrow> sends P m) \<Longrightarrow> (\<And>a. x = Some a \<Longrightarrow> sends P (f a)) \<Longrightarrow> sends P (case x of None \<Rightarrow> m | Some a \<Rightarrow> f a)"
  by (cases x) auto

lemma sends_sum [sends_rules]:
  "(\<And>e. x = Inl e \<Longrightarrow> sends P (g e)) \<Longrightarrow> (\<And>a. x = Inr a \<Longrightarrow> sends P (f a)) \<Longrightarrow>
   sends P (case x of Inl e \<Rightarrow> g e | Inr a \<Rightarrow> f a)"
  by (cases x) auto

lemma sends_prod [sends_rules]: "(\<And>a b. x = (a, b) \<Longrightarrow> sends P (f a b)) \<Longrightarrow> sends P (case x of (a, b) \<Rightarrow> f a b)"
  by (cases x) auto

lemma sends_list [sends_rules]:
  "(x = [] \<Longrightarrow> sends P m) \<Longrightarrow> (\<And>a as. x = a # as \<Longrightarrow> sends P (f a as)) \<Longrightarrow>
   sends P (case x of [] \<Rightarrow> m | a # as \<Rightarrow> f a as)"
  by (cases x) auto

lemma sends_Let [sends_rules]: "(\<And>a. a = x \<Longrightarrow> sends P (f a)) \<Longrightarrow> sends P (Let x f)"
  by simp

lemma sends_write_values [sends_rules]: "sends P (write_values env row_name secure cols)"
  by (induction env row_name secure cols rule: write_values.induct) (auto intro!: sends_rules)

lemma sends_exec_args:
  "list_all (\<lambda>(_, s). P s) qs \<Longrightarrow> sends P (exec_args env qs)"
  by (induction env qs rule: exec_args.induct) (auto intro!: sends_rules sends_Exec)

section \<open>The texts of the statements\<close>

lemma digits_text: "list_all is_digit s \<Longrightarrow> sql_text s \<and> placeholders s = 0"
proof -
  have "\<not> is_digit CHR ''?''" by code_simp
  then show "list_all is_digit s \<Longrightarrow> ?thesis"
    by (auto simp: sql_text_def placeholders_def sql_char_def is_word_char_def list_all_iff filter_empty_conv)
qed

lemma tool_constants [sql_rules]:
  "sql_text '' WHERE id = ?''" "placeholders '' WHERE id = ?'' = 1"
  "sql_text ''SELECT COUNT(*) FROM ''" "placeholders ''SELECT COUNT(*) FROM '' = 0"
  "sql_text ''SELECT * FROM ''" "placeholders ''SELECT * FROM '' = 0"
  "sql_text '' LIMIT ''" "placeholders '' LIMIT '' = 0" "sql_text '' LIMIT 50''" "placeholders '' LIMIT 50'' = 0"
  "sql_text secure_query" "placeholders secure_query = 1"
  by code_simp+

lemma arg_limit_ok: "sql_text (arg_limit args)" "placeholders (arg_limit args) = 0"
proof -
  have "show_int i = show_nat (nat i)" if "i \<ge> 0" for i using that by (simp add: show_int_def)
  moreover have "trunc_rat q \<ge> 0" if "q > 0" for q using that by (simp add: trunc_rat_def)
  ultimately show "sql_text (arg_limit args)" "placeholders (arg_limit args) = 0"
    using digits_text [OF show_nat_digits]
    by (auto simp: arg_limit_def Let_def tool_constants simp del: append.simps)
qed

lemma arg_order_ok: "arg_order args = Inr t \<Longrightarrow> sql_text t \<and> placeholders t = 0"
  by (auto simp: arg_order_def Let_def sql_constants sql_identifier split: option.splits jval.splits if_splits
      simp del: append.simps)

lemma operators_ok: "op \<in> set allowedOps \<Longrightarrow> sql_text op \<and> placeholders op = 0"
proof -
  have "list_all (\<lambda>op. sql_text op \<and> placeholders op = 0) allowedOps" by code_simp
  then show "op \<in> set allowedOps \<Longrightarrow> ?thesis" by (auto simp: list_all_iff)
qed

lemma where_part_ok: "where_part f = Inr (c, ps) \<Longrightarrow> sql_text c \<and> placeholders c = length ps"
  using operators_ok
  by (auto simp: where_part_def Let_def sql_constants sql_identifier split: jval.splits if_splits option.splits
      simp del: append.simps)

lemma where_parts_ok:
  "where_parts fs = Inr cs \<Longrightarrow> list_all sql_text (map fst cs) \<and>
     sum_list (map placeholders (map fst cs)) = length (concat (map snd cs))"
  by (induction fs arbitrary: cs rule: where_parts.induct)
    (auto split: sum.splits dest!: where_part_ok)

lemma arg_filters_ok: "arg_filters args = Inr (wh, ps) \<Longrightarrow> sql_text wh \<and> placeholders wh = length ps"
proof -
  have "buildWhereClause fs = Inr (wh, ps) \<Longrightarrow> sql_text wh \<and> placeholders wh = length ps" for fs wh ps
    using where_parts_ok [of fs]
    by (auto simp: buildWhereClause_def sql_constants sql_text_join placeholders_join length_concat
        split: if_splits sum.splits simp del: append.simps)
  then show "arg_filters args = Inr (wh, ps) \<Longrightarrow> ?thesis"
    by (auto simp: arg_filters_def sql_constants split: option.splits jval.splits list.splits)
qed

lemma sanitized_ok: "sanitizedTableName name = Inr t \<longleftrightarrow> t = name \<and> valid_identifier name \<and> name \<notin> set systemTables"
  by (auto simp: sanitizedTableName_def)

lemma row_statements_ok:
  assumes "valid_identifier t" "list_all valid_identifier cols"
  shows "sql_text (insert_row_statement t cols)" "placeholders (insert_row_statement t cols) = length cols"
    "sql_text (update_row_statement t cols)" "placeholders (update_row_statement t cols) = Suc (length cols)"
proof -
  have marks: "list_all sql_text (map (\<lambda>_. ''?'') cols)" "sum_list (map placeholders (map (\<lambda>_. ''?'') cols)) = length cols"
    by (induction cols) (simp_all add: sql_constants)
  have sets: "list_all sql_text (map (\<lambda>c. c @ '' = ?'') cols)"
    "sum_list (map placeholders (map (\<lambda>c. c @ '' = ?'') cols)) = length cols"
    using assms(2) by (induction cols) (simp_all add: sql_constants sql_identifier del: append.simps)
  show "sql_text (insert_row_statement t cols)" "placeholders (insert_row_statement t cols) = length cols"
    using sql_identifier [OF assms(1)] joined_identifiers [OF assms(2)] marks
    by (simp_all add: insert_row_statement_def sql_constants sql_text_join placeholders_join del: append.simps map_map)
  show "sql_text (update_row_statement t cols)" "placeholders (update_row_statement t cols) = Suc (length cols)"
    using sql_identifier [OF assms(1)] sets
    by (simp_all add: update_row_statement_def sql_constants tool_constants sql_text_join placeholders_join
        del: append.simps map_map)
qed

lemma aggregate_statement_ok:
  assumes "valid_identifier t" "fn \<in> set allowedAggFuncs" "col = [] \<or> valid_identifier col" "fn = ''count'' \<or> col \<noteq> []"
    and "list_all valid_identifier groups" "sql_text wh"
  shows "sql_text (aggregate_statement t (aggregate_expression fn col) groups wh)"
    "placeholders (aggregate_statement t (aggregate_expression fn col) groups wh) = placeholders wh"
proof -
  have "list_all (\<lambda>f. sql_text (to_upper f) \<and> placeholders (to_upper f) = 0) allowedAggFuncs" by code_simp
  then have "sql_text (to_upper fn) \<and> placeholders (to_upper fn) = 0" using assms(2) by (auto simp: list_all_iff)
  then have e: "sql_text (aggregate_expression fn col)" "placeholders (aggregate_expression fn col) = 0"
    using assms(3,4) by (auto simp: aggregate_expression_def sql_constants sql_identifier simp del: append.simps)
  have "list_all sql_text groups" "sum_list (map placeholders groups) = 0"
    using assms(5) by (induction groups) (simp_all add: sql_identifier)
  with e have g: "list_all sql_text (groups @ [aggregate_expression fn col @ '' AS result''])"
    "sum_list (map placeholders (groups @ [aggregate_expression fn col @ '' AS result''])) = 0"
    by (simp_all add: sql_constants del: append.simps)
  show "sql_text (aggregate_statement t (aggregate_expression fn col) groups wh)"
    "placeholders (aggregate_statement t (aggregate_expression fn col) groups wh) = placeholders wh"
    using g assms(6) sql_identifier [OF assms(1)] joined_identifiers [OF assms(5)]
    by (simp_all add: aggregate_statement_def sql_constants sql_text_join placeholders_join
        del: append.simps map_append sum_list.append)
qed

lemma arg_groups_ok: "arg_groups env gs = Inr cs \<Longrightarrow> list_all valid_identifier cs"
  by (induction gs arbitrary: cs) (auto simp: Let_def split: if_splits sum.splits)

lemma write_values_length:
  "Inr vals \<in> outcomes (write_values env row_name secure cols) \<Longrightarrow>
     length vals = length cols \<and> list_all valid_identifier (map fst cols)"
proof (induction env row_name secure cols arbitrary: vals rule: write_values.induct)
  case (2 env row_name secure col v cols)
  then show ?case
    by (auto split: if_splits sum.splits dest!: outcomes_bind simp: map_sum_def)
qed simp

lemma dispatch_elim:
  assumes "\<And>e. Q (Returned (Some (failure e)) None) w"
    and "\<And>name m args'. (name, m) \<in> set routes \<Longrightarrow> (\<And>k. k \<noteq> ''action'' \<Longrightarrow> map_of args' k = map_of args k) \<Longrightarrow>
      Q (fst (run_state (m args') w)) (snd (run_state (m args') w))"
  shows "Q (fst (DispatchAction (map (map_prod id as_handler) routes) infer w args))
    (snd (snd (DispatchAction (map (map_prod id as_handler) routes) infer w args)))"
proof -
  have look: "map_of (map (map_prod id as_handler) routes) n = map_option as_handler (map_of routes n)" for n
    by (induction routes) auto
  show ?thesis
    by (auto simp: DispatchAction_def RequireAction_def infer_action_def look as_handler_def Let_def
        intro!: assms dest!: map_of_SomeD split: option.splits list.splits sum.splits if_splits)
qed

definition data_statement :: "string \<times> gval list \<Rightarrow> bool" where
  \<comment> \<open>a text of identifiers and harmless characters with an argument for each placeholder, or the two fixed
      forms of the full-text search\<close>
  "data_statement s \<longleftrightarrow> sql_ok s \<or> fst s = fts_probe \<and> length (snd s) = 1 \<or>
     (\<exists>t. valid_identifier t \<and> fst s = search_statement t \<and> length (snd s) = 2)"

lemma data_statementI: "sql_text q \<Longrightarrow> placeholders q = length args \<Longrightarrow> data_statement (q, args)"
  by (simp add: data_statement_def sql_ok_def)

lemma data_secure: "sends data_statement (LoadSecureColumns env t)"
  by (intro sends_LoadSecureColumns data_statementI) (simp_all add: tool_constants)

lemma sends_insert_rows:
  assumes "valid_identifier t"
  shows "sends data_statement (insert_rows env t i rows secure)"
  using assms
proof (induction env t i rows secure rule: insert_rows.induct)
  case (2 env table i data rows secure)
  then show ?case
    by (auto intro!: sends_rules sends_Exec data_statementI dest!: write_values_length simp: row_statements_ok)
qed (auto intro: sends_rules)

lemma data_tool_sends:
  assumes "(name, m) \<in> set (DataTool_routes env)"
  shows "sends data_statement (m args)"
proof -
  note rules = sends_rules data_secure sends_Exec sends_QueryRows sends_QueryOne sends_QueryInt sends_insert_rows data_statementI
  note texts = sql_identifier tool_constants sql_constants arg_limit_ok
  have "sends data_statement (DataTool_query env args)"
    unfolding DataTool_query_def by (intro rules)
      (auto simp: sanitized_ok texts dest!: arg_filters_ok arg_order_ok simp del: append.simps)
  moreover have "sends data_statement (DataTool_insert env args)"
    unfolding DataTool_insert_def insertSingle_def insertBulk_def by (intro rules)
      (auto simp: sanitized_ok row_statements_ok dest!: write_values_length)
  moreover have "sends data_statement (DataTool_update env args)"
    unfolding DataTool_update_def by (intro rules)
      (auto simp: sanitized_ok row_statements_ok dest!: write_values_length)
  moreover have "sends data_statement (DataTool_del env args)"
    unfolding DataTool_del_def by (intro rules) (auto simp: sanitized_ok texts simp del: append.simps)
  moreover have "sends data_statement (DataTool_count env args)"
    unfolding DataTool_count_def by (intro rules)
      (auto simp: sanitized_ok texts dest!: arg_filters_ok simp del: append.simps)
  moreover have "sends data_statement (DataTool_aggregate env args)"
    unfolding DataTool_aggregate_def by (intro rules)
      (auto simp: sanitized_ok aggregate_statement_ok dest!: arg_filters_ok arg_groups_ok)
  moreover have "sends data_statement (DataTool_search env args)"
    unfolding DataTool_search_def
    by (intro sends_rules data_secure sends_QueryInt sends_QueryRows)
      (auto simp: data_statement_def sanitized_ok)
  ultimately show ?thesis using assms by (auto simp: DataTool_routes_def)
qed


section \<open>Dropping needs the owner's approval\<close>

definition owner_approved :: "string \<Rightarrow> site_db \<Rightarrow> bool" where
  \<comment> \<open>the latest answer to a question with this key approves\<close>
  "owner_approved key b \<longleftrightarrow> (case approval_answer key b of Some a \<Rightarrow> approves a | None \<Rightarrow> False)"

inductive schema_sends :: "string \<Rightarrow> jval list \<Rightarrow> site_db \<Rightarrow> string \<times> gval list \<Rightarrow> bool" for t drops b where
  \<comment> \<open>what \<^verbatim>\<open>manage_schema\<close> may send for a table and names to drop: the table is an identifier, and data is dropped only with an approval\<close>
  sends_create: "valid_identifier t \<Longrightarrow>
    list_all (\<lambda>(c, _, ty). valid_identifier c \<and> ty \<in> set (map snd allowedColumnTypes)) ds \<Longrightarrow>
    schema_sends t drops b (create_statement t ds, [])"
| sends_upsert: "schema_sends t drops b (registry_upsert, [x, y, z])"
| sends_fts: "valid_identifier t \<Longrightarrow> list_all valid_identifier cs \<Longrightarrow>
    q \<in> snd ` set (fts_statements t cs) \<Longrightarrow> schema_sends t drops b (q, [])"
| sends_add: "valid_identifier t \<Longrightarrow> valid_identifier c \<Longrightarrow>
    ty \<in> set (map snd allowedColumnTypes) \<Longrightarrow> schema_sends t drops b (add_statement t c ty, [])"
| sends_update: "schema_sends t drops b (registry_update, [x, y])"
| sends_read: "q \<in> {secure_query, registered_query} \<Longrightarrow> schema_sends t drops b (q, [x])"
| sends_tables: "schema_sends t drops b (tables_query, [])"
| sends_info: "valid_identifier t \<Longrightarrow>
    q \<in> {''PRAGMA table_info('' @ t @ '')'', ''SELECT COUNT(*) FROM '' @ t} \<Longrightarrow> schema_sends t drops b (q, [])"
| sends_drop_column: "valid_identifier t \<Longrightarrow>
    names_to_drop drops = Inr cs \<Longrightarrow> c \<in> set cs \<Longrightarrow> c \<noteq> ''id'' \<Longrightarrow> c \<noteq> ''created_at'' \<Longrightarrow>
    owner_approved (drop_columns_key t cs) b \<Longrightarrow> schema_sends t drops b (drop_column_statement t c, [])"
| sends_drop: "valid_identifier t \<Longrightarrow> owner_approved (''drop_table:'' @ t) b \<Longrightarrow>
    (e, q, xs) \<in> set (drop_statements t) \<Longrightarrow> schema_sends t drops b (q, xs)"

text \<open>The approvals of the world a tool starts in are those it looks up: statements leave the world alone.\<close>

lemma world_Exec: "frame tw_world (Exec env q args)"
  by (simp add: frame_def Exec_def)

lemma world_QueryRows: "frame tw_world (QueryRows env q args)"
  by (simp add: frame_def QueryRows_def)

lemma world_QueryOne: "frame tw_world (QueryOne env q args)"
  unfolding QueryOne_def by (intro frame_rules world_QueryRows)

lemma world_QueryInt: "frame tw_world (QueryInt env q args)"
  unfolding QueryInt_def by (intro frame_rules world_QueryOne)

lemma world_LoadSecureColumns: "frame tw_world (LoadSecureColumns env t)"
  unfolding LoadSecureColumns_def by (intro frame_rules world_QueryOne)

lemma world_add_columns: "frame tw_world (add_columns env t cols secure added)"
  by (induction env t cols secure added rule: add_columns.induct) (auto intro!: frame_rules world_Exec)

lemma CheckApproval_approved: "fst (run_state (CheckApproval d key) w) \<Longrightarrow> owner_approved key (sdb w)"
  by (auto simp: CheckApproval_def run_simps owner_approved_def split: option.splits)

definition sends_at :: "site_db \<Rightarrow> (string \<times> gval list \<Rightarrow> bool) \<Rightarrow> ('db, 'a) act \<Rightarrow> bool" where
  \<comment> \<open>from a state whose site tables are given\<close>
  "sends_at b P m \<longleftrightarrow>
     (\<forall>s. sdb (tw_world s) = b \<longrightarrow> (\<exists>new. tw_sent (snd (run_state m s)) = tw_sent s @ new \<and> list_all P new))"

lemma sends_atI: "sends P m \<Longrightarrow> sends_at b P m"
  by (simp add: sends_def sends_at_def)

lemma sends_at_run:
  assumes "\<exists>new. tw_sent (snd (run_state m s)) = tw_sent s @ new \<and> list_all P new"
    and "\<exists>new. tw_sent (snd (run_state (f (fst (run_state m s))) (snd (run_state m s)))) =
      tw_sent (snd (run_state m s)) @ new \<and> list_all P new"
  shows "\<exists>new. tw_sent (snd (run_state (State_Monad.bind m f) s)) = tw_sent s @ new \<and> list_all P new"
  using assms unfolding run_bind by (metis append.assoc list_all_append)

lemma sends_at_bind:
  assumes "sends_at b P m" "frame (\<lambda>s. sdb (tw_world s)) m" "\<And>a. sends_at b P (f a)"
  shows "sends_at b P (State_Monad.bind m f)"
  using assms unfolding sends_at_def by (blast intro: sends_at_run dest: frameD [THEN trans])

lemma sends_at_last:
  assumes "sends_at b P m" "\<And>a. sends P (f a)"
  shows "sends_at b P (State_Monad.bind m f)"
  using assms unfolding sends_at_def by (blast intro: sends_at_run dest: sendsD)

lemma sends_at_approval:
  assumes "\<And>ok. (ok \<Longrightarrow> owner_approved key b) \<Longrightarrow> sends P (f ok)"
  shows "sends_at b P (State_Monad.bind (on_world (CheckApproval d key)) f)"
  unfolding sends_at_def
proof (intro allI impI)
  fix s :: "'a tool_world" assume "sdb (tw_world s) = b"
  then have "sends P (f (fst (run_state (on_world (CheckApproval d key)) s)))"
    by (intro assms) (auto simp: on_world_def dest: CheckApproval_approved)
  then show "\<exists>new. tw_sent (snd (run_state (State_Monad.bind (on_world (CheckApproval d key)) f) s)) = tw_sent s @ new \<and>
      list_all P new"
    by (intro sends_at_run sendsD [OF sends_on_world] sendsD)
qed

lemma sends_at_if: "(b' \<Longrightarrow> sends_at b P m) \<Longrightarrow> (\<not> b' \<Longrightarrow> sends_at b P n) \<Longrightarrow> sends_at b P (if b' then m else n)"
  by simp

lemma sends_at_sum:
  "(\<And>e. x = Inl e \<Longrightarrow> sends_at b P (g e)) \<Longrightarrow> (\<And>a. x = Inr a \<Longrightarrow> sends_at b P (f a)) \<Longrightarrow>
   sends_at b P (case x of Inl e \<Rightarrow> g e | Inr a \<Rightarrow> f a)"
  by (cases x) auto

lemma sends_at_prod: "(\<And>u v. x = (u, v) \<Longrightarrow> sends_at b P (f u v)) \<Longrightarrow> sends_at b P (case x of (u, v) \<Rightarrow> f u v)"
  by (cases x) auto

lemma sends_at_list:
  "(x = [] \<Longrightarrow> sends_at b P m) \<Longrightarrow> (\<And>a as. x = a # as \<Longrightarrow> sends_at b P (f a as)) \<Longrightarrow>
   sends_at b P (case x of [] \<Rightarrow> m | a # as \<Rightarrow> f a as)"
  by (cases x) auto

lemma sends_at_Let: "(\<And>a. a = x \<Longrightarrow> sends_at b P (f a)) \<Longrightarrow> sends_at b P (Let x f)"
  by simp

lemmas sends_at_rules = sends_at_if sends_at_sum sends_at_prod sends_at_list sends_at_Let

lemma names_to_drop_plain: "names_to_drop vs = Inr cs \<Longrightarrow> list_all (\<lambda>c. c \<noteq> ''id'' \<and> c \<noteq> ''created_at'') cs"
  by (induction vs arbitrary: cs rule: names_to_drop.induct) (auto split: jval.splits if_splits sum.splits)

lemma column_defs_ok:
  "column_defs hint cols = Inr ds \<Longrightarrow> map fst ds = map fst cols \<and>
     list_all (\<lambda>(c, _, ty). valid_identifier c \<and> ty \<in> set (map snd allowedColumnTypes)) ds"
proof (induction hint cols arbitrary: ds rule: column_defs.induct)
  case (2 hint colName raw cols)
  have "map_of allowedColumnTypes k = Some ty \<Longrightarrow> ty \<in> set (map snd allowedColumnTypes)" for k ty
    by (auto dest: map_of_SomeD intro: rev_image_eqI)
  with 2 show ?case by (auto split: if_splits jval.splits option.splits sum.splits)
qed simp

lemma sends_add_columns:
  assumes "valid_identifier t"
  shows "sends (schema_sends t drops b) (add_columns env t cols secure added)"
  using assms
proof (induction env t cols secure added rule: add_columns.induct)
  case (2 env table c cols secure added)
  obtain n raw where c: "c = (n, raw)" by (cases c)
  have d: "\<exists>ty u. ds = [(n, u, ty)] \<and> valid_identifier n \<and> ty \<in> set (map snd allowedColumnTypes)"
    if "column_defs [] [c] = Inr ds" for ds
    using column_defs_ok [OF that] by (auto simp: c list_all_iff)
  show ?case
  proof (cases "column_defs [] [c]")
    case (Inr ds)
    with d 2 show ?thesis
      by (force intro!: sends_rules sends_Exec sends_add simp: c simp del: column_defs.simps)
  qed (auto intro: sends_rules simp del: column_defs.simps)
qed (auto intro: sends_rules)

lemma sends_drop_columns:
  assumes "\<And>c. c \<in> set cols \<Longrightarrow> P (drop_column_statement t c, [])"
  shows "sends P (drop_columns env t cols secure)"
  using assms
  by (induction env t cols secure rule: drop_columns.induct) (auto intro!: sends_rules sends_Exec)

lemma world_db: "frame tw_world m \<Longrightarrow> frame (\<lambda>s. sdb (tw_world s)) m"
  by (simp add: frame_def)

lemma sends_alter:
  "sends_at b (schema_sends (get_str args ''table_name'') (arg_array args ''drop_columns'') b) (SchemaTool_alter env args)"
proof -
  define t where "t = get_str args ''table_name''"
  let ?P = "schema_sends t (arg_array args ''drop_columns'') b"
  have secure: "sends_at b ?P (LoadSecureColumns env t)"
    by (intro sends_atI sends_LoadSecureColumns sends_read) simp
  have add: "sends_at b ?P (add_columns env t cols secure added)" if "valid_identifier t" for cols secure added
    by (intro sends_atI sends_add_columns that)
  have drop: "sends_at b ?P (alter_drop env t t args secure)" if t: "valid_identifier t" for secure
  proof -
    have "sends ?P (drop_columns env t cols secure)"
      if "names_to_drop (arg_array args ''drop_columns'') = Inr cols" "owner_approved (drop_columns_key t cols) b" for cols
      using names_to_drop_plain [OF that(1)]
      by (intro sends_drop_columns sends_drop_column [OF t that(1) _ _ _ that(2)]) (auto simp: list_all_iff)
    then show ?thesis
      unfolding alter_drop_def by (auto intro!: sends_at_rules sends_at_approval sends_rules sends_atI [OF sends_return])
  qed
  show ?thesis
    unfolding SchemaTool_alter_def Let_def t_def [symmetric]
  proof (intro sends_at_rules sends_atI [OF sends_return])
    fix t' assume "sanitizedTableName t = Inr t'"
    then have t: "valid_identifier t" "t' = t" by (auto simp: sanitized_ok)
    note steps = sends_at_bind [OF secure world_db [OF world_LoadSecureColumns]]
      sends_at_bind [OF add [OF t(1)] world_db [OF world_add_columns]] sends_at_last [OF drop [OF t(1)]]
    show "sends_at b ?P (State_Monad.bind (LoadSecureColumns env t) (\<lambda>secure. State_Monad.bind
        (add_columns env t' (arg_object args ''add_columns'') secure [])
        (case_sum State_Monad.return (\<lambda>(secure', added). State_Monad.bind (alter_drop env t t' args secure')
          (case_sum State_Monad.return (\<lambda>(secure'', dropped).
            if added = [] \<and> dropped = [] then rejected ''no columns to add or drop''
            else State_Monad.bind (case marshal (te_encoder env) (text_map secure'') of
                None \<Rightarrow> State_Monad.return (Inl []) | Some tx \<Rightarrow> Exec env registry_update [GStr tx, GStr t])
              (\<lambda>_. answer (success (GObj [(''table'', GStr t), (''added'', text_list added),
                (''dropped'', text_list dropped)])))))))))"
      unfolding t(2)
      by (intro steps sends_at_rules sends_rules sends_Exec sends_update sends_atI [OF sends_return])
  qed
qed

lemma create_sends: "sends (schema_sends (get_str args ''table_name'') (arg_array args ''drop_columns'') b) (SchemaTool_create env args)"
proof -
  have searchable: "list_all valid_identifier (List.map_filter (searchable cols) vs)" for cols vs
    by (auto simp: list_all_iff searchable_def split: jval.splits if_splits option.splits dest!: map_filter_Some)
  have fts: "sends (schema_sends (get_str args ''table_name'') (arg_array args ''drop_columns'') b) (createFTSIndex env (get_str args ''table_name'') cs)"
    if "valid_identifier (get_str args ''table_name'')" "list_all valid_identifier cs" for cs
    unfolding createFTSIndex_def using that
    by (intro sends_exec_args) (auto simp: list_all_iff intro!: sends_fts [OF that(1)] rev_image_eqI)
  show ?thesis
    unfolding SchemaTool_create_def
    by (intro sends_rules sends_Exec sends_upsert)
      (auto simp: sanitized_ok searchable dest: column_defs_ok intro: sends_create fts)
qed

lemma drop_sends: "sends_at b (schema_sends (get_str args ''table_name'') (arg_array args ''drop_columns'') b) (SchemaTool_drop env args)"
proof -
  define t where "t = get_str args ''table_name''"
  let ?P = "schema_sends t (arg_array args ''drop_columns'') b"
  have exec: "sends ?P (exec_args env (drop_statements t))" if "valid_identifier t" "owner_approved (''drop_table:'' @ t) b"
    using that by (intro sends_exec_args) (auto simp: list_all_iff intro: sends_drop)
  have reg: "sends_at b ?P (QueryInt env registered_query [GStr t])"
    by (intro sends_atI sends_QueryInt sends_read) simp
  have cnt: "sends_at b ?P (QueryInt env (''SELECT COUNT(*) FROM '' @ t) [])" if "valid_identifier t"
    by (intro sends_atI sends_QueryInt sends_info [OF that]) simp
  show ?thesis
    unfolding SchemaTool_drop_def t_def [symmetric]
    by (intro sends_at_rules sends_atI [OF sends_return])
      (auto simp: sanitized_ok intro!: sends_at_bind [OF reg world_db [OF world_QueryInt]]
        sends_at_bind [OF cnt world_db [OF world_QueryInt]] sends_at_approval sends_at_rules sends_rules exec
        sends_atI [OF sends_return])
qed

lemma schema_tool_sends:
  assumes "(name, m) \<in> set (SchemaTool_routes env)"
  shows "sends_at b (schema_sends (get_str args ''table_name'') (arg_array args ''drop_columns'') b) (m args)"
proof -
  have info: "sends (schema_sends (get_str args ''table_name'') (arg_array args ''drop_columns'') b) (SchemaTool_describe env args)"
    unfolding SchemaTool_describe_def
    by (intro sends_rules sends_LoadSecureColumns sends_QueryRows sends_read sends_info) (auto simp: sanitized_ok)
  have tables: "sends (schema_sends (get_str args ''table_name'') (arg_array args ''drop_columns'') b) (SchemaTool_list env args)"
    unfolding SchemaTool_list_def by (intro sends_rules sends_QueryRows sends_tables)
  show ?thesis
    using assms sends_atI [OF create_sends] sends_atI [OF info] sends_atI [OF tables] sends_alter drop_sends
    by (auto simp: SchemaTool_routes_def)
qed

text \<open>
  C21. Whatever \<^verbatim>\<open>manage_schema\<close> is asked to do, every statement it sends has one of the listed forms for the
  named table: in particular a table or a column is dropped only if the owner's latest answer to the question
  with exactly this table (and these columns) approves, and never \<^verbatim>\<open>id\<close> or \<^verbatim>\<open>created_at\<close>.
\<close>
theorem schema_tool_drops_with_approval:
  "\<exists>new. tw_sent (snd (snd (SchemaTool_Execute env w args))) = tw_sent w @ new \<and>
     list_all (schema_sends (get_str args ''table_name'') (arg_array args ''drop_columns'') (sdb (tw_world w))) new"
  unfolding SchemaTool_Execute_def
proof (rule dispatch_elim [where Q = "\<lambda>_ w'. \<exists>new. tw_sent w' = tw_sent w @ new \<and>
    list_all (schema_sends (get_str args ''table_name'') (arg_array args ''drop_columns'') (sdb (tw_world w))) new"], simp)
  fix name m args'
  assume m: "(name, m) \<in> set (SchemaTool_routes env)" and same: "\<And>k. k \<noteq> ''action'' \<Longrightarrow> map_of args' k = map_of args k"
  have "get_str args' ''table_name'' = get_str args ''table_name''"
    "arg_array args' ''drop_columns'' = arg_array args ''drop_columns''"
    by (simp_all add: get_str_def arg_array_def same)
  with schema_tool_sends [OF m, of "sdb (tw_world w)" args']
  show "\<exists>new. tw_sent (snd (run_state (m args') w)) = tw_sent w @ new \<and>
      list_all (schema_sends (get_str args ''table_name'') (arg_array args ''drop_columns'') (sdb (tw_world w))) new"
    by (simp add: sends_at_def)
qed

section \<open>Reserved tables\<close>

lemma reserved_refused:
  assumes "sanitizedTableName (get_str args ''table_name'') = Inl e" "(name, m) \<in> set (DataTool_routes env)"
  shows "\<exists>e. m args = rejected e"
proof -
  have "\<exists>e. DataTool_query env args = rejected e" by (auto simp: DataTool_query_def Let_def assms(1))
  moreover have "\<exists>e. DataTool_insert env args = rejected e" by (auto simp: DataTool_insert_def Let_def assms(1))
  moreover have "\<exists>e. DataTool_update env args = rejected e" by (auto simp: DataTool_update_def Let_def assms(1))
  moreover have "\<exists>e. DataTool_del env args = rejected e" by (auto simp: DataTool_del_def Let_def assms(1))
  moreover have "\<exists>e. DataTool_count env args = rejected e" by (auto simp: DataTool_count_def Let_def assms(1))
  moreover have "\<exists>e. DataTool_aggregate env args = rejected e" by (auto simp: DataTool_aggregate_def Let_def assms(1))
  moreover have "\<exists>e. DataTool_search env args = rejected e" by (auto simp: DataTool_search_def Let_def assms(1))
  ultimately show ?thesis using assms(2) by (auto simp: DataTool_routes_def)
qed

text \<open>
  A name that is reserved or no identifier is refused by every operation on rows before anything is looked
  up: the reply is an error, no statement is sent, and neither the site nor the database changes.
\<close>
theorem reserved_tables_refused:
  assumes "get_str args ''table_name'' \<in> set systemTables \<or> \<not> valid_identifier (get_str args ''table_name'')"
  shows "(\<exists>e. fst (DataTool_Execute env w args) = Returned (Some (failure e)) None) \<and>
    snd (snd (DataTool_Execute env w args)) = w"
proof -
  have refused: "\<exists>e. sanitizedTableName (get_str args' ''table_name'') = Inl e"
    if "map_of args' ''table_name'' = map_of args ''table_name''" for args'
    using assms that by (auto simp: sanitizedTableName_def get_str_def)
  show ?thesis
    unfolding DataTool_Execute_def
  proof (rule dispatch_elim [where Q = "\<lambda>out w'. (\<exists>e. out = Returned (Some (failure e)) None) \<and> w' = w"], simp)
    fix name m args'
    assume m: "(name, m) \<in> set (DataTool_routes env)" and same: "\<And>k. k \<noteq> ''action'' \<Longrightarrow> map_of args' k = map_of args k"
    obtain e where "sanitizedTableName (get_str args' ''table_name'') = Inl e" using refused [of args'] same by auto
    from reserved_refused [OF this m]
    show "(\<exists>e. fst (run_state (m args') w) = Returned (Some (failure e)) None) \<and> snd (run_state (m args') w) = w"
      by auto
  qed
qed

lemma upper_not_reserved:
  assumes "t \<in> set systemTables"
  shows "valid_identifier (to_upper t)" "to_upper t \<notin> set systemTables" "to_upper t \<noteq> []"
proof -
  have lower: "list_all (\<lambda>t. t \<noteq> [] \<and> byte_in 97 122 (hd t)) systemTables" by code_simp
  then obtain c cs where t: "t = c # cs" "byte_in 97 122 c" using assms by (cases t) (auto simp: list_all_iff)
  then show "to_upper t \<noteq> []" by (simp add: to_upper_def)
  have up: "is_letter (upper_char c)" if "byte_in 97 122 c" for c
  proof -
    have "of_char c - 32 < (256::nat)" using that unfolding byte_in_def by linarith
    then have "(of_char c - 32) mod 256 = of_char c - (32::nat)" by (rule mod_less)
    with that show ?thesis by (auto simp: is_letter_def upper_char_def byte_in_def)
  qed
  have "upper_char CHR ''_'' = CHR ''_''" by code_simp
  then have "is_word_char (upper_char c)" if "c = CHR ''_'' \<or> byte_in 97 122 c" for c
    using that up [of c] by (auto simp: is_word_char_def)
  moreover have "list_all (list_all (\<lambda>c. c = CHR ''_'' \<or> byte_in 97 122 c)) systemTables" by code_simp
  ultimately have "list_all is_word_char (to_upper t)" using assms by (auto simp: list_all_iff to_upper_def)
  moreover have "is_letter (upper_char c)" using t(2) by (rule up)
  ultimately show "valid_identifier (to_upper t)" by (simp add: t(1) valid_identifier_def to_upper_def)
  have "\<not> byte_in 97 122 (hd (to_upper t))" using t by (auto simp: to_upper_def upper_char_def byte_in_def)
  then show "to_upper t \<notin> set systemTables" using lower by (auto simp: list_all_iff)
qed

text \<open>
  The list of reserved tables is compared exactly, while SQLite ignores the case of table names: every
  reserved table is accepted in upper case, and an insert under that name is sent, into the owner's answers
  to approvals for instance.
\<close>
theorem reserved_tables_other_spelling:
  assumes "t \<in> set systemTables" "data \<noteq> []" "list_all valid_identifier (map fst data)" "arg_array args ''rows'' = []"
    and "get_str args ''table_name'' = to_upper t" "arg_object args ''data'' = data"
    and "db_query (te_lib env) (tw_db w) secure_query [GStr (to_upper t)] = Inr (cols, [])"
  shows "tw_sent (snd (run_state (DataTool_insert env args) w)) = tw_sent w @
    [(secure_query, [GStr (to_upper t)]), (insert_row_statement (to_upper t) (map fst data), map (gval_of \<circ> snd) data)]"
proof -
  have t: "sanitizedTableName (to_upper t) = Inr (to_upper t)" "to_upper t \<noteq> []"
    using upper_not_reserved [OF assms(1)] by (simp_all add: sanitized_ok)
  have plain: "run_state (write_values env [] [] ds) s = (Inr (map (gval_of \<circ> snd) ds), s)"
    if "list_all valid_identifier (map fst ds)" for ds and s :: "'a tool_world"
    using that by (induction ds) (auto simp: run_bind processColumn_def)
  have load: "run_state (LoadSecureColumns env (to_upper t)) w =
      ([], w\<lparr>tw_sent := tw_sent w @ [(secure_query, [GStr (to_upper t)])]\<rparr>)"
    using assms(7) by (simp add: LoadSecureColumns_def QueryOne_def QueryRows_def run_bind)
  show ?thesis
    using t assms(2-6) plain [OF assms(3)]
    by (simp add: DataTool_insert_def Let_def run_bind load insertSingle_def Exec_def split: sum.split prod.split)
qed

section \<open>Rows written and rows read\<close>

definition stored_as :: "'db tool_env \<Rightarrow> (string \<times> string) list \<Rightarrow> string \<times> jval \<Rightarrow> gval \<Rightarrow> bool" where
  \<comment> \<open>the value sent for a field: processed if its column is a secure one, itself otherwise\<close>
  "stored_as env secure = (\<lambda>(c, v) x.
     case map_of secure c of
       None \<Rightarrow> x = gval_of v
     | Some kind \<Rightarrow> \<exists>n. ProcessSecureValue (te_crypto env n) kind (gval_of v) = Inr x)"

lemma write_values_stored:
  "Inr vals \<in> outcomes (write_values env row_name secure cols) \<Longrightarrow> list_all2 (stored_as env secure) cols vals"
proof (induction env row_name secure cols arbitrary: vals rule: write_values.induct)
  case (2 env row_name secure col v cols)
  have p: "stored_as env secure (col, v) x" if "Inr x \<in> outcomes (processColumn env secure col (gval_of v))" for x
    using that by (auto simp: stored_as_def processColumn_def outcomes_def split: option.splits)
  from "2.prems" obtain x vs where "vals = x # vs" "Inr x \<in> outcomes (processColumn env secure col (gval_of v))"
      "Inr vs \<in> outcomes (write_values env row_name secure cols)" "valid_identifier col"
    by (auto split: if_splits sum.splits dest!: outcomes_bind simp: map_sum_def)
  with p "2.IH" show ?case by auto
qed simp

definition row_fields :: "jval \<Rightarrow> (string \<times> jval) list" where
  "row_fields v = (case v of JObj m \<Rightarrow> m | _ \<Rightarrow> [])"

definition row_insert :: "'db tool_env \<Rightarrow> string \<Rightarrow> (string \<times> string) list \<Rightarrow> jval \<Rightarrow> string \<times> gval list \<Rightarrow> bool" where
  \<comment> \<open>the statement that stores a row\<close>
  "row_insert env table secure v s \<longleftrightarrow> (\<exists>m. v = JObj m) \<and> list_all2 (stored_as env secure) (row_fields v) (snd s) \<and>
     fst s = insert_row_statement table (map fst (row_fields v))"

lemma sent_write_values [simp]:
  "tw_sent (snd (run_state (write_values env row_name secure cols) s)) = tw_sent s"
  "tw_db (snd (run_state (write_values env row_name secure cols) s)) = tw_db s"
  by (induction env row_name secure cols arbitrary: s rule: write_values.induct)
    (auto simp: run_bind processColumn_def split: sum.split option.split)

lemma map_sum_Inr: "map_sum f g x = Inr y \<longleftrightarrow> (\<exists>z. x = Inr z \<and> y = g z)"
  by (cases x) auto

lemma map_sum_Inl: "map_sum f g x = Inl y \<longleftrightarrow> (\<exists>z. x = Inl z \<and> y = f z)"
  by (cases x) auto

lemma run_insert_rows:
  "run_state (insert_rows env table i (JObj data # rows) secure) s =
     (let (v, s1) = run_state (write_values env ('' in row '' @ show_nat i) secure data) s in
      case v of
        Inl out \<Rightarrow> (Inl out, s1)
      | Inr vals \<Rightarrow>
          (let (r, s2) = run_state (Exec env (insert_row_statement table (map fst data)) vals) s1 in
           case r of
             Inl e \<Rightarrow> (Inl (Returned None (Some (''inserting row '' @ show_nat i @ '': '' @ e))), s2)
           | Inr (n, _) \<Rightarrow>
               (let (ns, s3) = run_state (insert_rows env table (Suc i) rows secure) s2 in (map_sum id ((#) n) ns, s3))))"
  by (simp add: run_bind split: prod.split sum.split del: append.simps)

lemma insert_rows_all:
  "run_state (insert_rows env table i rows secure) s = (Inr ns, s') \<Longrightarrow>
     length ns = length rows \<and>
     (\<exists>new. tw_sent s' = tw_sent s @ new \<and> list_all2 (row_insert env table secure) rows new)"
proof (induction env table i rows secure arbitrary: s ns rule: insert_rows.induct)
  case (2 env table i data rows secure)
  let ?w = "write_values env ('' in row '' @ show_nat i) secure data"
  let ?x = "\<lambda>vals. Exec env (insert_row_statement table (map fst data)) vals"
  from "2.prems" obtain vals s1 n k s2 ms where
      v: "run_state ?w s = (Inr vals, s1)" and x: "run_state (?x vals) s1 = (Inr (n, k), s2)"
      and ms: "run_state (insert_rows env table (Suc i) rows secure) s2 = (Inr ms, s')" "ns = n # ms"
    unfolding run_insert_rows Let_def
    by (auto simp: map_sum_Inr simp del: append.simps split: prod.splits sum.splits)
  have out: "Inr vals \<in> outcomes ?w" using outcomesI [of ?w s] v by simp
  then have row: "row_insert env table secure (JObj data) (insert_row_statement table (map fst data), vals)"
    by (auto simp: row_insert_def row_fields_def dest: write_values_stored)
  have "tw_sent s2 = tw_sent s @ [(insert_row_statement table (map fst data), vals)]"
    using x sent_write_values(1) [of env "'' in row '' @ show_nat i" secure data s] v by (auto simp: Exec_def simp del: append.simps)
  with "2.IH" [OF ms(1)] row ms(2) show ?case by force
qed auto

lemma write_values_error:
  "Inl (Returned (Some r) None) \<in> outcomes (write_values env row_name secure cols) \<Longrightarrow> \<not> Success r"
  by (induction env row_name secure cols rule: write_values.induct)
    (auto simp: map_sum_def dest!: outcomes_bind split: sum.splits if_splits)

lemma insert_rows_error:
  "Inl (Returned (Some r) None) \<in> outcomes (insert_rows env table i rows secure) \<Longrightarrow> \<not> Success r"
  by (induction env table i rows secure rule: insert_rows.induct,
      auto simp: map_sum_def dest!: outcomes_bind split: sum.splits prod.splits) (metis write_values_error)+

text \<open>
  A bulk insert is all or nothing. It succeeds only after one statement per row was sent, in order, each
  with the row's fields and their values (hashed or encrypted in secure columns), all of them accepted, and
  the transaction committed; otherwise, whatever went wrong, the database is as before. It takes at most a
  hundred rows.
\<close>
theorem insertBulk_atomic:
  "case run_state (insertBulk env table rows secure) s of (out, s') \<Rightarrow>
     (case out of
        Returned (Some r) None \<Rightarrow>
          if Success r
          then length rows \<le> 100 \<and> (\<exists>new db. tw_sent s' = tw_sent s @ new \<and>
                 list_all2 (row_insert env table secure) rows new \<and> te_commit env db = Inr (tw_db s') \<and>
                 (\<exists>m. Data r = GObj m \<and> map_of m ''inserted'' = Some (GInt (int (length rows)))))
          else tw_db s' = tw_db s
      | _ \<Rightarrow> tw_db s' = tw_db s)"
proof (cases "run_state (insert_rows env table 0 rows secure) s")
  case (Pair r s1)
  have no_success: "out \<noteq> Returned (Some x) None \<or> \<not> Success x" if "r = Inl out" for out x
    using insert_rows_error [of x env table 0 rows secure] outcomesI [of "insert_rows env table 0 rows secure" s] that
    by (auto simp: Pair)
  show ?thesis
  proof (cases "length rows > 100 \<or> te_begin env (tw_db s) \<noteq> None")
    case True
    then show ?thesis by (auto simp: insertBulk_def run_bind split: option.split)
  next
    case False
    show ?thesis
    proof (cases r)
      case (Inl out)
      with False Pair no_success [OF Inl] show ?thesis
        by (cases out) (auto simp: insertBulk_def run_bind restore_def split: option.split)
    next
      case (Inr ns)
      then obtain new where "length ns = length rows" "tw_sent s1 = tw_sent s @ new"
          "list_all2 (row_insert env table secure) rows new"
        using insert_rows_all [of env table 0 rows secure s ns s1] Pair by auto
      with False Pair Inr show ?thesis
        by (cases "te_commit env (tw_db s1)") (auto simp: insertBulk_def run_bind restore_def split: option.split)
    qed
  qed
qed

lemma row_map_other: "c \<notin> set cols \<Longrightarrow> map_of (row_map cols vs m) c = map_of m c"
  by (induction cols vs m rule: row_map.induct) auto

lemma visible_map_hides: "map_of secure c = Some ''hash'' \<Longrightarrow> map_of (visible_map secure cols vs) c = None"
  unfolding visible_map_def Let_def by (subst row_map_other) auto

lemma LoadSecureColumns_db:
  "tw_db s' = tw_db s \<Longrightarrow> fst (run_state (LoadSecureColumns env t) s') = fst (run_state (LoadSecureColumns env t) s)"
  by (simp add: LoadSecureColumns_def QueryOne_def QueryRows_def run_bind)

lemma db_QueryInt: "tw_db (snd (run_state (QueryInt env q args) s)) = tw_db s"
  by (simp add: QueryInt_def QueryOne_def QueryRows_def run_bind)

definition read_rows :: "gval \<Rightarrow> (string \<times> gval) list set" where
  \<comment> \<open>the rows in a reply of the tool\<close>
  "read_rows d = {m. (\<exists>vs. (d = GArr vs \<or> (\<exists>ms. d = GObj ms \<and> map_of ms ''results'' = Some (GArr vs))) \<and> GObj m \<in> set vs)}"

text \<open>
  Reading and searching rows never return a value under the name of a column whose values are hashed,
  whatever columns, filters and order are asked for.
\<close>
theorem hash_columns_hidden:
  assumes "read \<in> {DataTool_query env args, DataTool_search env args}"
    and "fst (run_state read s) = Returned (Some r) None"
    and "map_of (fst (run_state (LoadSecureColumns env (get_str args ''table_name'')) s)) c = Some ''hash''"
    and "m \<in> read_rows (Data r)"
  shows "map_of m c = None"
proof -
  define t where "t = get_str args ''table_name''"
  define secure where "secure = fst (run_state (LoadSecureColumns env t) s)"
  have hash: "map_of secure c = Some ''hash''" using assms(3) by (simp add: secure_def t_def)
  then have mem: "(c, ''hash'') \<in> set secure" by (rule map_of_SomeD)
  from assms(1) consider "read = DataTool_query env args" | "read = DataTool_search env args" by blast
  then show ?thesis
  proof cases
    case 1
    with assms(2) have "Data r = GNil \<or> (\<exists>vs. Data r = GArr vs \<and> (\<forall>m. GObj m \<in> set vs \<longrightarrow> map_of m c = None))"
      using visible_map_hides [OF hash]
      by (auto simp: DataTool_query_def Let_def run_bind secure_def t_def split: sum.splits prod.splits)
    with assms(4) show ?thesis by (auto simp: read_rows_def)
  next
    case 2
    have later: "fst (run_state (LoadSecureColumns env t) (snd (run_state (QueryRows env q xs)
        (snd (run_state (QueryInt env q' xs') s))))) = secure" for q xs q' xs'
      unfolding secure_def by (rule LoadSecureColumns_db) (simp add: QueryRows_def db_QueryInt)
    have "Data r = GNil \<or> (\<exists>ms vs. Data r = GObj ms \<and> map_of ms ''results'' = Some (GArr vs) \<and>
        (\<forall>v \<in> set vs. \<exists>rs. \<exists>m \<in> set (stripSecureCols rs secure). v = GObj m))"
      using assms(2) 2 by (auto simp: DataTool_search_def Let_def run_bind later t_def [symmetric] split: sum.splits if_splits)
    with assms(4) mem show ?thesis
      by (auto simp: read_rows_def stripSecureCols_def delete_hashes_keys split: if_splits)
  qed
qed

section \<open>A concrete site\<close>

definition members_env :: "unit tool_env" where
  "members_env = \<lparr>te_lib = users_db, te_begin = (\<lambda>_. None), te_commit = Inr, te_deps = quiet_deps, te_bus = False,
     te_crypto = (\<lambda>_. \<lparr>cr_bcrypt = (\<lambda>_ s. Inr s), cr_aead = None, cr_nonce = None, cr_print = (\<lambda>_. [])\<rparr>),
     te_string_map = (\<lambda>s. Some [(s, ''hash'')]),
     te_encoder = \<lparr>enc_num = (\<lambda>_. None), enc_time = (\<lambda>_. None)\<rparr>, te_float = (\<lambda>_. None), te_print = (\<lambda>_. []),
     te_scan_error = (\<lambda>_. [])\<rparr>"

definition idle_tool :: "unit tool_world" where
  "idle_tool = \<lparr>tw_world = fresh_world, tw_db = (), tw_sent = [], tw_draws = 0\<rparr>"

theorem reserved_tables_refused_witness:
  "snd (snd (DataTool_Execute members_env idle_tool [(''table_name'', JStr ''answers''), (''id'', JNum 1)])) = idle_tool"
  using reserved_tables_refused [of "[(''table_name'', JStr ''answers''), (''id'', JNum 1)]" members_env idle_tool]
  by (simp add: get_str_def as_string_def systemTables_def)

theorem reserved_tables_other_spelling_witness:
  "map fst (tw_sent (snd (run_state (DataTool_insert
       (members_env\<lparr>te_lib := \<lparr>db_query = (\<lambda>_ _ _. Inr ([], [])), db_exec = (\<lambda>db _ _. (Inr (1, 1), db))\<rparr>\<rparr>)
       [(''table_name'', JStr (to_upper ''answers'')), (''data'', JObj [(''question_id'', JNum 3), (''answer'', JStr ''yes'')])])
     idle_tool))) = [secure_query, insert_row_statement (to_upper ''answers'') [''question_id'', ''answer'']]"
proof -
  have "list_all valid_identifier [''question_id'', ''answer'']" by code_simp
  with reserved_tables_other_spelling [of "''answers''" "[(''question_id'', JNum 3), (''answer'', JStr ''yes'')]"
      "[(''table_name'', JStr (to_upper ''answers'')), (''data'', JObj [(''question_id'', JNum 3), (''answer'', JStr ''yes'')])]"
      "members_env\<lparr>te_lib := \<lparr>db_query = (\<lambda>_ _ _. Inr ([], [])), db_exec = (\<lambda>db _ _. (Inr (1, 1), db))\<rparr>\<rparr>"
      idle_tool "[]"]
  show ?thesis
    by (simp add: systemTables_def arg_array_def arg_object_def get_str_def as_string_def idle_tool_def)
qed

theorem hash_columns_hidden_witness:
  "\<exists>r m. fst (run_state (DataTool_query members_env [(''table_name'', JStr ''users'')]) idle_tool) = Returned (Some r) None \<and>
     m \<in> read_rows (Data r) \<and> map_of m ''id'' = Some (GInt 1) \<and> map_of m ''password'' = None"
proof -
  let ?args = "[(''table_name'', JStr ''users'')]"
  define m where "m = visible_map [(''password'', ''hash'')] [''id'', ''password''] [GInt 1, GStr ''h'']"
  have "valid_identifier ''users''" "''users'' \<notin> set systemTables" by code_simp+
  then have t: "sanitizedTableName ''users'' = Inr ''users''" by (simp add: sanitized_ok)
  have load: "fst (run_state (LoadSecureColumns members_env ''users'') idle_tool) = [(''password'', ''hash'')]"
    by (simp add: LoadSecureColumns_def QueryOne_def QueryRows_def run_bind members_env_def users_db_def secure_query_def
        endpoint_query_def)
  have run: "fst (run_state (DataTool_query members_env ?args) idle_tool) = Returned (Some (success (GArr [GObj m]))) None"
    by (simp add: DataTool_query_def Let_def get_str_def as_string_def t run_bind load arg_filters_def arg_order_def
        arg_limit_def get_num_def m_def)
      (simp add: QueryRows_def members_env_def users_db_def secure_query_def endpoint_query_def)
  have mem: "m \<in> read_rows (Data (success (GArr [GObj m])))" by (simp add: read_rows_def)
  have "map_of m ''password'' = None"
    using hash_columns_hidden [OF _ run, of members_env ?args "''password''" m] mem load
    by (simp add: get_str_def as_string_def)
  moreover have "map_of m ''id'' = Some (GInt 1)" by (simp add: m_def visible_map_def)
  ultimately show ?thesis using run mem by blast
qed

end
