(* ===== verification/Endpoints.thy ===== *)
theory Endpoints
  imports Tables
begin

text \<open>
  The tool \<^verbatim>\<open>manage_endpoints\<close> of \<^verbatim>\<open>tools/endpoints.go\<close>: it stores what the public server later loads,
  the rows of the data, authentication, upload, stream, socket and OAuth endpoints. Shown: an
  authentication endpoint is stored only for a registered PASSWORD column and only with identifiers in
  every place that is later pasted into SQL, and every secret reaches the database encrypted.
\<close>

section \<open>Arguments\<close>

definition string_items :: "jval list \<Rightarrow> string list" where
  "string_items = List.map_filter (\<lambda>v. case v of JStr s \<Rightarrow> Some s | _ \<Rightarrow> None)"

definition arg_bool :: "jobj \<Rightarrow> string \<Rightarrow> bool" where
  "arg_bool args k = (case map_of args k of Some (JBool b) \<Rightarrow> b | _ \<Rightarrow> False)"

definition arg_default :: "jobj \<Rightarrow> string \<Rightarrow> string \<Rightarrow> string" where
  "arg_default args k d = (if get_str args k = [] then d else get_str args k)"

definition arg_strings :: "jobj \<Rightarrow> string \<Rightarrow> string list \<Rightarrow> string list" where
  \<comment> \<open>the strings of a list argument with elements, a default otherwise\<close>
  "arg_strings args k d = (if arg_array args k = [] then d else string_items (arg_array args k))"

definition arg_positive :: "jobj \<Rightarrow> string \<Rightarrow> int \<Rightarrow> int" where
  "arg_positive args k d = (if get_num args k > 0 then trunc_rat (get_num args k) else d)"

definition strings_json :: "string list \<Rightarrow> string" where
  \<comment> \<open>\<^verbatim>\<open>json.Marshal\<close> of a slice that is nil when it is empty\<close>
  "strings_json xs = (if xs = [] then ''null'' else ''['' @ join '','' (map json_string xs) @ '']'')"

definition upsert :: "string \<Rightarrow> nat \<Rightarrow> string \<Rightarrow> string list \<Rightarrow> string" where
  \<comment> \<open>the statements that insert a row or replace the one with the same key (up to white space)\<close>
  "upsert table n key cols =
     ''INSERT INTO '' @ table @ '' ('' @ join '', '' cols @ '') VALUES ('' @ join '', '' (replicate n ''?'') @
     '') ON CONFLICT('' @ key @ '') DO UPDATE SET '' @
     join '', '' (map (\<lambda>c. c @ '' = excluded.'' @ c) (filter (\<lambda>c. c \<noteq> key) cols))"

section \<open>Data endpoints\<close>

definition api_upsert :: string where
  "api_upsert = upsert ''api_endpoints'' 8 ''path''
     [''path'', ''table_name'', ''methods'', ''public_columns'', ''requires_auth'', ''public_read'', ''required_role'',
      ''rate_limit'']"

definition createAPI :: "'db tool_env \<Rightarrow> jobj \<Rightarrow> ('db, tool_outcome) act" where
  "createAPI env args =
     (let path = get_str args ''path''; tableName = get_str args ''table_name'' in
      if path = [] \<or> tableName = [] then rejected ''path and table_name are required''
      else do { n \<leftarrow> QueryInt env registered_query [GStr tableName];
                (if (case n of Inr k \<Rightarrow> k = 0 | Inl _ \<Rightarrow> True)
                 then rejected (''dynamic table '' @ squoted tableName @ '' does not exist '' @ em_dash @
                   '' create it first with manage_schema'')
                 else (let methods = arg_strings args ''methods'' [''GET'', ''POST'', ''PUT'', ''DELETE''];
                           cols = arg_array args ''public_columns'';
                           publicCols = (if cols = [] then GNil else GStr (strings_json (string_items cols)));
                           role = get_str args ''required_role'';
                           requiresAuth = (arg_bool args ''requires_auth'' \<or> role \<noteq> []);
                           publicRead = arg_bool args ''public_read'';
                           rateLimit = arg_positive args ''rate_limit'' 60
                       in do { r \<leftarrow> Exec env api_upsert
                                 [GStr path, GStr tableName, GStr (strings_json methods), publicCols, GBool requiresAuth,
                                  GBool publicRead, (if role = [] then GNil else GStr role), GInt rateLimit];
                               case r of
                                 Inl e \<Rightarrow> raised (''creating API endpoint: '' @ e)
                               | Inr _ \<Rightarrow> answer (success (GObj ([(''path'', GStr path), (''table_name'', GStr tableName),
                                   (''methods'', text_list methods), (''requires_auth'', GBool requiresAuth),
                                   (''public_read'', GBool publicRead), (''rate_limit'', GInt rateLimit)] @
                                   (if role = [] then [] else [(''required_role'', GStr role)])))) })) })"

definition api_row :: "gval list \<Rightarrow> gval option" where
  "api_row vs =
     (case vs of
        [GInt i, GStr path, GStr table, GStr methods, cols, auth, GInt perMinute, GTime created] \<Rightarrow>
          (case (null_string cols, row_bool auth) of
             (Some cs, Some a) \<Rightarrow>
               Some (GObj [(''id'', GInt i), (''path'', GStr path), (''table_name'', GStr table), (''methods'', GStr methods),
                 (''public_columns'', GStr cs), (''requires_auth'', GBool a), (''rate_limit'', GInt perMinute),
                 (''created_at'', GTime created)])
           | _ \<Rightarrow> None)
      | _ \<Rightarrow> None)"

definition list_rows :: "'db tool_env \<Rightarrow> string \<Rightarrow> string \<Rightarrow> (gval list \<Rightarrow> gval option) \<Rightarrow> ('db, tool_outcome) act" where
  \<comment> \<open>the rows of a query; those that cannot be scanned are skipped\<close>
  "list_rows env q what row_of =
     do { r \<leftarrow> QueryRows env q [];
          case r of
            Inl e \<Rightarrow> raised (what @ e)
          | Inr (_, rs) \<Rightarrow> answer (success (GArr (List.map_filter row_of rs))) }"

definition listAPI :: "'db tool_env \<Rightarrow> jobj \<Rightarrow> ('db, tool_outcome) act" where
  "listAPI env args =
     list_rows env
       ''SELECT id, path, table_name, methods, public_columns, requires_auth, rate_limit, created_at FROM api_endpoints ORDER BY path''
       ''listing API endpoints: '' api_row"

definition delete_endpoint ::
    "'db tool_env \<Rightarrow> string \<Rightarrow> string \<Rightarrow> string \<Rightarrow> string \<Rightarrow> string \<Rightarrow> ('db, tool_outcome) act" where
  \<comment> \<open>the body that the two deletions share\<close>
  "delete_endpoint env q what missing action path =
     (if path = [] then rejected ''path is required''
      else do { r \<leftarrow> Exec env q [GStr path];
                case r of
                  Inl e \<Rightarrow> raised (what @ e)
                | Inr (_, n) \<Rightarrow>
                    (if n = 0 then rejected missing
                     else do { _ \<leftarrow> on_world (LogDestructiveAction (te_deps env) ''manage_endpoints'' action path);
                               answer (success (GObj [(''deleted'', GStr path)])) }) })"

definition deleteAPI :: "'db tool_env \<Rightarrow> jobj \<Rightarrow> ('db, tool_outcome) act" where
  "deleteAPI env args =
     delete_endpoint env ''DELETE FROM api_endpoints WHERE path = ?'' ''deleting API endpoint: '' ''endpoint not found''
       ''delete_api'' (get_str args ''path'')"

section \<open>Authentication endpoints\<close>

definition loadSecureColumns :: "'db tool_env \<Rightarrow> string \<Rightarrow> ('db, (string \<times> string) list option) act" where
  \<comment> \<open>\<^term>\<open>None\<close>: the nil map of a table without an entry or with a text that is no object\<close>
  "loadSecureColumns env table =
     do { r \<leftarrow> QueryOne env secure_query [GStr table];
          State_Monad.return (case r of Inr (Some [GStr raw]) \<Rightarrow> te_string_map env raw | _ \<Rightarrow> None) }"

definition schema_query :: string where
  "schema_query = ''SELECT schema_def FROM dynamic_tables WHERE table_name = ?''"

definition physical_probe :: "string \<Rightarrow> string" where
  "physical_probe table = ''SELECT COUNT(*) FROM pragma_table_info('' @ squoted table @ '')''"

fun public_identifiers :: "jval list \<Rightarrow> string + string list" where
  "public_identifiers [] = Inr []"
| "public_identifiers (v # vs) =
     (case v of
        JStr s \<Rightarrow>
          (if \<not> valid_identifier s then Inl (''invalid public_column name: '' @ s)
           else (case public_identifiers vs of Inl e \<Rightarrow> Inl e | Inr cs \<Rightarrow> Inr (s # cs)))
      | _ \<Rightarrow> public_identifiers vs)"

definition arg_public :: "jobj \<Rightarrow> string + string" where
  "arg_public args =
     (if arg_array args ''public_columns'' = [] then Inr ''[]''
      else map_sum id strings_json (public_identifiers (arg_array args ''public_columns'')))"

definition add_role_statement :: "string \<Rightarrow> string \<Rightarrow> string" where
  "add_role_statement table c = ''ALTER TABLE '' @ table @ '' ADD COLUMN '' @ c @ '' TEXT DEFAULT '' @ squoted []"

definition auth_upsert :: string where
  "auth_upsert = upsert ''auth_endpoints'' 7 ''path''
     [''table_name'', ''path'', ''username_column'', ''password_column'', ''public_columns'', ''default_role'', ''role_column'']"

definition auth_routes :: "string \<Rightarrow> gval" where
  "auth_routes path = text_list [''POST /api/'' @ path @ ''/register'', ''POST /api/'' @ path @ ''/login'',
     ''GET /api/'' @ path @ ''/me'']"

definition ensure_role :: "'db tool_env \<Rightarrow> string \<Rightarrow> string \<Rightarrow> jobj \<Rightarrow> ('db, string option) act" where
  \<comment> \<open>adds the role column if the schema lacks it; errors of recording it are ignored\<close>
  "ensure_role env table c schema =
     (if map_of schema c \<noteq> None then State_Monad.return None
      else do { a \<leftarrow> Exec env (add_role_statement table c) [];
                case a of
                  Inl e \<Rightarrow> State_Monad.return (Some (''role_column '' @ quote c @ '' does not exist in table '' @ quote table @
                    '' and could not be auto-added: '' @ e))
                | Inr _ \<Rightarrow>
                    do { _ \<leftarrow> Exec env ''UPDATE dynamic_tables SET schema_def = ? WHERE table_name = ?''
                           [GStr (case marshal (te_encoder env) (gval_of (JObj (AList.update c (JStr ''TEXT'') schema))) of
                                    Some t \<Rightarrow> t | None \<Rightarrow> []), GStr table];
                         State_Monad.return None } })"

definition store_auth :: "'db tool_env \<Rightarrow> jobj \<Rightarrow> string \<Rightarrow> jobj \<Rightarrow> ('db, tool_outcome) act" where
  \<comment> \<open>the second half of \<^verbatim>\<open>createAuth\<close>: the schema is loaded and the username column is in it\<close>
  "store_auth env args passwordCol schema =
     (let tableName = get_str args ''table_name''; path = get_str args ''path'';
          usernameCol = get_str args ''username_column''; defaultRole = arg_default args ''default_role'' ''user'';
          roleColumn = arg_default args ''role_column'' ''role'' in
      case arg_public args of
        Inl e \<Rightarrow> rejected e
      | Inr publicJSON \<Rightarrow>
          (if get_str args ''role_column'' \<noteq> [] \<and> \<not> valid_identifier roleColumn
           then rejected (''invalid role_column name: '' @ roleColumn)
           else do { f \<leftarrow> ensure_role env tableName roleColumn schema;
                     case f of
                       Some e \<Rightarrow> rejected e
                     | None \<Rightarrow>
                         do { r \<leftarrow> Exec env auth_upsert [GStr tableName, GStr path, GStr usernameCol, GStr passwordCol,
                                GStr publicJSON, GStr defaultRole, GStr roleColumn];
                              case r of
                                Inl e \<Rightarrow> raised (''creating auth endpoint: '' @ e)
                              | Inr (i, _) \<Rightarrow> answer (success (GObj [(''id'', GInt i), (''path'', GStr path),
                                  (''routes'', auth_routes path), (''table'', GStr tableName),
                                  (''username_column'', GStr usernameCol), (''password_column'', GStr passwordCol),
                                  (''default_role'', GStr defaultRole), (''role_column'', GStr roleColumn)])) } }))"

definition createAuth :: "'db tool_env \<Rightarrow> jobj \<Rightarrow> ('db, tool_outcome) act" where
  "createAuth env args =
     (let tableName = get_str args ''table_name''; path = get_str args ''path'';
          usernameCol = get_str args ''username_column''; passwordCol = arg_default args ''password_column'' ''password'' in
      if tableName = [] \<or> path = [] \<or> usernameCol = []
      then rejected ''table_name, path, and username_column are required''
      else if \<not> valid_identifier usernameCol then rejected (''invalid username_column name: '' @ usernameCol)
      else if \<not> valid_identifier passwordCol then rejected (''invalid password_column name: '' @ passwordCol)
      else do { secure \<leftarrow> loadSecureColumns env tableName;
                case secure of
                  None \<Rightarrow> rejected (''table '' @ quote tableName @ '' not found in dynamic tables registry'')
                | Some kinds \<Rightarrow>
                    (if map_of kinds passwordCol \<noteq> Some ''hash''
                     then rejected (''column '' @ quote passwordCol @ '' in table '' @ quote tableName @
                       '' is not a PASSWORD column'')
                     else do { d \<leftarrow> QueryOne env schema_query [GStr tableName];
                               case d of
                                 Inr (Some [GStr schemaDef]) \<Rightarrow>
                                   (case json_object (te_deps env) schemaDef of
                                      Inl _ \<Rightarrow> rejected (''invalid schema_def for table '' @ quote tableName)
                                    | Inr schema \<Rightarrow>
                                        (if map_of schema usernameCol = None
                                         then rejected (''username_column '' @ quote usernameCol @ '' does not exist in table '' @
                                           quote tableName @ '' '' @ em_dash @ '' available columns: '' @
                                           join '', '' (filter (\<lambda>c. c \<noteq> passwordCol) (map fst schema)))
                                         else do { n \<leftarrow> QueryInt env (physical_probe tableName) [];
                                                   (if (case n of Inr k \<Rightarrow> k = 0 | Inl _ \<Rightarrow> True)
                                                    then rejected (''table '' @ quote tableName @
                                                      '' is registered but does not exist as a physical table '' @ em_dash @
                                                      '' recreate it with manage_schema'')
                                                    else store_auth env args passwordCol schema) }))
                               | _ \<Rightarrow> rejected (''could not load schema for table '' @ quote tableName) }) })"

definition auth_row :: "gval list \<Rightarrow> gval option" where
  "auth_row vs =
     (case vs of
        [GInt i, GStr path, GStr table, GStr u, GStr p, GStr cols, created] \<Rightarrow>
          Some (GObj [(''id'', GInt i), (''path'', GStr path), (''table_name'', GStr table), (''username_column'', GStr u),
            (''password_column'', GStr p), (''public_columns'', GStr cols), (''created_at'', created),
            (''routes'', auth_routes path)])
      | _ \<Rightarrow> None)"

definition listAuth :: "'db tool_env \<Rightarrow> jobj \<Rightarrow> ('db, tool_outcome) act" where
  "listAuth env args =
     list_rows env
       ''SELECT id, path, table_name, username_column, password_column, public_columns, created_at FROM auth_endpoints ORDER BY path''
       ''listing auth endpoints: '' auth_row"

definition deleteAuth :: "'db tool_env \<Rightarrow> jobj \<Rightarrow> ('db, tool_outcome) act" where
  "deleteAuth env args =
     delete_endpoint env ''DELETE FROM auth_endpoints WHERE path = ?'' ''deleting auth endpoint: ''
       ''auth endpoint not found'' ''delete_auth'' (get_str args ''path'')"

definition scan_text :: "'db tool_env \<Rightarrow> gval \<Rightarrow> string option" where
  \<comment> \<open>into a Go string: NULL is an error\<close>
  "scan_text env v =
     (case v of
        GStr s \<Rightarrow> Some s
      | GInt n \<Rightarrow> Some (show_int n)
      | GBool b \<Rightarrow> Some (if b then ''true'' else ''false'')
      | GNum q \<Rightarrow> enc_num (te_encoder env) q
      | GTime t \<Rightarrow> enc_time (te_encoder env) t
      | _ \<Rightarrow> None)"

definition verifyPassword :: "'db tool_env \<Rightarrow> (string \<Rightarrow> string \<Rightarrow> bool) \<Rightarrow> jobj \<Rightarrow> ('db, tool_outcome) act" where
  \<comment> \<open>the second argument: bcrypt's comparison of a hash with a password\<close>
  "verifyPassword env compare args =
     (let tableName = get_str args ''table_name''; password = get_str args ''password'';
          passwordCol = arg_default args ''password_column'' ''password'' in
      if tableName = [] \<or> password = [] then rejected ''table_name, id, and password are required''
      else (case sanitizedTableName tableName of
          Inl e \<Rightarrow> rejected e
        | Inr physicalName \<Rightarrow>
            (if \<not> valid_identifier passwordCol then rejected (''invalid column name: '' @ passwordCol)
             else do { r \<leftarrow> QueryOne env (''SELECT '' @ passwordCol @ '' FROM '' @ physicalName @ '' WHERE id = ?'')
                         [GInt (trunc_rat (get_num args ''id''))];
                       case (case r of Inr (Some [v]) \<Rightarrow> scan_text env v | _ \<Rightarrow> None) of
                         None \<Rightarrow> rejected ''row not found''
                       | Some h \<Rightarrow> answer (success (GObj [(''match'', GBool (CheckPassword compare password h))])) })))"

section \<open>Upload, stream and socket endpoints\<close>

definition upload_upsert :: string where
  "upload_upsert = upsert ''upload_endpoints'' 5 ''path''
     [''path'', ''allowed_types'', ''max_size_mb'', ''requires_auth'', ''table_name'']"

definition createUpload :: "'db tool_env \<Rightarrow> jobj \<Rightarrow> ('db, tool_outcome) act" where
  "createUpload env args =
     (let path = get_str args ''path''; types = arg_strings args ''allowed_types'' [''image/*'', ''application/pdf''];
          size = arg_positive args ''max_size_mb'' 5; auth = arg_bool args ''requires_auth'';
          tableName = get_str args ''table_name'' in
      if path = [] then rejected ''path is required''
      else do { r \<leftarrow> Exec env upload_upsert [GStr path, GStr (strings_json types), GInt size, GBool auth, GStr tableName];
                case r of
                  Inl e \<Rightarrow> raised (''creating upload endpoint: '' @ e)
                | Inr _ \<Rightarrow> answer (success (GObj [(''path'', GStr path), (''route'', GStr (''POST /api/'' @ path @ ''/upload'')),
                    (''allowed_types'', text_list types), (''max_size_mb'', GInt size), (''requires_auth'', GBool auth),
                    (''table_name'', GStr tableName)])) })"

definition stream_upsert :: string where
  "stream_upsert = upsert ''stream_endpoints'' 3 ''path'' [''path'', ''event_types'', ''requires_auth'']"

definition stream_usage :: "string \<Rightarrow> string" where
  "stream_usage path =
     ''const source = new EventSource('' @ squoted (''/api/'' @ path @ ''/stream'') @ ''); source.addEventListener('' @
     squoted ''data.insert'' @ '', (e) => { const data = JSON.parse(e.data); ... });''"

definition createStream :: "'db tool_env \<Rightarrow> jobj \<Rightarrow> ('db, tool_outcome) act" where
  "createStream env args =
     (let path = get_str args ''path'';
          types = arg_strings args ''event_types'' [''data.insert'', ''data.update'', ''data.delete''];
          auth = arg_bool args ''requires_auth'' in
      if path = [] then rejected ''path is required''
      else do { r \<leftarrow> Exec env stream_upsert [GStr path, GStr (strings_json types), GBool auth];
                case r of
                  Inl e \<Rightarrow> raised (''creating stream endpoint: '' @ e)
                | Inr _ \<Rightarrow> answer (success (GObj [(''path'', GStr path), (''route'', GStr (''GET /api/'' @ path @ ''/stream'')),
                    (''event_types'', text_list types), (''requires_auth'', GBool auth), (''usage'', GStr (stream_usage path))])) })"

definition ws_upsert :: string where
  "ws_upsert = upsert ''ws_endpoints'' 4 ''path'' [''path'', ''write_to_table'', ''room_column'', ''requires_auth'']"

definition createWebSocket :: "'db tool_env \<Rightarrow> (string \<Rightarrow> string) \<Rightarrow> jobj \<Rightarrow> ('db, tool_outcome) act" where
  \<comment> \<open>the second argument: the instructions for a path, a fixed text around it\<close>
  "createWebSocket env usage args =
     (let path = get_str args ''path''; table = get_str args ''write_to_table''; room = get_str args ''room_column'';
          auth = arg_bool args ''requires_auth'' in
      if path = [] then rejected ''path is required''
      else if table \<noteq> [] \<and> \<not> valid_identifier table then rejected (''invalid write_to_table name: '' @ table)
      else do { r \<leftarrow> Exec env ws_upsert [GStr path, GStr table, GStr room, GBool auth];
                case r of
                  Inl e \<Rightarrow> raised (''creating websocket endpoint: '' @ e)
                | Inr _ \<Rightarrow> answer (success (GObj ([(''path'', GStr path), (''route'', GStr (''GET /api/'' @ path @ ''/ws'')),
                    (''requires_auth'', GBool auth), (''usage'', GStr (usage path))] @
                    (if table = [] then [] else [(''write_to_table'', GStr table)]) @
                    (if room = [] then [] else [(''room_column'', GStr room)])))) })"

section \<open>OAuth providers\<close>

definition secret_upsert :: string where
  "secret_upsert = ''INSERT INTO secrets (name, value_encrypted) VALUES (?, ?) ON CONFLICT(name) DO UPDATE SET value_encrypted = excluded.value_encrypted, updated_at = CURRENT_TIMESTAMP''"

definition oauth_upsert :: string where
  "oauth_upsert = upsert ''oauth_providers'' 10 ''name''
     [''name'', ''display_name'', ''client_id'', ''client_secret_name'', ''authorize_url'', ''token_url'', ''userinfo_url'',
      ''scopes'', ''username_field'', ''auth_endpoint_path'']"

definition oauth_secret_name :: "string \<Rightarrow> string" where
  "oauth_secret_name provider = ''oauth_'' @ provider @ ''_secret''"

definition draw :: "'db tool_env \<Rightarrow> ('db, crypto) act" where
  "draw env = State (\<lambda>s. (te_crypto env (tw_draws s), s\<lparr>tw_draws := Suc (tw_draws s)\<rparr>))"

definition store_oauth :: "'db tool_env \<Rightarrow> jobj \<Rightarrow> string \<Rightarrow> ('db, tool_outcome) act" where
  "store_oauth env args encrypted =
     (let name = get_str args ''provider_name''; authPath = get_str args ''auth_path'';
          displayName = arg_default args ''display_name'' name in
      do { _ \<leftarrow> Exec env secret_upsert [GStr (oauth_secret_name name), GStr encrypted];
           r \<leftarrow> Exec env oauth_upsert (map GStr [name, displayName, get_str args ''client_id'', oauth_secret_name name,
                  get_str args ''authorize_url'', get_str args ''token_url'', get_str args ''userinfo_url'',
                  arg_default args ''scopes'' ''openid email profile'', arg_default args ''username_field'' ''email'', authPath]);
           case r of
             Inl e \<Rightarrow> raised (''creating OAuth provider: '' @ e)
           | Inr _ \<Rightarrow> answer (success (GObj [(''provider'', GStr name),
               (''routes'', text_list [''GET /api/'' @ authPath @ ''/oauth/'' @ name @ '' (redirect to provider)'',
                  ''GET /api/'' @ authPath @ ''/oauth/'' @ name @ ''/callback (automatic)'']),
               (''display_name'', GStr displayName), (''auth_path'', GStr authPath)])) })"

definition createOAuth :: "'db tool_env \<Rightarrow> jobj \<Rightarrow> ('db, tool_outcome) act" where
  "createOAuth env args =
     (if list_ex (\<lambda>k. get_str args k = []) [''provider_name'', ''client_id'', ''client_secret'', ''authorize_url'',
           ''token_url'', ''userinfo_url'', ''auth_path'']
      then rejected ''provider_name, client_id, client_secret, authorize_url, token_url, userinfo_url, and auth_path are required''
      else do { n \<leftarrow> QueryInt env ''SELECT COUNT(*) FROM auth_endpoints WHERE path = ?'' [GStr (get_str args ''auth_path'')];
                (if (case n of Inr k \<Rightarrow> k = 0 | Inl _ \<Rightarrow> True)
                 then rejected (''auth endpoint '' @ squoted (get_str args ''auth_path'') @ '' does not exist '' @ em_dash @
                   '' create it first with create_auth'')
                 else do { cr \<leftarrow> draw env;
                           case cr_aead cr of
                             None \<Rightarrow> rejected ''encryption not available''
                           | Some e \<Rightarrow>
                               (case Encrypt e (cr_nonce cr) (get_str args ''client_secret'') of
                                  Inl _ \<Rightarrow> rejected ''failed to encrypt client secret''
                                | Inr encrypted \<Rightarrow> store_oauth env args encrypted) }) })"

definition oauth_row :: "gval list \<Rightarrow> gval option" where
  "oauth_row vs =
     (case vs of
        [GInt i, GStr name, GStr display, GStr client, GStr auth, GStr _, GStr _, GStr scopes, GStr _, GStr path, enabled,
          GStr created] \<Rightarrow>
          map_option (\<lambda>b. GObj [(''id'', GInt i), (''name'', GStr name), (''display_name'', GStr display),
            (''client_id'', GStr client), (''authorize_url'', GStr auth), (''scopes'', GStr scopes), (''auth_path'', GStr path),
            (''is_enabled'', GBool b), (''created_at'', GStr created)]) (row_bool enabled)
      | _ \<Rightarrow> None)"

definition listOAuth :: "'db tool_env \<Rightarrow> jobj \<Rightarrow> ('db, tool_outcome) act" where
  "listOAuth env args =
     list_rows env
       ''SELECT id, name, display_name, client_id, authorize_url, token_url, userinfo_url, scopes, username_field, auth_endpoint_path, is_enabled, created_at FROM oauth_providers ORDER BY name''
       ''listing OAuth providers: '' oauth_row"

definition deleteOAuth :: "'db tool_env \<Rightarrow> jobj \<Rightarrow> ('db, tool_outcome) act" where
  "deleteOAuth env args =
     (let name = get_str args ''provider_name'' in
      if name = [] then rejected ''provider_name is required''
      else do { _ \<leftarrow> Exec env ''DELETE FROM secrets WHERE name = ?'' [GStr (oauth_secret_name name)];
                r \<leftarrow> Exec env ''DELETE FROM oauth_providers WHERE name = ?'' [GStr name];
                case r of
                  Inl e \<Rightarrow> raised (''deleting OAuth provider: '' @ e)
                | Inr (_, n) \<Rightarrow>
                    (if n = 0 then rejected (''OAuth provider '' @ squoted name @ '' not found'')
                     else answer (success (GObj [(''deleted'', GStr name)]))) })"

section \<open>The tool\<close>

definition EndpointsTool_routes ::
    "'db tool_env \<Rightarrow> (string \<Rightarrow> string) \<Rightarrow> (string \<Rightarrow> string \<Rightarrow> bool) \<Rightarrow> (string \<times> (jobj \<Rightarrow> ('db, tool_outcome) act)) list" where
  "EndpointsTool_routes env usage compare =
     [(''create_api'', createAPI env), (''list_api'', listAPI env), (''delete_api'', deleteAPI env),
      (''create_auth'', createAuth env), (''list_auth'', listAuth env), (''delete_auth'', deleteAuth env),
      (''create_upload'', createUpload env), (''create_stream'', createStream env),
      (''create_websocket'', createWebSocket env usage), (''verify_password'', verifyPassword env compare),
      (''create_oauth'', createOAuth env), (''list_oauth'', listOAuth env), (''delete_oauth'', deleteOAuth env)]"

definition EndpointsTool_Execute ::
    "'db tool_env \<Rightarrow> (string \<Rightarrow> string) \<Rightarrow> (string \<Rightarrow> string \<Rightarrow> bool) \<Rightarrow> 'db tool_world handler" where
  "EndpointsTool_Execute env usage compare =
     DispatchAction (map (map_prod id as_handler) (EndpointsTool_routes env usage compare)) None"

definition EndpointsTool_Summarize :: "(string \<Rightarrow> summaryResult option) \<Rightarrow> string \<Rightarrow> string" where
  "EndpointsTool_Summarize unmarshal result =
     (let (r, m, arr, ok) = parseSummaryResult unmarshal result in
      if \<not> ok then summarizeTruncate result 200
      else if \<not> SumSuccess r then summarizeError (SumError r)
      else (case arr of
              Some vs \<Rightarrow> summary_text (''Listed '' @ show_nat (length vs) @ '' endpoints'')
            | None \<Rightarrow>
                (let path = get_str (case m of Some d \<Rightarrow> d | None \<Rightarrow> []) ''path'' in
                 if path \<noteq> [] then summary_text (''Endpoint at /api/'' @ path) else summarizeTruncate result 300)))"

section \<open>What may be stored\<close>

text \<open>
  The typing of stored endpoints: the places of a row that the server pastes into SQL hold identifiers. It
  is what loading an authentication endpoint asks for again, and what the statements of its routes rest on.
\<close>

definition auth_values_ok :: "gval list \<Rightarrow> bool" where
  "auth_values_ok vs \<longleftrightarrow>
     (\<exists>t p u pw cols d r. vs = [GStr t, GStr p, GStr u, GStr pw, GStr cols, GStr d, GStr r] \<and> t \<noteq> [] \<and> p \<noteq> [] \<and> d \<noteq> [] \<and>
        valid_identifier u \<and> valid_identifier pw \<and> valid_identifier r \<and>
        (cols = ''[]'' \<or> (\<exists>cs. cols = strings_json cs \<and> list_all valid_identifier cs)))"

definition endpoint_statement :: "(string \<Rightarrow> bool) \<Rightarrow> string \<times> gval list \<Rightarrow> bool" where
  \<comment> \<open>the argument: which texts are encryptions of the client secret\<close>
  "endpoint_statement enc s \<longleftrightarrow>
     (fst s = auth_upsert \<longrightarrow> auth_values_ok (snd s)) \<and>
     (fst s = secret_upsert \<longrightarrow> (\<exists>n x. snd s = [GStr n, GStr x] \<and> enc x))"

lemma public_identifiers_ok: "public_identifiers vs = Inr cs \<Longrightarrow> list_all valid_identifier cs"
  by (induction vs arbitrary: cs) (auto split: jval.splits if_splits sum.splits)

lemma arg_public_ok: "arg_public args = Inr t \<Longrightarrow> t = ''[]'' \<or> (\<exists>cs. t = strings_json cs \<and> list_all valid_identifier cs)"
  by (auto simp: arg_public_def map_sum_Inr dest: public_identifiers_ok split: if_splits)

lemma other_statement:
  "take 23 (fst s) \<noteq> take 23 auth_upsert \<Longrightarrow> take 19 (fst s) \<noteq> take 19 secret_upsert \<Longrightarrow> endpoint_statement enc s"
  by (auto simp: endpoint_statement_def)

lemma upserts_differ:
  "take 23 auth_upsert = ''INSERT INTO auth_endpoi''" "take 19 secret_upsert = ''INSERT INTO secrets''"
  "auth_upsert \<noteq> secret_upsert" "secret_upsert \<noteq> auth_upsert"
  by code_simp+

lemma statements_other [simp]:
  "endpoint_statement enc (registered_query, as)" "endpoint_statement enc (api_upsert, as)"
  "endpoint_statement enc (secure_query, as)" "endpoint_statement enc (schema_query, as)"
  "endpoint_statement enc (upload_upsert, as)" "endpoint_statement enc (stream_upsert, as)"
  "endpoint_statement enc (ws_upsert, as)" "endpoint_statement enc (oauth_upsert, as)"
  "endpoint_statement enc (physical_probe t, as)" "endpoint_statement enc (add_role_statement t c, as)"
  by (rule other_statement; simp add: upserts_differ registered_query_def api_upsert_def secure_query_def schema_query_def
      upload_upsert_def stream_upsert_def ws_upsert_def oauth_upsert_def physical_probe_def add_role_statement_def upsert_def)+

lemma literal_other [simp, intro]:
  "endpoint_statement enc (CHR ''S'' # q, as)" "endpoint_statement enc (CHR ''D'' # q, as)"
  "endpoint_statement enc (CHR ''U'' # q, as)"
  by (rule other_statement; simp add: upserts_differ)+

lemma sends_draw [sends_rules]: "sends P (draw env)"
  by (simp add: sends_def draw_def)

lemma sends_list_rows: "P (q, []) \<Longrightarrow> sends P (list_rows env q what f)"
  unfolding list_rows_def by (intro sends_rules sends_QueryRows)

lemma sends_delete_endpoint: "P (q, [GStr path]) \<Longrightarrow> sends P (delete_endpoint env q what missing action path)"
  unfolding delete_endpoint_def by (intro sends_rules sends_Exec)

lemma arg_default_set: "d \<noteq> [] \<Longrightarrow> arg_default args k d \<noteq> []"
  by (simp add: arg_default_def)

lemma sends_store_auth:
  assumes "get_str args ''table_name'' \<noteq> []" "get_str args ''path'' \<noteq> []" "valid_identifier (get_str args ''username_column'')"
    "valid_identifier pw"
  shows "sends (endpoint_statement enc) (store_auth env args pw schema)"
proof -
  have role: "valid_identifier ''role''" by code_simp
  have ok: "endpoint_statement enc (auth_upsert, [GStr (get_str args ''table_name''), GStr (get_str args ''path''),
      GStr (get_str args ''username_column''), GStr pw, GStr cols, GStr (arg_default args ''default_role'' ''user''),
      GStr (arg_default args ''role_column'' ''role'')])"
    if "arg_public args = Inr cols" "get_str args ''role_column'' = [] \<or> valid_identifier (arg_default args ''role_column'' ''role'')"
    for cols
  proof -
    have "valid_identifier (arg_default args ''role_column'' ''role'')"
      using that(2) role by (auto simp: arg_default_def)
    with assms arg_public_ok [OF that(1)] show ?thesis
      by (simp add: endpoint_statement_def auth_values_ok_def upserts_differ arg_default_set)
  qed
  show ?thesis
    unfolding store_auth_def ensure_role_def Let_def
    by (intro sends_rules sends_Exec ok) auto
qed

lemma sends_createAuth: "sends (endpoint_statement enc) (createAuth env args)"
proof -
  have "sends (endpoint_statement enc) (loadSecureColumns env t)" for t
    unfolding loadSecureColumns_def by (intro sends_rules sends_QueryOne statements_other)
  then show ?thesis
    unfolding createAuth_def Let_def
    by (auto intro!: sends_rules sends_QueryOne sends_QueryInt sends_store_auth split: gval.split list.split option.split sum.split)
qed

definition client_secret_encrypted :: "'db tool_env \<Rightarrow> jobj \<Rightarrow> string \<Rightarrow> bool" where
  "client_secret_encrypted env args x \<longleftrightarrow>
     (\<exists>n e. cr_aead (te_crypto env n) = Some e \<and> Encrypt e (cr_nonce (te_crypto env n)) (get_str args ''client_secret'') = Inr x)"

lemma sends_createOAuth: "sends (endpoint_statement (client_secret_encrypted env args)) (createOAuth env args)"
proof -
  have "sends (endpoint_statement (client_secret_encrypted env args)) (store_oauth env args x)"
    if "client_secret_encrypted env args x" for x
    unfolding store_oauth_def Let_def
    using that by (intro sends_rules sends_Exec statements_other) (simp add: endpoint_statement_def upserts_differ)
  moreover have "cr \<in> outcomes (draw env) \<Longrightarrow> cr_aead cr = Some e \<Longrightarrow>
      Encrypt e (cr_nonce cr) (get_str args ''client_secret'') = Inr x \<Longrightarrow> client_secret_encrypted env args x" for cr e x
    by (auto simp: outcomes_def draw_def client_secret_encrypted_def)
  ultimately show ?thesis
    unfolding createOAuth_def
    by (auto intro!: sends_rules sends_QueryInt)
qed

lemma endpoints_tool_sends:
  assumes "(name, m) \<in> set (EndpointsTool_routes env usage compare)"
  shows "sends (endpoint_statement (client_secret_encrypted env args)) (m args)"
proof -
  let ?P = "endpoint_statement (client_secret_encrypted env args)"
  note unfolded = createAPI_def createUpload_def createStream_def createWebSocket_def verifyPassword_def deleteOAuth_def Let_def
  have "sends ?P (createAPI env args)" "sends ?P (createUpload env args)" "sends ?P (createStream env args)"
    "sends ?P (createWebSocket env usage args)" "sends ?P (deleteOAuth env args)" "sends ?P (verifyPassword env compare args)"
    unfolding unfolded by (auto intro!: sends_rules sends_Exec sends_QueryInt sends_QueryOne)
  moreover have "sends ?P (listAPI env args)" "sends ?P (listAuth env args)" "sends ?P (listOAuth env args)"
    unfolding listAPI_def listAuth_def listOAuth_def by (auto intro!: sends_list_rows)
  moreover have "sends ?P (deleteAPI env args)" "sends ?P (deleteAuth env args)"
    unfolding deleteAPI_def deleteAuth_def by (auto intro!: sends_delete_endpoint)
  ultimately show ?thesis
    using assms sends_createAuth sends_createOAuth by (auto simp: EndpointsTool_routes_def)
qed

text \<open>
  C22. Whatever the model asks for, an authentication endpoint is stored only with a path and a table, with
  identifiers as user name, password, role and public columns; and a client secret is stored only as an
  encryption of the one that was given.
\<close>
theorem stored_endpoints_typed:
  "\<exists>new. tw_sent (snd (snd (EndpointsTool_Execute env usage compare w args))) = tw_sent w @ new \<and>
     list_all (endpoint_statement (client_secret_encrypted env args)) new"
  unfolding EndpointsTool_Execute_def
proof (rule dispatch_elim [where Q = "\<lambda>_ w'. \<exists>new. tw_sent w' = tw_sent w @ new \<and>
    list_all (endpoint_statement (client_secret_encrypted env args)) new"], simp)
  fix name m args'
  assume m: "(name, m) \<in> set (EndpointsTool_routes env usage compare)" and same: "\<And>k. k \<noteq> ''action'' \<Longrightarrow> map_of args' k = map_of args k"
  have "client_secret_encrypted env args' = client_secret_encrypted env args"
    by (simp add: client_secret_encrypted_def fun_eq_iff get_str_def same)
  with sendsD [OF endpoints_tool_sends [OF m, of args'], of w]
  show "\<exists>new. tw_sent (snd (run_state (m args') w)) = tw_sent w @ new \<and>
      list_all (endpoint_statement (client_secret_encrypted env args)) new" by simp
qed

end
