(* ===== verification/Auth.thy ===== *)
theory Auth
  imports Endpoints
begin

text \<open>
  The accounts of a site's visitors, \<^verbatim>\<open>server/public/auth.go\<close>: registration, login, the own profile and the
  login with an OAuth provider. The statements run on the database of the public API; bcrypt, HMAC, the
  token library and the exchanges with the provider are arguments. Shown: registration cannot choose a
  role and stores the password hashed, a token is issued only for a verified password, a provider's answer
  is used only for a state this server has signed, and the endpoints the tool accepts can be loaded.
\<close>

section \<open>Configuration\<close>

record authEndpointConfig =
  AeTable :: string
  AePath :: string
  UsernameColumn :: string
  PasswordColumn :: string
  AePublic :: "string list"
  JWTExpiryHours :: int
  DefaultRole :: string
  RoleColumn :: string

record 'db auth_env =
  au_api :: "'db api_env"
  au_now :: int
  au_compare :: "string \<Rightarrow> string \<Rightarrow> bool"
  au_random :: "string option"
  au_hmac :: "string \<Rightarrow> string \<Rightarrow> string"
  au_tls :: bool
  au_domain :: "string option"
  au_post :: "string \<Rightarrow> string \<Rightarrow> string + (nat \<times> string)"
  au_get :: "string \<Rightarrow> string \<Rightarrow> string + (nat \<times> string)"
  au_token :: "string \<Rightarrow> string option"
  au_info :: "string \<Rightarrow> (string \<times> gval) list option"

abbreviation au_db :: "'db auth_env \<Rightarrow> 'db sqlite" where "au_db env \<equiv> env_db (au_api env)"
abbreviation au_site :: "'db auth_env \<Rightarrow> int" where "au_site env \<equiv> env_site (au_api env)"

definition auth_query :: string where
  "auth_query = ''SELECT id, table_name, path, username_column, password_column, public_columns, jwt_expiry_hours, default_role, role_column FROM auth_endpoints WHERE path = ?''"

definition scan_auth :: "(string \<Rightarrow> string list) \<Rightarrow> gval list \<Rightarrow> authEndpointConfig option" where
  "scan_auth strings vs =
     (case vs of
        [GInt _, GStr t, GStr p, GStr u, GStr pw, GStr cols, GInt hours, GStr d, GStr rc] \<Rightarrow>
          Some \<lparr>AeTable = t, AePath = p, UsernameColumn = u, PasswordColumn = pw, AePublic = strings cols,
                JWTExpiryHours = (if hours = 0 then 24 else hours), DefaultRole = (if d = [] then ''user'' else d),
                RoleColumn = (if rc = [] then ''role'' else rc)\<rparr>
      | _ \<Rightarrow> None)"

definition loadAuthEndpoint :: "'db auth_env \<Rightarrow> 'db \<Rightarrow> string \<Rightarrow> authEndpointConfig option" where
  \<comment> \<open>every error means that the path is no authentication endpoint\<close>
  "loadAuthEndpoint env db path =
     (case first_row (au_db env) db auth_query [GStr path] of
        None \<Rightarrow> None
      | Some r \<Rightarrow>
          (case scan_auth (env_strings (au_api env)) r of
             None \<Rightarrow> None
           | Some ae \<Rightarrow>
               if ValidateColumnName (UsernameColumn ae) \<noteq> None \<or> ValidateColumnName (PasswordColumn ae) \<noteq> None \<or>
                  ValidateColumnNames (AePublic ae) \<noteq> None \<or> ValidateColumnName (RoleColumn ae) \<noteq> None
               then None else Some ae))"

section \<open>Tokens\<close>

definition generateUserToken :: "'db auth_env \<Rightarrow> int \<Rightarrow> string \<Rightarrow> string \<Rightarrow> string + string" where
  "generateUserToken env userID username role =
     (case env_jwt (au_api env) of
        None \<Rightarrow> Inl ''JWT manager not configured''
      | Some (lib, j) \<Rightarrow> GenerateForSite lib j (au_now env) (au_site env) userID username role)"

definition extractUserClaims :: "'db auth_env \<Rightarrow> request \<Rightarrow> string + Claims" where
  "extractUserClaims env r =
     (case env_jwt (au_api env) of
        None \<Rightarrow> Inl ''JWT manager not configured''
      | Some (lib, j) \<Rightarrow>
          (let h = Header r ''Authorization''; token = trim_prefix ''Bearer '' h in
           if h = [] then Inl ''no authorization header''
           else if token = h then Inl ''invalid authorization format''
           else ValidateToken lib j token))"

definition validateSiteTokenOrJWT :: "'db auth_env \<Rightarrow> string \<Rightarrow> bool" where
  "validateSiteTokenOrJWT env token \<longleftrightarrow>
     token \<noteq> [] \<and>
     (validateSiteToken (au_api env) token \<or>
      (case env_jwt (au_api env) of
         None \<Rightarrow> False
       | Some (lib, j) \<Rightarrow> (case ValidateToken lib j token of Inr c \<Rightarrow> ClaimSiteID c = au_site env | Inl _ \<Rightarrow> False)))"

definition token_response :: "nat \<Rightarrow> int \<Rightarrow> string \<Rightarrow> response" where
  "token_response status userID token =
     json_response status (GObj [(''success'', GBool True), (''user_id'', GInt userID), (''token'', GStr token)])"

definition body_field :: "(string \<times> gval) list \<Rightarrow> string \<Rightarrow> string" where
  \<comment> \<open>empty when the field is absent or no string\<close>
  "body_field b k = (case map_of b k of Some (GStr s) \<Rightarrow> s | _ \<Rightarrow> [])"

definition credentials :: "'db auth_env \<Rightarrow> authEndpointConfig \<Rightarrow> request \<Rightarrow> response + ((string \<times> gval) list \<times> string \<times> string)" where
  \<comment> \<open>the body with its user name and password\<close>
  "credentials env ae r =
     (case env_body (au_api env) (ReqBody r) of
        None \<Rightarrow> Inl (error_response 400 ''invalid JSON body'')
      | Some b \<Rightarrow>
          if body_field b (UsernameColumn ae) = [] then Inl (error_response 400 (UsernameColumn ae @ '' is required''))
          else if body_field b (PasswordColumn ae) = [] then Inl (error_response 400 (PasswordColumn ae @ '' is required''))
          else Inr (b, body_field b (UsernameColumn ae), body_field b (PasswordColumn ae)))"

section \<open>Registration\<close>

definition existing_statement :: "authEndpointConfig \<Rightarrow> string" where
  "existing_statement ae = ''SELECT id FROM '' @ AeTable ae @ '' WHERE '' @ UsernameColumn ae @ '' = ?''"

definition pragma_name :: "gval list \<Rightarrow> string" where
  \<comment> \<open>the error of the scan is ignored\<close>
  "pragma_name vs = (case vs of GInt _ # GStr n # _ \<Rightarrow> n | _ \<Rightarrow> [])"

definition registration_fields ::
    "'db auth_env \<Rightarrow> 'db \<Rightarrow> authEndpointConfig \<Rightarrow> (string \<times> gval) list \<Rightarrow> response + (string \<times> gval) list" where
  \<comment> \<open>the fields that are columns; without the list of columns all fields\<close>
  "registration_fields env db ae b =
     (case db_query (au_db env) db (''PRAGMA table_info('' @ AeTable ae @ '')'') [] of
        Inl _ \<Rightarrow> Inr b
      | Inr (_, rs) \<Rightarrow>
          (let cols = map pragma_name rs in
           if cols = [] then Inl (error_response 500 (''registration failed: table '' @ quote (AeTable ae) @ '' does not exist''))
           else if UsernameColumn ae \<notin> set cols \<or> PasswordColumn ae \<notin> set cols
           then Inl (error_response 500 (''auth config mismatch: table '' @ quote (AeTable ae) @ '' is missing column '' @
             quote (UsernameColumn ae) @ '' or '' @ quote (PasswordColumn ae)))
           else Inr (filter (\<lambda>(c, _). c \<in> set cols) b)))"

definition registration_statement :: "authEndpointConfig \<Rightarrow> (string \<times> gval) list \<Rightarrow> string \<times> gval list" where
  "registration_statement ae b =
     (''INSERT INTO '' @ AeTable ae @ '' ('' @ join '', '' (map fst b) @ '') VALUES ('' @
        join '', '' (map (\<lambda>_. ''?'') b) @ '')'', map snd b)"

definition prepared_body :: "authEndpointConfig \<Rightarrow> string \<Rightarrow> (string \<times> gval) list \<Rightarrow> (string \<times> gval) list" where
  \<comment> \<open>the hash instead of the password, the default role, no identifier\<close>
  "prepared_body ae hash b =
     AList.delete ''id'' (AList.update (RoleColumn ae) (GStr (DefaultRole ae)) (AList.update (PasswordColumn ae) (GStr hash) b))"

definition authRegister :: "'db auth_env \<Rightarrow> 'db \<Rightarrow> authEndpointConfig \<Rightarrow> request \<Rightarrow> response \<times> 'db" where
  "authRegister env db ae r =
     (case credentials env ae r of
        Inl resp \<Rightarrow> (resp, db)
      | Inr (b, username, password) \<Rightarrow>
          (if (case first_row (au_db env) db (existing_statement ae) [GStr username] of Some [GInt _] \<Rightarrow> True | _ \<Rightarrow> False)
           then (error_response 409 (''user with this '' @ UsernameColumn ae @ '' already exists''), db)
           else (case HashPassword (cr_bcrypt (env_crypto (au_api env))) password of
               Inl _ \<Rightarrow> (error_response 500 ''failed to hash password'', db)
             | Inr hash \<Rightarrow>
                 (case registration_fields env db ae (prepared_body ae hash b) of
                    Inl resp \<Rightarrow> (resp, db)
                  | Inr fs \<Rightarrow>
                      (case first_bad_field fs of
                         Some col \<Rightarrow> (error_response 400 (''invalid field name: '' @ col), db)
                       | None \<Rightarrow>
                           if fs = []
                           then (error_response 500 (''no valid columns for registration '' @ em_dash @ '' table='' @
                             quote (AeTable ae) @ '', username_col='' @ quote (UsernameColumn ae) @ '', password_col='' @
                             quote (PasswordColumn ae) @ '', role_col='' @ quote (RoleColumn ae)), db)
                           else (let (q, args) = registration_statement ae fs in
                             case db_exec (au_db env) db q args of
                               (Inl e, db') \<Rightarrow> (error_response 400 (''registration failed: '' @ e), db')
                             | (Inr (userID, _), db') \<Rightarrow>
                                 (case generateUserToken env userID username (DefaultRole ae) of
                                    Inl _ \<Rightarrow> (error_response 500 ''failed to generate token'', db')
                                  | Inr token \<Rightarrow> (token_response 201 userID token, db'))))))))"

section \<open>Login and profile\<close>

definition query_one :: "'db sqlite \<Rightarrow> 'db \<Rightarrow> string \<Rightarrow> gval list \<Rightarrow> string + gval list option" where
  "query_one lib db q args =
     (case db_query lib db q args of
        Inl e \<Rightarrow> Inl e
      | Inr (_, []) \<Rightarrow> Inr None
      | Inr (_, v # _) \<Rightarrow> Inr (Some v))"

definition login_statement :: "authEndpointConfig \<Rightarrow> bool \<Rightarrow> string" where
  \<comment> \<open>with or without the role\<close>
  "login_statement ae role =
     ''SELECT id, '' @ PasswordColumn ae @ (if role then '', '' @ RoleColumn ae else []) @ '' FROM '' @ AeTable ae @
     '' WHERE '' @ UsernameColumn ae @ '' = ?''"

definition stored_user :: "'db auth_env \<Rightarrow> 'db \<Rightarrow> authEndpointConfig \<Rightarrow> string \<Rightarrow> (int \<times> string \<times> string) option" where
  \<comment> \<open>identifier, hash and role\<close>
  "stored_user env db ae username =
     (case query_one (au_db env) db (login_statement ae True) [GStr username] of
        Inr (Some [GInt i, GStr h, role]) \<Rightarrow> map_option (\<lambda>rl. (i, h, rl)) (null_string role)
      | Inl e \<Rightarrow>
          (if contains e ''no such column''
           then (case query_one (au_db env) db (login_statement ae False) [GStr username] of
                   Inr (Some [GInt i, GStr h]) \<Rightarrow> Some (i, h, DefaultRole ae)
                 | _ \<Rightarrow> None)
           else None)
      | _ \<Rightarrow> None)"

definition authLogin :: "'db auth_env \<Rightarrow> 'db \<Rightarrow> authEndpointConfig \<Rightarrow> request \<Rightarrow> response" where
  "authLogin env db ae r =
     (case credentials env ae r of
        Inl resp \<Rightarrow> resp
      | Inr (_, username, password) \<Rightarrow>
          (case stored_user env db ae username of
             None \<Rightarrow> error_response 401 ''invalid credentials''
           | Some (userID, hash, role) \<Rightarrow>
               (if \<not> CheckPassword (au_compare env) password hash then error_response 401 ''invalid credentials''
                else (case generateUserToken env userID username (if role = [] then DefaultRole ae else role) of
                        Inl _ \<Rightarrow> error_response 500 ''failed to generate token''
                      | Inr token \<Rightarrow> token_response 200 userID token))))"

definition me_statement :: "authEndpointConfig \<Rightarrow> string" where
  "me_statement ae =
     ''SELECT '' @ (if AePublic ae \<noteq> [] then join '', '' (AePublic ae) else ''id, '' @ UsernameColumn ae) @
     '' FROM '' @ AeTable ae @ '' WHERE id = ?''"

definition authMe :: "'db auth_env \<Rightarrow> 'db \<Rightarrow> authEndpointConfig \<Rightarrow> request \<Rightarrow> response" where
  "authMe env db ae r =
     (case extractUserClaims env r of
        Inl _ \<Rightarrow> error_response 401 ''unauthorized''
      | Inr c \<Rightarrow>
          (if ClaimSiteID c \<noteq> au_site env then error_response 401 ''unauthorized''
           else (case db_query (au_db env) db (me_statement ae) [GInt (UserID c)] of
               Inl _ \<Rightarrow> error_response 500 ''query error''
             | Inr rs \<Rightarrow>
                 (case scanRowsToMaps rs of
                    [] \<Rightarrow> error_response 404 ''user not found''
                  | m # _ \<Rightarrow> json_response 200 (GObj m)))))"

section \<open>Login with a provider\<close>

record oauthProviderConfig =
  OpName :: string
  ClientID :: string
  ClientSecretName :: string
  AuthorizeURL :: string
  TokenURL :: string
  UserinfoURL :: string
  Scopes :: string
  UsernameField :: string

definition provider_query :: string where
  "provider_query = ''SELECT id, name, display_name, client_id, client_secret_name, authorize_url, token_url, userinfo_url, scopes, username_field, auth_endpoint_path FROM oauth_providers WHERE name = ? AND auth_endpoint_path = ? AND is_enabled = 1''"

definition loadOAuthProvider :: "'db sqlite \<Rightarrow> 'db \<Rightarrow> string \<Rightarrow> string \<Rightarrow> oauthProviderConfig option" where
  "loadOAuthProvider lib db providerName authPath =
     (case first_row lib db provider_query [GStr providerName, GStr authPath] of
        Some [GInt _, GStr n, GStr _, GStr ci, GStr sn, GStr au, GStr tu, GStr uu, GStr sc, GStr uf, GStr _] \<Rightarrow>
          Some \<lparr>OpName = n, ClientID = ci, ClientSecretName = sn, AuthorizeURL = au, TokenURL = tu,
                UserinfoURL = uu, Scopes = sc, UsernameField = uf\<rparr>
      | _ \<Rightarrow> None)"

definition upper_hex :: "nat \<Rightarrow> char" where
  "upper_hex n = char_of (if n < 10 then 48 + n else 55 + n)"

definition hex_encode :: "string \<Rightarrow> string" where
  \<comment> \<open>\<^verbatim>\<open>hex.EncodeToString\<close>\<close>
  "hex_encode s = concat (map (\<lambda>c. [hex_digit (of_char c div 16), hex_digit (of_char c mod 16)]) s)"

definition query_escape :: "string \<Rightarrow> string" where
  \<comment> \<open>\<^verbatim>\<open>url.QueryEscape\<close>\<close>
  "query_escape s = concat (map (\<lambda>c.
     if is_letter c \<or> is_digit c \<or> c \<in> set ''-_.~'' then [c]
     else if c = CHR '' '' then ''+''
     else [CHR ''%'', upper_hex (of_char c div 16), upper_hex (of_char c mod 16)]) s)"

fun query_unescape :: "string \<Rightarrow> string option" where
  \<comment> \<open>\<^verbatim>\<open>url.QueryUnescape\<close>\<close>
  "query_unescape [] = Some []"
| "query_unescape (c # s) =
     (if c = CHR ''%'' then
        (case s of
           a # b # t \<Rightarrow>
             (case (hex_val a, hex_val b, query_unescape t) of
                (Some i, Some j, Some u) \<Rightarrow> Some (char_of (16 * i + j) # u)
              | _ \<Rightarrow> None)
         | _ \<Rightarrow> None)
      else map_option ((#) (if c = CHR ''+'' then CHR '' '' else c)) (query_unescape s))"

definition form_encode :: "(string \<times> string) list \<Rightarrow> string" where
  \<comment> \<open>\<^verbatim>\<open>url.Values.Encode\<close> of pairs in the order of their keys\<close>
  "form_encode kvs = join ''&'' (map (\<lambda>(k, v). query_escape k @ ''='' @ query_escape v) kvs)"

definition form_pair :: "string \<Rightarrow> (string \<times> string) option" where
  "form_pair piece =
     (if piece = [] \<or> CHR '';'' \<in> set piece then None
      else (let (k, v) = (case cut ''='' piece of Some kv \<Rightarrow> kv | None \<Rightarrow> (piece, []))
            in case (query_unescape k, query_unescape v) of
                 (Some k', Some v') \<Rightarrow> Some (k', v')
               | _ \<Rightarrow> None))"

definition form_value :: "string \<Rightarrow> string \<Rightarrow> string" where
  \<comment> \<open>\<^verbatim>\<open>url.ParseQuery\<close>, which skips what it cannot decode, and \<^verbatim>\<open>Get\<close>\<close>
  "form_value txt key =
     (case map_of (List.map_filter form_pair (split_on CHR ''&'' txt)) key of Some v \<Rightarrow> v | None \<Rightarrow> [])"

definition state_cookie :: "string \<Rightarrow> authEndpointConfig \<Rightarrow> string \<Rightarrow> string \<times> string" where
  \<comment> \<open>\<^verbatim>\<open>http.SetCookie\<close>; the path loses the bytes a cookie cannot hold\<close>
  "state_cookie value ae attributes =
     (''Set-Cookie'', ''oauth_state='' @ value @ ''; Path='' @
        filter (\<lambda>c. 32 \<le> (of_char c :: nat) \<and> of_char c < (127::nat) \<and> c \<noteq> CHR '';'') (''/api/'' @ AePath ae @ ''/oauth/'') @
        attributes)"

definition redirect_response :: "string \<Rightarrow> response" where
  \<comment> \<open>of an address with a scheme, or of one with a leading slash and a fragment\<close>
  "redirect_response location = \<lparr>Status = 302, RespHeaders = [(''Location'', location)], RespBody = GNil\<rparr>"

definition aborted :: response where
  \<comment> \<open>a handler that panics answers nothing\<close>
  "aborted = \<lparr>Status = 0, RespHeaders = [], RespBody = GNil\<rparr>"

definition oauthRedirectURI :: "'db auth_env \<Rightarrow> request \<Rightarrow> string \<Rightarrow> string \<Rightarrow> string" where
  "oauthRedirectURI env r authPath provider =
     (if au_tls env then ''https'' else ''http'') @ ''://'' @
     (case au_domain env of Some (c # cs) \<Rightarrow> c # cs | _ \<Rightarrow> ReqHost r) @
     ''/api/'' @ authPath @ ''/oauth/'' @ provider @ ''/callback''"

definition sign_state :: "'db auth_env \<Rightarrow> string \<Rightarrow> string option" where
  \<comment> \<open>the signature of the random bytes; without a token manager the call panics\<close>
  "sign_state env bytes = map_option (\<lambda>(_, j). hex_encode (au_hmac env (jwt_secret j) bytes)) (env_jwt (au_api env))"

definition oauthAuthorize :: "'db auth_env \<Rightarrow> 'db \<Rightarrow> authEndpointConfig \<Rightarrow> string \<Rightarrow> request \<Rightarrow> response" where
  "oauthAuthorize env db ae provider r =
     (case loadOAuthProvider (au_db env) db provider (AePath ae) of
        None \<Rightarrow> error_response 404 ''OAuth provider not configured''
      | Some op \<Rightarrow>
          (case au_random env of
             None \<Rightarrow> error_response 500 ''failed to generate state''
           | Some bytes \<Rightarrow>
               (case sign_state env bytes of
                  None \<Rightarrow> aborted
                | Some mac \<Rightarrow>
                    (let state' = hex_encode bytes @ ''.'' @ mac;
                         resp = redirect_response (AuthorizeURL op @ ''?client_id='' @ query_escape (ClientID op) @
                           ''&redirect_uri='' @ query_escape (oauthRedirectURI env r (AePath ae) provider) @
                           ''&response_type=code&scope='' @ query_escape (Scopes op) @ ''&state='' @ query_escape state')
                     in resp\<lparr>RespHeaders := state_cookie state' ae (''; Max-Age=600; HttpOnly'' @
                          (if au_tls env then ''; Secure'' else []) @ ''; SameSite=Lax'') # RespHeaders resp\<rparr>))))"

definition exchangeOAuthCode :: "'db auth_env \<Rightarrow> oauthProviderConfig \<Rightarrow> string \<Rightarrow> string \<Rightarrow> string \<Rightarrow> string + string" where
  \<comment> \<open>the access token; \<^verbatim>\<open>au_token\<close> decodes the answer, \<^term>\<open>None\<close> when it is not JSON\<close>
  "exchangeOAuthCode env op code redirectURI clientSecret =
     (case au_post env (TokenURL op)
             (form_encode [(''client_id'', ClientID op), (''client_secret'', clientSecret), (''code'', code),
                           (''grant_type'', ''authorization_code''), (''redirect_uri'', redirectURI)]) of
        Inl e \<Rightarrow> Inl e
      | Inr (status, txt) \<Rightarrow>
          (if status \<noteq> 200 then Inl (''token exchange failed (status '' @ show_nat status @ ''): '' @ txt)
           else (let token = (case au_token env txt of Some t \<Rightarrow> t | None \<Rightarrow> form_value txt ''access_token'')
                 in if token = [] then Inl ''no access_token in response'' else Inr token)))"

definition fetchOAuthUserInfo :: "'db auth_env \<Rightarrow> oauthProviderConfig \<Rightarrow> string \<Rightarrow> string + (string \<times> gval) list" where
  "fetchOAuthUserInfo env op accessToken =
     (case au_get env (UserinfoURL op) (''Bearer '' @ accessToken) of
        Inl e \<Rightarrow> Inl e
      | Inr (status, txt) \<Rightarrow>
          (if status \<noteq> 200 then Inl (''userinfo request failed (status '' @ show_nat status @ '')'')
           else (case au_info env txt of Some info \<Rightarrow> Inr info | None \<Rightarrow> Inl ''invalid userinfo JSON'')))"

definition check_state :: "'db auth_env \<Rightarrow> request \<Rightarrow> response + string" where
  \<comment> \<open>the random bytes of a state that equals the cookie and carries this server's signature\<close>
  "check_state env r =
     (case map_of (Cookies r) ''oauth_state'' of
        None \<Rightarrow> Inl (error_response 400 ''missing OAuth state cookie'')
      | Some cookie \<Rightarrow>
          (let queryState = query_get r ''state'' in
           if queryState = [] \<or> queryState \<noteq> cookie then Inl (error_response 400 ''invalid OAuth state'')
           else (case cut ''.'' queryState of
               None \<Rightarrow> Inl (error_response 400 ''malformed OAuth state'')
             | Some (a, b) \<Rightarrow>
                 (case hex_decode a of
                    None \<Rightarrow> Inl (error_response 400 ''invalid OAuth state encoding'')
                  | Some bytes \<Rightarrow>
                      (case sign_state env bytes of
                         None \<Rightarrow> Inl aborted
                       | Some mac \<Rightarrow>
                           if b = mac then Inr bytes else Inl (error_response 400 ''OAuth state verification failed''))))))"

definition client_secret :: "'db auth_env \<Rightarrow> 'db \<Rightarrow> oauthProviderConfig \<Rightarrow> response + string" where
  "client_secret env db op =
     (case first_row (au_db env) db ''SELECT value_encrypted FROM secrets WHERE name = ?'' [GStr (ClientSecretName op)] of
        Some [GStr encrypted] \<Rightarrow>
          (case cr_aead (env_crypto (au_api env)) of
             None \<Rightarrow> Inl (if b64_decode encrypted = None then error_response 500 ''failed to decrypt OAuth secret'' else aborted)
           | Some e \<Rightarrow>
               (case Decrypt e encrypted of
                  Inl _ \<Rightarrow> Inl (error_response 500 ''failed to decrypt OAuth secret'')
                | Inr secret \<Rightarrow> Inr secret))
      | _ \<Rightarrow> Inl (error_response 500 ''OAuth client secret not found''))"

definition provider_username :: "'db auth_env \<Rightarrow> 'db \<Rightarrow> authEndpointConfig \<Rightarrow> string \<Rightarrow> request \<Rightarrow> response + string" where
  \<comment> \<open>the name of the user the provider vouches for\<close>
  "provider_username env db ae provider r =
     (if query_get r ''error'' \<noteq> [] then Inl (error_response 400 (''OAuth error: '' @ query_get r ''error''))
      else if query_get r ''code'' = [] then Inl (error_response 400 ''missing authorization code'')
      else (case loadOAuthProvider (au_db env) db provider (AePath ae) of
          None \<Rightarrow> Inl (error_response 404 ''OAuth provider not configured'')
        | Some op \<Rightarrow>
            (case client_secret env db op of
               Inl resp \<Rightarrow> Inl resp
             | Inr secret \<Rightarrow>
                 (case exchangeOAuthCode env op (query_get r ''code'') (oauthRedirectURI env r (AePath ae) provider) secret of
                    Inl e \<Rightarrow> Inl (error_response 502 (''failed to exchange OAuth code: '' @ e))
                  | Inr token \<Rightarrow>
                      (case fetchOAuthUserInfo env op token of
                         Inl e \<Rightarrow> Inl (error_response 502 (''failed to fetch user info: '' @ e))
                       | Inr info \<Rightarrow>
                           if body_field info (UsernameField op) = []
                           then Inl (error_response 502 (''user info missing '' @ UsernameField op @ '' field''))
                           else Inr (body_field info (UsernameField op)))))))"

definition role_statement :: "authEndpointConfig \<Rightarrow> string" where
  "role_statement ae =
     ''SELECT id, '' @ RoleColumn ae @ '' FROM '' @ AeTable ae @ '' WHERE '' @ UsernameColumn ae @ '' = ?''"

definition oauth_insert_statement :: "authEndpointConfig \<Rightarrow> string" where
  "oauth_insert_statement ae =
     ''INSERT INTO '' @ AeTable ae @ '' ('' @ UsernameColumn ae @ '', '' @ PasswordColumn ae @ '', '' @ RoleColumn ae @
     '') VALUES (?, ?, ?)''"

definition oauth_user ::
    "'db auth_env \<Rightarrow> 'db \<Rightarrow> authEndpointConfig \<Rightarrow> string \<Rightarrow> string \<Rightarrow> (response + (int \<times> string)) \<times> 'db" where
  \<comment> \<open>the user of that name and its role, created when there is none; the error of hashing is ignored\<close>
  "oauth_user env db ae bytes username =
     (case query_one (au_db env) db (role_statement ae) [GStr username] of
        Inr None \<Rightarrow>
          (let hash = (case HashPassword (cr_bcrypt (env_crypto (au_api env))) (hex_encode bytes @ ''!oauth-no-password-login'') of
                         Inr h \<Rightarrow> h | Inl _ \<Rightarrow> [])
           in case db_exec (au_db env) db (oauth_insert_statement ae) [GStr username, GStr hash, GStr (DefaultRole ae)] of
                (Inl _, db') \<Rightarrow> (Inl (error_response 500 ''failed to create user''), db')
              | (Inr (i, _), db') \<Rightarrow> (Inr (i, DefaultRole ae), db'))
      | Inr (Some [GInt i, role]) \<Rightarrow>
          (case null_string role of
             Some rl \<Rightarrow> (Inr (i, if rl = [] then DefaultRole ae else rl), db)
           | None \<Rightarrow> (Inl (error_response 500 ''database error''), db))
      | _ \<Rightarrow> (Inl (error_response 500 ''database error''), db))"

definition oauthCallback :: "'db auth_env \<Rightarrow> 'db \<Rightarrow> authEndpointConfig \<Rightarrow> string \<Rightarrow> request \<Rightarrow> response \<times> 'db" where
  "oauthCallback env db ae provider r =
     (case check_state env r of
        Inl resp \<Rightarrow> (resp, db)
      | Inr bytes \<Rightarrow>
          (let cleared = (\<lambda>resp. resp\<lparr>RespHeaders := state_cookie [] ae ''; Max-Age=0; HttpOnly'' # RespHeaders resp\<rparr>)
           in case provider_username env db ae provider r of
                Inl resp \<Rightarrow> (cleared resp, db)
              | Inr username \<Rightarrow>
                  (case oauth_user env db ae bytes username of
                     (Inl resp, db') \<Rightarrow> (cleared resp, db')
                   | (Inr (userID, role), db') \<Rightarrow>
                       (case generateUserToken env userID username role of
                          Inl _ \<Rightarrow> (cleared (error_response 500 ''failed to generate token''), db')
                        | Inr token \<Rightarrow> (cleared (redirect_response (''/#token='' @ query_escape token)), db')))))"

section \<open>Routing\<close>

definition auth_action ::
    "'db auth_env \<Rightarrow> 'db \<Rightarrow> authEndpointConfig \<Rightarrow> string \<Rightarrow> request \<Rightarrow> (response \<times> 'db) option" where
  "auth_action env db ae action r =
     (if action = ''register'' then
        Some (if ReqMethod r \<noteq> ''POST'' then (error_response 405 ''POST required'', db) else authRegister env db ae r)
      else if action = ''login'' then
        Some (if ReqMethod r \<noteq> ''POST'' then error_response 405 ''POST required'' else authLogin env db ae r, db)
      else if action = ''me'' then
        Some (if ReqMethod r \<noteq> ''GET'' then error_response 405 ''GET required'' else authMe env db ae r, db)
      else if has_prefix ''oauth/'' action then
        (case cut ''/'' (drop 6 action) of
           Some (provider, rest) \<Rightarrow>
             Some (if rest = ''callback'' then oauthCallback env db ae provider r else (oauthAuthorize env db ae provider r, db))
         | None \<Rightarrow> Some (oauthAuthorize env db ae (drop 6 action) r, db))
      else None)"

definition handleAuthRequest :: "'db auth_env \<Rightarrow> 'db \<Rightarrow> request \<Rightarrow> string \<Rightarrow> (response \<times> 'db) option" where
  \<comment> \<open>\<^term>\<open>None\<close>: left to the data routes\<close>
  "handleAuthRequest env db r fullPath =
     (case cut ''/'' fullPath of
        None \<Rightarrow> None
      | Some (authPath, action) \<Rightarrow>
          (case loadAuthEndpoint env db authPath of
             None \<Rightarrow> None
           | Some ae \<Rightarrow> auth_action env db ae action r))"

section \<open>What is sent to the provider can be read back\<close>

lemma hex_val_digit: "n < 16 \<Longrightarrow> hex_val (hex_digit n) = Some n"
  by (simp add: hex_val_def hex_digit_def)

lemma hex_val_upper: "n < 16 \<Longrightarrow> hex_val (upper_hex n) = Some n"
  by (simp add: hex_val_def upper_hex_def)

lemma hex_pair: "hex_val a = Some (of_char c div 16) \<Longrightarrow> hex_val b = Some (of_char c mod 16) \<Longrightarrow>
    (case (hex_val a, hex_val b) of (Some i, Some j) \<Rightarrow> Some (char_of (16 * i + j :: nat)) | _ \<Rightarrow> None) = Some (c :: char)"
  by simp

lemma halves: "of_char (c :: char) div 16 < (16 :: nat)" "of_char (c :: char) mod 16 < (16 :: nat)"
  by (simp_all add: less_mult_imp_div_less)

lemma hex_decode_encode [simp]: "hex_decode (hex_encode s) = Some s"
  using halves by (induction s) (auto simp: hex_encode_def hex_val_digit)

lemma hex_encode_chars: "x \<in> set (hex_encode s) \<Longrightarrow> is_letter x \<or> is_digit x"
proof -
  have "is_letter (hex_digit n) \<or> is_digit (hex_digit n)" if "n < 16" for n
    using that by (auto simp: hex_digit_def is_letter_def is_digit_def byte_in_def)
  then have "is_letter (hex_digit (of_char c div 16)) \<or> is_digit (hex_digit (of_char c div 16))"
    "is_letter (hex_digit (of_char c mod 16)) \<or> is_digit (hex_digit (of_char c mod 16))" for c :: char
    using halves by blast+
  then show "x \<in> set (hex_encode s) \<Longrightarrow> ?thesis" by (auto simp: hex_encode_def)
qed

lemma query_unescape_escape: "query_unescape (query_escape s) = Some s"
proof (induction s)
  case (Cons c s)
  have plus: "\<not> is_letter CHR ''+'' \<and> \<not> is_digit CHR ''+'' \<and> \<not> is_letter CHR ''%'' \<and> \<not> is_digit CHR ''%''" by code_simp
  have esc: "query_escape (c # s) =
      (if is_letter c \<or> is_digit c \<or> c \<in> set ''-_.~'' then [c] else if c = CHR '' '' then ''+''
       else [CHR ''%'', upper_hex (of_char c div 16), upper_hex (of_char c mod 16)]) @ query_escape s"
    by (simp add: query_escape_def)
  show ?case
  proof (cases "is_letter c \<or> is_digit c \<or> c \<in> set ''-_.~''")
    case True
    then have "c \<noteq> CHR ''%''" "c \<noteq> CHR ''+''" using plus by auto
    then show ?thesis using True Cons by (simp add: esc)
  next
    case False
    then show ?thesis using Cons halves [of c] by (simp add: esc hex_val_upper)
  qed
qed (simp add: query_escape_def)
lemma query_escape_chars: "x \<in> set (query_escape s) \<Longrightarrow> is_letter x \<or> is_digit x \<or> x \<in> set ''-_.~+%''"
proof -
  have "is_letter (upper_hex n) \<or> is_digit (upper_hex n)" if "n < 16" for n
    using that by (auto simp: upper_hex_def is_letter_def is_digit_def byte_in_def)
  then have "is_letter (upper_hex (of_char c div 16)) \<or> is_digit (upper_hex (of_char c div 16))"
    "is_letter (upper_hex (of_char c mod 16)) \<or> is_digit (upper_hex (of_char c mod 16))" for c :: char
    using halves by blast+
  then show "x \<in> set (query_escape s) \<Longrightarrow> ?thesis" by (auto simp: query_escape_def split: if_splits)
qed

lemma query_escape_separators: "CHR ''&'' \<notin> set (query_escape s)" "CHR ''='' \<notin> set (query_escape s)" "CHR '';'' \<notin> set (query_escape s)"
proof -
  have "\<not> (is_letter x \<or> is_digit x \<or> x \<in> set ''-_.~+%'')" if "x \<in> set ''&=;''" for x
  proof -
    have "list_all (\<lambda>x. \<not> (is_letter x \<or> is_digit x \<or> x \<in> set ''-_.~+%'')) ''&=;''" by code_simp
    with that show ?thesis by (fastforce simp: list_all_iff)
  qed
  then show "CHR ''&'' \<notin> set (query_escape s)" "CHR ''='' \<notin> set (query_escape s)" "CHR '';'' \<notin> set (query_escape s)"
    using query_escape_chars by fastforce+
qed

lemma form_pair_escaped: "form_pair (query_escape k @ ''='' @ query_escape v) = Some (k, v)"
  using query_escape_separators cut_append_fresh [of "CHR ''=''" "query_escape k" "query_escape v"]
  by (simp add: form_pair_def query_unescape_escape)

lemma form_value_encode:
  assumes "kvs \<noteq> []" "map_of kvs k = Some v"
  shows "form_value (form_encode kvs) k = v"
proof -
  have "split_on CHR ''&'' (form_encode kvs) = map (\<lambda>(k, v). query_escape k @ ''='' @ query_escape v) kvs"
    unfolding form_encode_def using assms(1) query_escape_separators
    by (intro split_on_join) (auto simp: list_all_iff)
  moreover have "List.map_filter form_pair (map (\<lambda>(k, v). query_escape k @ ''='' @ query_escape v) kvs) = kvs"
    by (induction kvs) (auto simp: List.map_filter_simps form_pair_escaped [simplified])
  ultimately show ?thesis using assms(2) by (simp add: form_value_def)
qed

lemma query_escape_plain:
  "query_escape ''client_id'' = ''client_id''" "query_escape ''redirect_uri'' = ''redirect_uri''"
  "query_escape ''response_type'' = ''response_type''" "query_escape ''code'' = ''code''"
  "query_escape ''scope'' = ''scope''" "query_escape ''state'' = ''state''"
  by code_simp+
lemma authorize_302:
  assumes "au_random env = Some bytes" "Status (oauthAuthorize env db ae provider r) = 302"
  obtains op mac where "loadOAuthProvider (au_db env) db provider (AePath ae) = Some op" "sign_state env bytes = Some mac"
    "RespHeaders (oauthAuthorize env db ae provider r) =
       [state_cookie (hex_encode bytes @ ''.'' @ mac) ae (''; Max-Age=600; HttpOnly'' @
          (if au_tls env then ''; Secure'' else []) @ ''; SameSite=Lax''),
        (''Location'', AuthorizeURL op @ ''?'' @ form_encode
          [(''client_id'', ClientID op), (''redirect_uri'', oauthRedirectURI env r (AePath ae) provider),
           (''response_type'', ''code''), (''scope'', Scopes op), (''state'', hex_encode bytes @ ''.'' @ mac)])]"
  using assms
  by (auto simp: oauthAuthorize_def Let_def error_response_def json_response_def aborted_def redirect_response_def
      form_encode_def query_escape_plain split: option.splits)

lemma check_state_signed:
  assumes "map_of (Cookies r) ''oauth_state'' = Some (hex_encode bytes @ ''.'' @ mac)"
    and "query_get r ''state'' = hex_encode bytes @ ''.'' @ mac" "sign_state env bytes = Some mac"
  shows "check_state env r = Inr bytes"
proof -
  have "\<not> (is_letter CHR ''.'' \<or> is_digit CHR ''.'')" by code_simp
  then have "CHR ''.'' \<notin> set (hex_encode bytes)" using hex_encode_chars by blast
  from cut_append_fresh [OF this, of mac] assms show ?thesis by (simp add: check_state_def Let_def)
qed


text \<open>
  A callback without a state that this server has signed, or whose cookie differs from it, is answered
  with an error (or panics without a token manager) and changes nothing, whatever the provider would have
  answered: the provider is not contacted, no user is created and no token is issued.
\<close>
theorem oauth_forged_state_refused:
  assumes "\<And>lib j bytes a. env_jwt (au_api env) = Some (lib, j) \<Longrightarrow> hex_decode a = Some bytes \<Longrightarrow>
      query_get r ''state'' = a @ ''.'' @ hex_encode (au_hmac env (jwt_secret j) bytes) \<Longrightarrow>
      map_of (Cookies r) ''oauth_state'' \<noteq> Some (query_get r ''state'')"
  shows "\<exists>resp. Status resp \<in> {0, 400} \<and>
    (\<forall>post get. oauthCallback (env\<lparr>au_post := post, au_get := get\<rparr>) db ae provider r = (resp, db))"
proof -
  have cut: "cut ''.'' s = Some (a, b) \<Longrightarrow> s = a @ ''.'' @ b" for s a b
    by (induction s arbitrary: a) (auto simp: has_prefix_def split: if_splits)
  have "check_state env r \<noteq> Inr bytes" for bytes
  proof
    assume "check_state env r = Inr bytes"
    then obtain a lib j where "map_of (Cookies r) ''oauth_state'' = Some (query_get r ''state'')" "hex_decode a = Some bytes"
      "cut ''.'' (query_get r ''state'') = Some (a, hex_encode (au_hmac env (jwt_secret j) bytes))" "env_jwt (au_api env) = Some (lib, j)"
      by (auto simp: check_state_def sign_state_def Let_def split: option.splits if_splits prod.splits)
    with assms [of lib j a bytes] cut show False by blast
  qed
  then obtain resp where resp: "check_state env r = Inl resp" by (cases "check_state env r") auto
  moreover have "check_state (env\<lparr>au_post := post, au_get := get\<rparr>) r = check_state env r" for post get
  proof -
    have "sign_state (env\<lparr>au_post := post, au_get := get\<rparr>) = sign_state env" by (simp add: sign_state_def fun_eq_iff)
    then show ?thesis by (simp add: check_state_def cong: option.case_cong prod.case_cong if_cong)
  qed
  moreover have "Status resp \<in> {0, 400}"
    using resp by (auto simp: check_state_def Let_def error_response_def json_response_def aborted_def
        split: option.splits if_splits prod.splits)
  ultimately show ?thesis by (auto simp: oauthCallback_def)
qed
section \<open>Registration and sessions\<close>

lemma credentials_Inr:
  assumes "credentials env ae r = Inr (b, username, password)"
  shows "env_body (au_api env) (ReqBody r) = Some b" "username = body_field b (UsernameColumn ae)" "username \<noteq> []"
    "password = body_field b (PasswordColumn ae)" "password \<noteq> []"
  using assms by (auto simp: credentials_def split: option.splits if_splits)

lemma prepared_lookup:
  "map_of (prepared_body ae hash b) c =
     (if c = ''id'' then None else if c = RoleColumn ae then Some (GStr (DefaultRole ae))
      else if c = PasswordColumn ae then Some (GStr hash) else map_of b c)"
  by (simp add: prepared_body_def delete_conv' update_conv')

lemma registration_fields_lookup:
  assumes "registration_fields env db ae b = Inr fs"
  obtains S where "\<And>c. map_of fs c = (if c \<in> S then map_of b c else None)" "UsernameColumn ae \<in> S" "PasswordColumn ae \<in> S"
proof -
  have lookup: "map_of (filter (\<lambda>(c, _). c \<in> S) b) c = (if c \<in> S then map_of b c else None)" for S c
    by (induction b) auto
  show ?thesis
  proof (cases "db_query (au_db env) db (''PRAGMA table_info('' @ AeTable ae @ '')'') []")
    case (Inl e)
    then show ?thesis using assms that [of UNIV] by (simp add: registration_fields_def)
  next
    case (Inr q)
    then show ?thesis using assms lookup that [of "set (map pragma_name (snd q))"]
      by (auto simp: registration_fields_def Let_def split: prod.splits if_splits)
  qed
qed

text \<open>
  C23. A registration that touches the database sends one insert: its columns are identifiers; the password
  column holds the bcrypt hash of the given password, the role column (when the table has it) the default
  role of the endpoint and no other, the identifier is left to the database, and every other column holds
  what the visitor gave. The token it answers is for the inserted row, with the default role.
\<close>
theorem registration_row:
  assumes "PasswordColumn ae \<notin> {''id'', RoleColumn ae}" "authRegister env db ae r = (resp, db')"
  shows "db' = db \<and> Status resp \<in> {400, 409, 500} \<or>
    (\<exists>b hash fs q args res.
       env_body (au_api env) (ReqBody r) = Some b \<and>
       cr_bcrypt (env_crypto (au_api env)) 14 (body_field b (PasswordColumn ae)) = Inr hash \<and>
       registration_statement ae fs = (q, args) \<and> db_exec (au_db env) db q args = (res, db') \<and>
       list_all valid_identifier (map fst fs) \<and>
       map_of fs (PasswordColumn ae) = Some (GStr hash) \<and>
       map_of fs (RoleColumn ae) \<in> {None, Some (GStr (DefaultRole ae))} \<and> map_of fs ''id'' = None \<and>
       (\<forall>c. c \<notin> {PasswordColumn ae, RoleColumn ae} \<longrightarrow> map_of fs c \<in> {None, map_of b c}) \<and>
       (Status resp = 201 \<longrightarrow> (\<exists>i n token. res = Inr (i, n) \<and>
          generateUserToken env i (body_field b (UsernameColumn ae)) (DefaultRole ae) = Inr token \<and>
          resp = token_response 201 i token)))"
proof -
  have codes: "Status (error_response n m) = n" for n m by (simp add: error_response_def json_response_def)
  show ?thesis
  proof (cases "credentials env ae r")
    case (Inl x)
    then show ?thesis using assms(2) by (auto simp: authRegister_def credentials_def codes split: option.splits if_splits)
  next
    case cr: (Inr x)
    obtain b username password where x: "x = (b, username, password)" by (cases x)
    note cr = cr [unfolded x] and given = credentials_Inr [OF cr [unfolded x]]
    show ?thesis
    proof (cases "\<exists>hash fs. HashPassword (cr_bcrypt (env_crypto (au_api env))) password = Inr hash \<and>
        registration_fields env db ae (prepared_body ae hash b) = Inr fs \<and> first_bad_field fs = None \<and> fs \<noteq> [] \<and>
        \<not> (case first_row (au_db env) db (existing_statement ae) [GStr username] of Some [GInt _] \<Rightarrow> True | _ \<Rightarrow> False)")
      case False
      then show ?thesis using assms(2) cr codes
        by (auto simp: authRegister_def registration_fields_def Let_def split: sum.splits option.splits if_splits prod.splits)
    next
      case True
      then obtain hash fs where hash: "HashPassword (cr_bcrypt (env_crypto (au_api env))) password = Inr hash"
        and fs: "registration_fields env db ae (prepared_body ae hash b) = Inr fs" "first_bad_field fs = None" "fs \<noteq> []"
        and fresh: "\<not> (case first_row (au_db env) db (existing_statement ae) [GStr username] of Some [GInt _] \<Rightarrow> True | _ \<Rightarrow> False)"
        by blast
      obtain q args where q: "registration_statement ae fs = (q, args)" by (cases "registration_statement ae fs")
      obtain res d where e: "db_exec (au_db env) db q args = (res, d)" by (cases "db_exec (au_db env) db q args")
      have run: "(resp, db') = (case res of
            Inl err \<Rightarrow> (error_response 400 (''registration failed: '' @ err), d)
          | Inr (userID, _) \<Rightarrow> (case generateUserToken env userID username (DefaultRole ae) of
               Inl _ \<Rightarrow> (error_response 500 ''failed to generate token'', d)
             | Inr token \<Rightarrow> (token_response 201 userID token, d)))"
        using assms(2) cr hash fs fresh q e by (auto simp: authRegister_def Let_def split: sum.splits)
      obtain S where S: "\<And>c. map_of fs c = (if c \<in> S then map_of (prepared_body ae hash b) c else None)"
        "PasswordColumn ae \<in> S" using registration_fields_lookup [OF fs(1)] by metis
      have "d = db'" using run by (auto split: sum.splits prod.splits)
      moreover have "Status resp = 201 \<longrightarrow> (\<exists>i n token. res = Inr (i, n) \<and>
          generateUserToken env i (body_field b (UsernameColumn ae)) (DefaultRole ae) = Inr token \<and> resp = token_response 201 i token)"
        using run given(2) codes by (auto split: sum.splits)
      ultimately show ?thesis
        using given hash fs(2) q e S assms(1)
        by (intro disjI2 exI [of _ b] exI [of _ hash] exI [of _ fs] exI [of _ q] exI [of _ args] exI [of _ res])
          (auto simp: HashPassword_def first_bad_field_None prepared_lookup)
    qed
  qed
qed

section \<open>The statements are well formed\<close>

definition auth_names_ok :: "authEndpointConfig \<Rightarrow> bool" where
  "auth_names_ok ae \<longleftrightarrow> list_all valid_identifier
     (AeTable ae # UsernameColumn ae # PasswordColumn ae # RoleColumn ae # AePublic ae)"

lemma auth_constants:
  "sql_ok (auth_query, [a])" "sql_ok (provider_query, [a, b])"
  "sql_ok (''SELECT value_encrypted FROM secrets WHERE name = ?'', [a])"
  "sql_text ''SELECT id FROM ''" "placeholders ''SELECT id FROM '' = 0"
  "sql_text ''SELECT id, ''" "placeholders ''SELECT id, '' = 0"
  "sql_text ''id, ''" "placeholders ''id, '' = 0"
  "sql_text '' WHERE id = ?''" "placeholders '' WHERE id = ?'' = 1"
  "sql_text '') VALUES (?, ?, ?)''" "placeholders '') VALUES (?, ?, ?)'' = 3"
proof -
  have "sql_text auth_query \<and> placeholders auth_query = 1" "sql_text provider_query \<and> placeholders provider_query = 2"
    "sql_text ''SELECT value_encrypted FROM secrets WHERE name = ?'' \<and> placeholders ''SELECT value_encrypted FROM secrets WHERE name = ?'' = 1"
    unfolding auth_query_def provider_query_def by code_simp+
  then show "sql_ok (auth_query, [a])" "sql_ok (provider_query, [a, b])"
    "sql_ok (''SELECT value_encrypted FROM secrets WHERE name = ?'', [a])"
    by (simp_all add: sql_ok_def)
qed code_simp+

lemma value_marks: "sql_text (join '', '' (map (\<lambda>_. ''?'') fs))" "placeholders (join '', '' (map (\<lambda>_. ''?'') fs)) = length fs"
  by (auto simp: sql_text_join placeholders_join sql_constants list_all_iff sum_list_triv o_def simp del: append.simps)

lemma auth_statements_ok:
  assumes "auth_names_ok ae"
  shows "sql_ok (existing_statement ae, [a])" "sql_ok (login_statement ae role, [a])" "sql_ok (me_statement ae, [a])"
    "sql_ok (role_statement ae, [a])" "sql_ok (oauth_insert_statement ae, [a, b, c])"
    "sql_ok (''PRAGMA table_info('' @ AeTable ae @ '')'', [])"
    "list_all valid_identifier (map fst fs) \<Longrightarrow> sql_ok (registration_statement ae fs)"
  using assms table_info_ok [of "AeTable ae"] joined_identifiers [of "AePublic ae"] joined_identifiers [of "map fst fs"]
    value_marks [of fs]
  by (simp_all add: auth_names_ok_def sql_ok_def existing_statement_def login_statement_def me_statement_def
      role_statement_def oauth_insert_statement_def registration_statement_def sql_identifier sql_constants auth_constants
      del: append.simps)
definition auth_guarded :: "'db auth_env \<Rightarrow> 'db auth_env" where
  \<comment> \<open>with a database that refuses every other statement\<close>
  "auth_guarded env = env\<lparr>au_api := guarded [] (au_api env)\<rparr>"

lemma auth_guarded_simps [simp]:
  "au_api (auth_guarded env) = guarded [] (au_api env)" "au_compare (auth_guarded env) = au_compare env"
  "au_random (auth_guarded env) = au_random env" "au_hmac (auth_guarded env) = au_hmac env"
  "au_tls (auth_guarded env) = au_tls env" "au_post (auth_guarded env) = au_post env"
  "au_get (auth_guarded env) = au_get env" "au_token (auth_guarded env) = au_token env"
  "au_info (auth_guarded env) = au_info env" "au_now (auth_guarded env) = au_now env" "au_domain (auth_guarded env) = au_domain env" "env_strings (guarded t e) = env_strings e"
  "env_jwt (guarded t e) = env_jwt e" "env_site (guarded t e) = env_site e"
  by (simp_all add: auth_guarded_def guarded_def)

lemma auth_guarded_same [simp]:
  "credentials (auth_guarded env) = credentials env" "generateUserToken (auth_guarded env) = generateUserToken env"
  "extractUserClaims (auth_guarded env) = extractUserClaims env" "check_state (auth_guarded env) = check_state env"
  "exchangeOAuthCode (auth_guarded env) = exchangeOAuthCode env" "fetchOAuthUserInfo (auth_guarded env) = fetchOAuthUserInfo env"
  "oauthRedirectURI (auth_guarded env) = oauthRedirectURI env" "sign_state (auth_guarded env) = sign_state env"
proof -
  show sign: "sign_state (auth_guarded env) = sign_state env" by (simp add: sign_state_def fun_eq_iff)
  show "check_state (auth_guarded env) = check_state env" unfolding check_state_def sign ..
qed (auto simp: credentials_def generateUserToken_def extractUserClaims_def exchangeOAuthCode_def fetchOAuthUserInfo_def
      oauthRedirectURI_def fun_eq_iff split: option.split sum.split)

lemma auth_guarded_query:
  assumes "sql_ok (q, args)"
  shows "db_query (env_db (guarded [] e)) db q args = db_query (env_db e) db q args"
    "first_row (env_db (guarded [] e)) db q args = first_row (env_db e) db q args"
    "query_one (env_db (guarded [] e)) db q args = query_one (env_db e) db q args"
    "db_exec (env_db (guarded [] e)) db q args = db_exec (env_db e) db q args"
  using guarded_query [OF assms, of "[]" e db] guarded_exec [OF assms, of "[]" e db]
  by (simp_all add: first_row_def query_one_def)

lemmas auth_guarded_rules = auth_guarded_query [OF auth_constants(1)] auth_guarded_query [OF auth_constants(2)]
  auth_guarded_query [OF auth_constants(3)]

lemma registration_guarded:
  assumes "auth_names_ok ae"
  shows "authRegister (auth_guarded env) db ae r = authRegister env db ae r"
proof -
  note query = auth_guarded_query [OF auth_statements_ok(1) [OF assms]] auth_guarded_query [OF auth_statements_ok(6) [OF assms]]
  have fields: "registration_fields (auth_guarded env) db ae b = registration_fields env db ae b" for b
    unfolding registration_fields_def auth_guarded_simps query ..
  have exec: "db_exec (env_db (guarded [] (au_api env))) db q args = db_exec (au_db env) db q args"
    if "first_bad_field fs = None" "registration_statement ae fs = (q, args)" for fs q args
    using auth_guarded_query(4) [of q args] auth_statements_ok(7) [OF assms, of fs] that by (simp add: first_bad_field_None)
  show ?thesis
    unfolding authRegister_def fields auth_guarded_same auth_guarded_simps query guarded_simps
    by (auto simp: exec Let_def split: sum.split option.split prod.split)
qed

lemma profile_guarded:
  assumes "auth_names_ok ae"
  shows "authLogin (auth_guarded env) db ae r = authLogin env db ae r"
    "authMe (auth_guarded env) db ae r = authMe env db ae r"
proof -
  note ok = auth_statements_ok [OF assms]
  have user: "stored_user (auth_guarded env) db ae u = stored_user env db ae u" for u
    unfolding stored_user_def auth_guarded_simps auth_guarded_same guarded_simps auth_guarded_query [OF ok(2)] ..
  show "authLogin (auth_guarded env) db ae r = authLogin env db ae r"
    unfolding authLogin_def auth_guarded_simps auth_guarded_same guarded_simps user ..
  show "authMe (auth_guarded env) db ae r = authMe env db ae r" 
    unfolding authMe_def auth_guarded_simps auth_guarded_same guarded_simps auth_guarded_query [OF ok(3)] ..
qed

lemma oauth_guarded:
  assumes "auth_names_ok ae"
  shows "oauthAuthorize (auth_guarded env) db ae provider r = oauthAuthorize env db ae provider r"
    "oauthCallback (auth_guarded env) db ae provider r = oauthCallback env db ae provider r"
proof -
  note ok = auth_statements_ok [OF assms]
  have op: "loadOAuthProvider (env_db (guarded [] e)) db n p = loadOAuthProvider (env_db e) db n p" for e n p
    unfolding loadOAuthProvider_def auth_guarded_simps auth_guarded_same guarded_simps auth_guarded_rules ..
  show "oauthAuthorize (auth_guarded env) db ae provider r = oauthAuthorize env db ae provider r"
    unfolding oauthAuthorize_def auth_guarded_simps auth_guarded_same guarded_simps op ..
  have secret: "client_secret (auth_guarded env) db op = client_secret env db op" for op
    unfolding client_secret_def auth_guarded_simps auth_guarded_same guarded_simps auth_guarded_rules ..
  have name: "provider_username (auth_guarded env) db ae provider r = provider_username env db ae provider r"
    unfolding provider_username_def auth_guarded_simps auth_guarded_same guarded_simps op secret ..
  have user: "oauth_user (auth_guarded env) db ae bytes u = oauth_user env db ae bytes u" for bytes u
    unfolding oauth_user_def auth_guarded_simps auth_guarded_same guarded_simps auth_guarded_query [OF ok(4)] auth_guarded_query [OF ok(5)] ..
  show "oauthCallback (auth_guarded env) db ae provider r = oauthCallback env db ae provider r"
    unfolding oauthCallback_def auth_guarded_simps auth_guarded_same guarded_simps name user ..
qed

text \<open>
  Whatever a visitor or a provider sends, the authentication routes send only statements of identifiers
  and harmless characters with an argument for each placeholder, if the tables of the endpoints are
  identifiers, as the tool that creates them checks: the columns, which are pasted into the statements too,
  are checked again when an endpoint is loaded.
\<close>
theorem auth_injection_free:
  assumes "\<And>path ae. loadAuthEndpoint env db path = Some ae \<Longrightarrow> valid_identifier (AeTable ae)"
  shows "handleAuthRequest (auth_guarded env) db r fullPath = handleAuthRequest env db r fullPath"
proof -
  have load: "loadAuthEndpoint (auth_guarded env) db path = loadAuthEndpoint env db path" for path
    unfolding loadAuthEndpoint_def auth_guarded_simps auth_guarded_same guarded_simps auth_guarded_rules ..
  have names: "auth_names_ok ae" if "loadAuthEndpoint env db path = Some ae" for path ae
    using that assms [OF that]
    by (auto simp: loadAuthEndpoint_def auth_names_ok_def ValidateColumnNames_iff split: option.splits if_splits)
  have "auth_action (auth_guarded env) db ae action r = auth_action env db ae action r"
    if "loadAuthEndpoint env db path = Some ae" for path ae action
  proof -
    note ok = names [OF that]
    show ?thesis
      unfolding auth_action_def registration_guarded [OF ok] profile_guarded [OF ok] oauth_guarded [OF ok] ..
  qed
  then show ?thesis unfolding handleAuthRequest_def load by (auto split: option.split)
qed
section \<open>A site\<close>

definition members_ae :: authEndpointConfig where
  "members_ae = \<lparr>AeTable = ''members'', AePath = ''auth'', UsernameColumn = ''email'', PasswordColumn = ''pw'',
     AePublic = [''id'', ''email''], JWTExpiryHours = 24, DefaultRole = ''user'', RoleColumn = ''role''\<rparr>"

definition members_db :: "unit sqlite" where
  "members_db = \<lparr>db_query = (\<lambda>_ q args.
       if q = auth_query then Inr ([''id''], if args = [GStr ''auth''] then [[GInt 1, GStr ''members'', GStr ''auth'', GStr ''email'', GStr ''pw'',
         GStr ''[..]'', GInt 0, GStr [], GStr []]] else [])
       else if q = provider_query then Inr ([''id''], [[GInt 1, GStr ''hub'', GStr ''Hub'', GStr ''id&1'', GStr ''s'', GStr ''https://hub/a'',
         GStr ''https://hub/t'', GStr ''https://hub/u'', GStr ''read'', GStr ''login'', GStr ''auth'']])
       else if q = login_statement members_ae True then Inr ([''id'', ''pw'', ''role''], if args = [GStr ''ann''] then [[GInt 7, GStr ''#x'', GStr ''editor'']] else [])
       else if q = me_statement members_ae then Inr ([''id'', ''email''], [[GInt 7, GStr ''ann'']])
       else Inl ''no such table''),
     db_exec = (\<lambda>_ q args. (Inr (8, 1), ()))\<rparr>"

definition plain_tokens :: jwt_library where
  \<comment> \<open>a token library that satisfies the law: the claims are the token\<close>
  "plain_tokens = \<lparr>ParseWithClaims = (\<lambda>key t. case t of
       a # b # s \<Rightarrow> (case key True of Inr _ \<Rightarrow> Inr (\<lparr>ClaimSiteID = of_char a, UserID = of_char b, Username = takeWhile (\<lambda>c. c \<noteq> CHR ''.'') s,
         ClaimRole = drop 1 (dropWhile (\<lambda>c. c \<noteq> CHR ''.'') s), ExpiresAt = 5, IssuedAt = 0\<rparr>, True) | Inl e \<Rightarrow> Inl e)
     | _ \<Rightarrow> Inl ''malformed''),
     SignedString = (\<lambda>c k. if c = \<lparr>ClaimSiteID = 1, UserID = 7, Username = ''ann'', ClaimRole = ''editor'', ExpiresAt = 5, IssuedAt = 0\<rparr>
       then Inr ([CHR 0x01, CHR 0x07] @ ''ann.editor'')
       else if c = \<lparr>ClaimSiteID = 1, UserID = 8, Username = ''ann'', ClaimRole = ''user'', ExpiresAt = 5, IssuedAt = 0\<rparr>
       then Inr ([CHR 0x01, CHR 0x08] @ ''ann.user'') else Inl ''not signed'')\<rparr>"

definition visitors_env :: "unit auth_env" where
  "visitors_env = \<lparr>au_api = \<lparr>env_db = members_db, env_site = 1,
       env_jwt = Some (plain_tokens, \<lparr>jwt_secret = ''k'', jwt_expiry = 5, SecureCookies = False\<rparr>),
       env_crypto = \<lparr>cr_bcrypt = (\<lambda>n p. Inr (CHR ''#'' # p)), cr_aead = Some xor_free_cipher, cr_nonce = Some ''ab'', cr_print = (\<lambda>_. [])\<rparr>,
       env_bus = False, env_config = None, env_strings = (\<lambda>_. [''id'', ''email'']), env_string_map = (\<lambda>_. []),
       env_body = (\<lambda>_. Some [(''email'', GStr ''ann''), (''pw'', GStr ''x''), (''role'', GStr ''admin''), (''id'', GInt 1)]), env_float = (\<lambda>_. None)\<rparr>,
     au_now = 0, au_compare = (\<lambda>h p. h = CHR ''#'' # p), au_random = Some ''r?'', au_hmac = (\<lambda>k d. k @ d), au_tls = True,
     au_domain = None, au_post = (\<lambda>_ _. Inl ''offline''), au_get = (\<lambda>_ _. Inl ''offline''), au_token = (\<lambda>_. None), au_info = (\<lambda>_. None)\<rparr>"

definition visit :: "string \<Rightarrow> (string \<times> string) list \<Rightarrow> (string \<times> string list) list \<Rightarrow> request" where
  "visit m cookies params = \<lparr>ReqMethod = m, URLPath = ''/api/auth'', Query = params, Header = (\<lambda>_. []), Cookies = cookies,
     ReqHost = ''shop.test'', RemoteAddr = [], ReqBody = []\<rparr>"
lemma members_fields [simp]:
  "env_db (au_api visitors_env) = members_db" "env_site (au_api visitors_env) = 1"
  "env_jwt (au_api visitors_env) = Some (plain_tokens, \<lparr>jwt_secret = ''k'', jwt_expiry = 5, SecureCookies = False\<rparr>)"
  "cr_bcrypt (env_crypto (au_api visitors_env)) n p = Inr (CHR ''#'' # p)" "env_strings (au_api visitors_env) t = [''id'', ''email'']"
  "env_body (au_api visitors_env) t = Some [(''email'', GStr ''ann''), (''pw'', GStr ''x''), (''role'', GStr ''admin''), (''id'', GInt 1)]"
  "au_now visitors_env = 0" "au_compare visitors_env h p \<longleftrightarrow> h = CHR ''#'' # p" "au_random visitors_env = Some ''r?''"
  "au_hmac visitors_env k d = k @ d" "au_tls visitors_env" "au_domain visitors_env = None"
  by (simp_all add: visitors_env_def)

lemma members_statements:
  "login_statement members_ae True = ''SELECT id, pw, role FROM members WHERE email = ?''"
  "me_statement members_ae = ''SELECT id, email FROM members WHERE id = ?''"
  "existing_statement members_ae = ''SELECT id FROM members WHERE email = ?''"
  by (simp_all add: login_statement_def me_statement_def existing_statement_def members_ae_def)

lemma members_login:
  "authLogin visitors_env () members_ae (visit ''POST'' [] []) = token_response 200 7 ([CHR 0x01, CHR 0x07] @ ''ann.editor'')"
proof -
  have "stored_user visitors_env () members_ae ''ann'' = Some (7, ''#x'', ''editor'')"
    by (simp add: stored_user_def query_one_def members_db_def members_statements auth_query_def provider_query_def null_string_def)
  moreover have "credentials visitors_env members_ae r =
      Inr ([(''email'', GStr ''ann''), (''pw'', GStr ''x''), (''role'', GStr ''admin''), (''id'', GInt 1)], ''ann'', ''x'')" for r
    by (simp add: credentials_def body_field_def members_ae_def)
  ultimately show ?thesis
    by (simp add: authLogin_def CheckPassword_def generateUserToken_def GenerateForSite_def plain_tokens_def)
qed

theorem registration_row_witness:
  "\<exists>fs. map_of fs ''pw'' = Some (GStr ''#x'') \<and> map_of fs ''role'' \<in> {None, Some (GStr ''user'')} \<and> map_of fs ''id'' = None \<and>
     authRegister visitors_env () members_ae (visit ''POST'' [] []) = (token_response 201 8 ([CHR 0x01, CHR 0x08] @ ''ann.user''), ())"
proof -
  have ids: "valid_identifier ''email''" "valid_identifier ''pw''" "valid_identifier ''role''" by code_simp+
  have reply: "authRegister visitors_env () members_ae (visit ''POST'' [] []) = (token_response 201 8 ([CHR 0x01, CHR 0x08] @ ''ann.user''), ())"
    by (simp add: authRegister_def credentials_def body_field_def members_ae_def first_row_def members_db_def existing_statement_def
        auth_query_def provider_query_def login_statement_def me_statement_def HashPassword_def registration_fields_def
        prepared_body_def ids registration_statement_def generateUserToken_def GenerateForSite_def plain_tokens_def)
  have "PasswordColumn members_ae \<notin> {''id'', RoleColumn members_ae}" by (simp add: members_ae_def)
  from registration_row [OF this reply] show ?thesis
    using reply by (auto simp: token_response_def json_response_def members_ae_def body_field_def)
qed

lemma members_provider:
  "loadOAuthProvider members_db () n p = Some \<lparr>OpName = ''hub'', ClientID = ''id&1'', ClientSecretName = ''s'',
     AuthorizeURL = ''https://hub/a'', TokenURL = ''https://hub/t'', UserinfoURL = ''https://hub/u'', Scopes = ''read'', UsernameField = ''login''\<rparr>"
  by (simp add: loadOAuthProvider_def first_row_def members_db_def auth_query_def provider_query_def)

lemma members_authorize: "Status (oauthAuthorize visitors_env () members_ae ''hub'' (visit ''GET'' [] [])) = 302"
  by (simp add: oauthAuthorize_def members_provider sign_state_def redirect_response_def Let_def)


theorem oauth_forged_state_refused_witness:
  "\<exists>resp. Status resp \<in> {0, 400} \<and>
     oauthCallback (visitors_env\<lparr>au_post := \<lambda>_ _. Inr (200, ''t''), au_get := \<lambda>_ _. Inr (200, ''i'')\<rparr>) () members_ae ''hub''
       (visit ''GET'' [(''oauth_state'', ''723f.0'')] [(''state'', [''723f.0''])]) = (resp, ())"
proof -
  have no: "a @ ''.'' @ hex_encode (au_hmac visitors_env (jwt_secret j) bytes) \<noteq> ''723f.0''"
    if "env_jwt (au_api visitors_env) = Some (lib, j)" "hex_decode a = Some bytes" for lib j a bytes
  proof
    assume eq: "a @ ''.'' @ hex_encode (au_hmac visitors_env (jwt_secret j) bytes) = ''723f.0''"
    then have "length (a @ ''.'' @ hex_encode (CHR ''k'' # bytes)) = length ''723f.0''" using that by (intro arg_cong [of _ _ length]) auto
    moreover have "length (hex_encode s) = 2 * length s" for s by (induction s) (simp_all add: hex_encode_def)
    ultimately have "length a + 2 * length bytes = 3" by simp
    moreover have "length a = 2 * length bytes"
      using that(2) by (induction a arbitrary: bytes rule: hex_decode.induct) (auto split: option.splits)
    ultimately show False by presburger
  qed
  show ?thesis
    using oauth_forged_state_refused [of visitors_env "visit ''GET'' [(''oauth_state'', ''723f.0'')] [(''state'', [''723f.0''])]"
        "()" members_ae "''hub''"] no
    by (fastforce simp: query_get_def visit_def)
qed

lemma members_load: "loadAuthEndpoint visitors_env () path = Some ae \<Longrightarrow> ae = members_ae"
  by (auto simp: loadAuthEndpoint_def first_row_def members_db_def scan_auth_def members_ae_def split: if_splits)

theorem auth_injection_free_witness:
  "handleAuthRequest (auth_guarded visitors_env) () (visit ''POST'' [] []) ''auth/login'' =
   handleAuthRequest visitors_env () (visit ''POST'' [] []) ''auth/login''"
proof (rule auth_injection_free)
  have "valid_identifier ''members''" by code_simp
  then show "loadAuthEndpoint visitors_env () path = Some ae \<Longrightarrow> valid_identifier (AeTable ae)" for path ae
    using members_load [of path ae] by (simp add: members_ae_def)
qed

end
