(* ===== verification/Admin.thy ===== *)
theory Admin
  imports Auth Manager
begin

text \<open>
  The administration panel, \<^verbatim>\<open>server/admin\<close>: the routing table with its guards, the panel's users with the
  first-run setup (\<^verbatim>\<open>auth.go\<close>, \<^verbatim>\<open>users.go\<close>, \<^verbatim>\<open>db/models/user.go\<close>), the language-model providers and their models
  (\<^verbatim>\<open>providers.go\<close>, \<^verbatim>\<open>db/models/provider.go\<close>) and the answers to the questions of the sites (\<^verbatim>\<open>questions.go\<close>).
  Any statement may fail. Timestamps are left out. Shown: what each guard lets through and that sessions of
  site visitors are among it, when the last administrator is kept, that setup runs once, and that a
  provider has at most one default model.
\<close>

section \<open>Routes\<close>

datatype guard = Anyone | Limited | Session | AdminOnly

definition admin_routes :: "(string \<times> string \<times> guard) list" where
  \<comment> \<open>static segments before variables, as the router prefers them\<close>
  "admin_routes =
    [(''GET'', ''setup/check'', Anyone), (''GET'', ''setup/providers'', Anyone),
     (''POST'', ''auth/login'', Limited), (''POST'', ''auth/logout'', Limited), (''POST'', ''setup'', Limited),
     (''GET'', ''sites'', Session), (''GET'', ''providers/catalog'', Session), (''GET'', ''providers'', Session),
     (''GET'', ''providers/{providerID}'', Session), (''GET'', ''providers/{providerID}/models'', Session),
     (''GET'', ''tools'', Session), (''GET'', ''users'', Session), (''GET'', ''system/status'', Session),
     (''GET'', ''events/stream'', Session), (''GET'', ''questions'', Session), (''GET'', ''settings'', Session),
     (''GET'', ''logs/{siteID}'', Session), (''GET'', ''logs/{siteID}/llm'', Session), (''GET'', ''logs/{siteID}/llm/csv'', Session),
     (''GET'', ''logs/{siteID}/llm/stats'', Session), (''GET'', ''logs/{siteID}/llm/{logID}'', Session),
     (''GET'', ''sites/{siteID}'', Session), (''GET'', ''sites/{siteID}/summary'', Session), (''GET'', ''sites/{siteID}/pages'', Session),
     (''GET'', ''sites/{siteID}/pages/{pageID}'', Session), (''GET'', ''sites/{siteID}/assets'', Session),
     (''GET'', ''sites/{siteID}/assets/{assetID}/content'', Session), (''GET'', ''sites/{siteID}/tables'', Session),
     (''GET'', ''sites/{siteID}/tables/{tableName}/rows'', Session), (''GET'', ''sites/{siteID}/endpoints'', Session),
     (''GET'', ''sites/{siteID}/endpoints/{endpointID}'', Session), (''GET'', ''sites/{siteID}/files'', Session),
     (''GET'', ''sites/{siteID}/tasks'', Session), (''GET'', ''sites/{siteID}/webhooks'', Session),
     (''GET'', ''sites/{siteID}/webhooks/{webhookID}'', Session), (''GET'', ''sites/{siteID}/tasks/{taskID}/runs'', Session),
     (''GET'', ''sites/{siteID}/questions'', Session), (''GET'', ''sites/{siteID}/service-providers'', Session),
     (''GET'', ''sites/{siteID}/auth-endpoints'', Session), (''GET'', ''sites/{siteID}/secrets'', Session),
     (''GET'', ''sites/{siteID}/layouts'', Session), (''GET'', ''sites/{siteID}/layouts/{layoutID}'', Session),
     (''GET'', ''sites/{siteID}/analytics/summary'', Session), (''GET'', ''sites/{siteID}/diagnostics/health'', Session),
     (''GET'', ''sites/{siteID}/diagnostics/integrity'', Session), (''GET'', ''sites/{siteID}/diagnostics/errors'', Session),
     (''PUT'', ''sites/{siteID}'', AdminOnly), (''DELETE'', ''sites/{siteID}'', AdminOnly),
     (''POST'', ''sites/{siteID}/toggle-status'', AdminOnly), (''POST'', ''sites/{siteID}/assets'', AdminOnly),
     (''DELETE'', ''sites/{siteID}/assets/{assetID}'', AdminOnly), (''POST'', ''sites/{siteID}/tables/{tableName}/rows'', AdminOnly),
     (''PUT'', ''sites/{siteID}/tables/{tableName}/rows/{rowID}'', AdminOnly),
     (''DELETE'', ''sites/{siteID}/tables/{tableName}/rows/{rowID}'', AdminOnly),
     (''PUT'', ''sites/{siteID}/endpoints/{endpointID}'', AdminOnly), (''DELETE'', ''sites/{siteID}/endpoints/{endpointID}'', AdminOnly),
     (''POST'', ''sites/{siteID}/files'', AdminOnly), (''DELETE'', ''sites/{siteID}/files/{fileID}'', AdminOnly),
     (''POST'', ''sites/{siteID}/tasks/{taskID}/toggle'', AdminOnly), (''DELETE'', ''sites/{siteID}/tasks/{taskID}'', AdminOnly),
     (''POST'', ''sites/{siteID}/tasks'', AdminOnly), (''PUT'', ''sites/{siteID}/tasks/{taskID}'', AdminOnly),
     (''POST'', ''sites/{siteID}/webhooks/{webhookID}/toggle'', AdminOnly), (''DELETE'', ''sites/{siteID}/webhooks/{webhookID}'', AdminOnly),
     (''PUT'', ''sites/{siteID}/pages/{pageID}'', AdminOnly), (''DELETE'', ''sites/{siteID}/pages/{pageID}'', AdminOnly),
     (''DELETE'', ''sites/{siteID}/auth-endpoints/{endpointID}'', AdminOnly), (''DELETE'', ''sites/{siteID}/secrets/{secretID}'', AdminOnly),
     (''DELETE'', ''sites/{siteID}/layouts/{layoutID}'', AdminOnly),
     (''POST'', ''sites/{siteID}/service-providers/{provID}/toggle'', AdminOnly),
     (''DELETE'', ''sites/{siteID}/service-providers/{provID}'', AdminOnly),
     (''GET'', ''brain/{siteID}/status'', Session), (''GET'', ''chat/{siteID}/history'', Session),
     (''POST'', ''chat/{siteID}/stream'', Session), (''POST'', ''questions/{questionID}/answer'', Session),
     (''POST'', ''sites'', AdminOnly), (''POST'', ''brain/{siteID}/start'', AdminOnly), (''POST'', ''brain/{siteID}/stop'', AdminOnly),
     (''POST'', ''brain/{siteID}/mode'', AdminOnly), (''POST'', ''providers'', AdminOnly), (''PUT'', ''providers/{providerID}'', AdminOnly),
     (''DELETE'', ''providers/{providerID}'', AdminOnly), (''POST'', ''providers/{providerID}/test'', AdminOnly),
     (''POST'', ''providers/{providerID}/models'', AdminOnly), (''DELETE'', ''providers/{providerID}/models/{modelID}'', AdminOnly),
     (''POST'', ''providers/{providerID}/models/{modelID}/default'', AdminOnly), (''POST'', ''users'', AdminOnly),
     (''PUT'', ''users/{userID}'', AdminOnly), (''DELETE'', ''users/{userID}'', AdminOnly), (''PUT'', ''settings'', AdminOnly)]"

fun route_vars :: "string list \<Rightarrow> string list \<Rightarrow> (string \<times> string) list option" where
  \<comment> \<open>the variables of a matching path: a variable takes one segment that is not empty\<close>
  "route_vars [] [] = Some []"
| "route_vars (p # ps) (s # ss) =
     (case p of
        CHR ''{'' # v \<Rightarrow> if s = [] then None else map_option ((#) (butlast v, s)) (route_vars ps ss)
      | _ \<Rightarrow> if p = s then route_vars ps ss else None)"
| "route_vars _ _ = None"

definition matching :: "string \<Rightarrow> (string \<times> string \<times> guard) list" where
  \<comment> \<open>the routes of a path below \<^verbatim>\<open>/admin/api/\<close>\<close>
  "matching path = filter (\<lambda>(m, p, g). route_vars (split_on CHR ''/'' p) (split_on CHR ''/'' path) \<noteq> None) admin_routes"

definition bare_response :: "nat \<Rightarrow> response" where
  "bare_response status = response.make status [] GNil"

definition find_route :: "request \<Rightarrow> response + (string \<times> guard)" where
  "find_route r =
     (let path = trim_prefix ''/admin/api/'' (URLPath r); candidates = matching path in
      case find (\<lambda>(m, p, g). m = ReqMethod r) candidates of
        Some (m, p, g) \<Rightarrow> Inr (p, g)
      | None \<Rightarrow> Inl (bare_response (if candidates = [] then 404 else 405)))"

definition admin_gate ::
    "jwt_library \<Rightarrow> JWTManager \<Rightarrow> int \<Rightarrow> RateLimiter \<Rightarrow> request \<Rightarrow> (response + string) \<times> RateLimiter" where
  \<comment> \<open>the route of the handler that gets the request, or the answer of a middleware before it\<close>
  "admin_gate lib j now limiter r =
     (case find_route r of
        Inl resp \<Rightarrow> (Inl resp, limiter)
      | Inr (p, Anyone) \<Rightarrow> (Inr p, limiter)
      | Inr (p, Limited) \<Rightarrow>
          (case RateLimit r now limiter of
             (Some resp, limiter') \<Rightarrow> (Inl resp, limiter')
           | (None, limiter') \<Rightarrow> (Inr p, limiter'))
      | Inr (p, Session) \<Rightarrow>
          (case Authenticator lib j r of Inl resp \<Rightarrow> (Inl resp, limiter) | Inr _ \<Rightarrow> (Inr p, limiter))
      | Inr (p, AdminOnly) \<Rightarrow>
          (case Authenticator lib j r of
             Inl resp \<Rightarrow> (Inl resp, limiter)
           | Inr c \<Rightarrow>
               (case RequireRole ''admin'' (Some c) of Some resp \<Rightarrow> (Inl resp, limiter) | None \<Rightarrow> (Inr p, limiter))))"

definition admin_limiter :: "int \<Rightarrow> RateLimiter" where
  "admin_limiter now = NewRateLimiter 5 10 now"

section \<open>State\<close>

record user =
  u_id :: int
  u_name :: string
  u_hash :: string
  u_display :: string
  u_role :: string

record provider_row =
  pr_id :: int
  pr_name :: string
  pr_type :: string
  pr_key :: "string option"
  pr_url :: "string option"
  pr_enabled :: bool
  pr_config :: string

record model_row =
  md_id :: int
  md_provider :: int
  md_model :: string
  md_display :: string
  md_tokens :: int
  md_streaming :: bool
  md_tools :: bool
  md_default :: bool

record admin_db =
  \<comment> \<open>the tables and the last identifier each has given out (\<^verbatim>\<open>AUTOINCREMENT\<close>)\<close>
  users :: "user list"
  user_seq :: int
  llm_providers :: "provider_row list"
  provider_seq :: int
  llm_models :: "model_row list"
  model_seq :: int

record panel_db =
  \<comment> \<open>the database of a site, with its secrets, the memory of its worker and the parts of questions that ask for values\<close>
  pd_site :: site_db
  pd_secrets :: "(string \<times> string) list"
  pd_memory :: "(string \<times> string) list"
  pd_secret_name :: "(int \<times> string) list"
  pd_fields :: "(int \<times> string) list"

record 'p admin_world =
  ad_tick :: nat
  ad_db :: admin_db
  ad_registry :: "'p LLMRegistry"
  ad_events :: "Event list"
  ad_sites :: "(int \<times> panel_db) list"

record 'p admin_env =
  en_fault :: "nat \<Rightarrow> string option"
  en_bcrypt :: "nat \<Rightarrow> string \<Rightarrow> string + string"
  en_compare :: "string \<Rightarrow> string \<Rightarrow> bool"
  en_jwt :: "jwt_library \<times> JWTManager"
  en_now :: int
  en_aead :: aead
  en_nonce :: "nat \<Rightarrow> string option"
  en_factory :: "(string \<Rightarrow> string \<Rightarrow> string \<Rightarrow> string \<Rightarrow> 'p option) option"
  en_ping :: "'p \<Rightarrow> string \<Rightarrow> string option"
  en_json :: "string \<Rightarrow> jobj option"
  en_foreign_keys :: bool
  en_stored :: "int \<Rightarrow> string + panel_db"
  en_fields :: "string \<Rightarrow> (string \<times> string \<times> string \<times> string) list option"
  en_values :: "string \<Rightarrow> (string \<times> string) list option"
  en_bus :: bool

type_synonym ('p, 'a) adm = "('p admin_world, 'a) State_Monad.state"

definition adm_step :: "(nat \<Rightarrow> 'a) \<Rightarrow> ('p, 'a) adm" where
  "adm_step f = State (\<lambda>w. (f (ad_tick w), w\<lparr>ad_tick := Suc (ad_tick w)\<rparr>))"

definition adm_exec :: "'p admin_env \<Rightarrow> (admin_db \<Rightarrow> (string + 'a) \<times> admin_db) \<Rightarrow> ('p, string + 'a) adm" where
  \<comment> \<open>one statement, which fails for the reason of the database or of its own\<close>
  "adm_exec en f =
     do { e \<leftarrow> adm_step (en_fault en);
          w \<leftarrow> State_Monad.get;
          (case e of
             Some msg \<Rightarrow> State_Monad.return (Inl msg)
           | None \<Rightarrow> do { State_Monad.set (w\<lparr>ad_db := snd (f (ad_db w))\<rparr>); State_Monad.return (fst (f (ad_db w))) }) }"

definition adm_query :: "'p admin_env \<Rightarrow> (admin_db \<Rightarrow> string + 'a) \<Rightarrow> ('p, string + 'a) adm" where
  "adm_query en f = adm_exec en (\<lambda>b. (f b, b))"

abbreviation reply :: "'a \<Rightarrow> ('p, 'a) adm" where "reply \<equiv> State_Monad.return"

definition refuse :: "nat \<Rightarrow> string \<Rightarrow> ('p, response) adm" where
  "refuse status msg = reply (error_response status msg)"

definition id_param :: "(string \<times> string) list \<Rightarrow> string \<Rightarrow> int option" where
  "id_param vars k = (case map_of vars k of Some s \<Rightarrow> atoi s | None \<Rightarrow> atoi [])"

section \<open>Users\<close>

definition insert_user :: "string \<Rightarrow> string \<Rightarrow> string \<Rightarrow> string \<Rightarrow> admin_db \<Rightarrow> (string + user) \<times> admin_db" where
  \<comment> \<open>\<^verbatim>\<open>CreateUserTx\<close>; user names are unique\<close>
  "insert_user name hash role display b =
     (if \<exists>u \<in> set (users b). u_name u = name then (Inl ''UNIQUE constraint failed: users.username'', b)
      else (let u = \<lparr>u_id = user_seq b + 1, u_name = name, u_hash = hash, u_display = display, u_role = role\<rparr>
            in (Inr u, b\<lparr>users := users b @ [u], user_seq := user_seq b + 1\<rparr>)))"

definition find_user :: "(user \<Rightarrow> bool) \<Rightarrow> admin_db \<Rightarrow> string + user" where
  "find_user P b = (case find P (users b) of Some u \<Rightarrow> Inr u | None \<Rightarrow> Inl ''sql: no rows in result set'')"

definition update_user :: "int \<Rightarrow> (user \<Rightarrow> user) \<Rightarrow> admin_db \<Rightarrow> (string + unit) \<times> admin_db" where
  "update_user i f b = (Inr (), b\<lparr>users := map (\<lambda>u. if u_id u = i then f u else u) (users b)\<rparr>)"

definition delete_user :: "int \<Rightarrow> admin_db \<Rightarrow> (string + unit) \<times> admin_db" where
  "delete_user i b = (Inr (), b\<lparr>users := filter (\<lambda>u. u_id u \<noteq> i) (users b)\<rparr>)"

definition admin_count :: "admin_db \<Rightarrow> nat" where
  "admin_count b = length (filter (\<lambda>u. u_role u = ''admin'') (users b))"

definition user_json :: "user \<Rightarrow> gval" where
  \<comment> \<open>without the hash\<close>
  "user_json u = GObj [(''id'', GInt (u_id u)), (''username'', GStr (u_name u)), (''display_name'', GStr (u_display u)),
     (''role'', GStr (u_role u))]"

record createUserRequest =
  cu_username :: string
  cu_password :: string
  cu_role :: string
  cu_display :: string

record updateUserRequest =
  uu_password :: string
  uu_role :: string
  uu_display :: string

definition Users_List :: "'p admin_env \<Rightarrow> ('p, response) adm" where
  "Users_List en =
     do { r \<leftarrow> adm_query en (\<lambda>b. Inr (users b));
          case r of
            Inl _ \<Rightarrow> refuse 500 ''failed to list users''
          | Inr us \<Rightarrow> reply (json_response 200 (GArr (map user_json us))) }"

definition Users_Create :: "'p admin_env \<Rightarrow> createUserRequest option \<Rightarrow> ('p, response) adm" where
  \<comment> \<open>the second argument: the decoded body\<close>
  "Users_Create en decoded =
     (case decoded of
        None \<Rightarrow> refuse 400 ''invalid request body''
      | Some req \<Rightarrow>
          (if cu_username req = [] \<or> cu_password req = [] then refuse 400 ''username and password are required''
           else (case HashPassword (en_bcrypt en) (cu_password req) of
              Inl _ \<Rightarrow> refuse 500 ''failed to create user''
            | Inr hash \<Rightarrow>
                do { r \<leftarrow> adm_exec en (insert_user (cu_username req) hash (if cu_role req = [] then ''user'' else cu_role req) (cu_display req));
                     case r of
                       Inl _ \<Rightarrow> refuse 500 ''failed to create user''
                     | Inr u \<Rightarrow> reply (json_response 201 (user_json u)) })))"

definition last_admin :: "'p admin_env \<Rightarrow> int \<Rightarrow> ('p, bool) adm" where
  \<comment> \<open>whether the user is an administrator and no second one was counted; a count that fails is 0\<close>
  "last_admin en i =
     do { r \<leftarrow> adm_query en (find_user (\<lambda>u. u_id u = i));
          (case r of
             Inr u \<Rightarrow>
               (if u_role u = ''admin''
                then do { c \<leftarrow> adm_query en (\<lambda>b. Inr (admin_count b));
                          reply ((case c of Inr n \<Rightarrow> n | Inl _ \<Rightarrow> 0) \<le> 1) }
                else reply False)
           | Inl _ \<Rightarrow> reply False) }"

definition attempt :: "'p admin_env \<Rightarrow> bool \<Rightarrow> (admin_db \<Rightarrow> (string + unit) \<times> admin_db) \<Rightarrow> string \<Rightarrow> ('p, response) adm \<Rightarrow> ('p, response) adm" where
  \<comment> \<open>a statement that is sent only under a condition, and what follows unless it fails\<close>
  "attempt en cond f msg next_step =
     (if cond
      then do { r \<leftarrow> adm_exec en f; (case r of Inl _ \<Rightarrow> refuse 500 msg | Inr _ \<Rightarrow> next_step) }
      else next_step)"

definition Users_Update :: "'p admin_env \<Rightarrow> int option \<Rightarrow> updateUserRequest option \<Rightarrow> ('p, response) adm" where
  \<comment> \<open>the new password is written before the role is checked\<close>
  "Users_Update en userID decoded =
     (case (userID, decoded) of
        (None, _) \<Rightarrow> refuse 400 ''invalid user ID''
      | (Some _, None) \<Rightarrow> refuse 400 ''invalid request body''
      | (Some i, Some req) \<Rightarrow>
          (let finish = do { r \<leftarrow> adm_query en (find_user (\<lambda>u. u_id u = i));
                             case r of Inl _ \<Rightarrow> refuse 404 ''user not found''
                                     | Inr u \<Rightarrow> reply (json_response 200 (user_json u)) };
               rename = attempt en (uu_display req \<noteq> []) (update_user i (\<lambda>u. u\<lparr>u_display := uu_display req\<rparr>)) ''failed to update user'' finish;
               promote = attempt en True (update_user i (\<lambda>u. u\<lparr>u_role := uu_role req\<rparr>)) ''failed to update user'' rename;
               roles = (if uu_role req = [] then rename
                        else if uu_role req = ''admin'' then promote
                        else do { l \<leftarrow> last_admin en i;
                                  if l then refuse 400 ''cannot demote the last admin user'' else promote })
           in if uu_password req = [] then roles
              else (case HashPassword (en_bcrypt en) (uu_password req) of
                      Inl _ \<Rightarrow> refuse 500 ''failed to update password''
                    | Inr hash \<Rightarrow> attempt en True (update_user i (\<lambda>u. u\<lparr>u_hash := hash\<rparr>)) ''failed to update user'' roles)))"

definition delete_checked :: "'p admin_env \<Rightarrow> int \<Rightarrow> bool \<Rightarrow> ('p, response) adm" where
  \<comment> \<open>what follows the check for the last administrator\<close>
  "delete_checked en i is_last =
     (if is_last then refuse 400 ''cannot delete the last admin user''
      else attempt en True (delete_user i) ''failed to delete user''
             (reply (json_response 200 (GObj [(''status'', GStr ''deleted'')]))))"

definition Users_Delete :: "'p admin_env \<Rightarrow> int option \<Rightarrow> ('p, response) adm" where
  "Users_Delete en userID =
     (case userID of
        None \<Rightarrow> refuse 400 ''invalid user ID''
      | Some i \<Rightarrow> do { l \<leftarrow> last_admin en i; delete_checked en i l })"

section \<open>Login and setup\<close>

definition auth_cookie :: "JWTManager \<Rightarrow> string \<Rightarrow> string \<times> string" where
  \<comment> \<open>\<^verbatim>\<open>SetAuthCookie\<close>; the expiry is in nanoseconds\<close>
  "auth_cookie j token =
     (''Set-Cookie'', AuthCookieName @ ''='' @ token @ ''; Path=/admin'' @
        (let age = sgn (jwt_expiry j) * (\<bar>jwt_expiry j\<bar> div 1000000000) in if age > 0 then ''; Max-Age='' @ show_int age else if age < 0 then ''; Max-Age=0'' else []) @
        ''; HttpOnly'' @ (if SecureCookies j then ''; Secure'' else []) @ ''; SameSite=Strict'')"

definition session_response :: "nat \<Rightarrow> JWTManager \<Rightarrow> string \<Rightarrow> user \<Rightarrow> response" where
  "session_response status j token u =
     (let resp = json_response status (GObj [(''token'', GStr token), (''user'', user_json u)])
      in resp\<lparr>RespHeaders := auth_cookie j token # RespHeaders resp\<rparr>)"

definition panel_token :: "'p admin_env \<Rightarrow> user \<Rightarrow> string + string" where
  "panel_token en u = (case en_jwt en of (lib, j) \<Rightarrow> Generate lib j (en_now en) (u_id u) (u_name u) (u_role u))"

definition HandleLogin :: "'p admin_env \<Rightarrow> (string \<times> string) option \<Rightarrow> ('p, response) adm" where
  "HandleLogin en decoded =
     (case decoded of
        None \<Rightarrow> refuse 400 ''invalid request body''
      | Some (username, password) \<Rightarrow>
          (if username = [] \<or> password = [] then refuse 400 ''username and password are required''
           else do { r \<leftarrow> adm_query en (find_user (\<lambda>u. u_name u = username));
                     (case r of
                        Inl _ \<Rightarrow> refuse 401 ''invalid credentials''
                      | Inr u \<Rightarrow>
                          (if \<not> CheckPassword (en_compare en) password (u_hash u) then refuse 401 ''invalid credentials''
                           else (case panel_token en u of
                                   Inl _ \<Rightarrow> refuse 500 ''failed to generate token''
                                 | Inr token \<Rightarrow> reply (session_response 200 (snd (en_jwt en)) token u)))) }))"

definition HandleLogout :: "('p, response) adm" where
  "HandleLogout =
     (let resp = json_response 200 (GObj [(''status'', GStr ''ok'')])
      in reply (resp\<lparr>RespHeaders := (''Set-Cookie'', AuthCookieName @ ''=; Path=/admin; Max-Age=0; HttpOnly; SameSite=Strict'') # RespHeaders resp\<rparr>))"

definition HandleSetupCheck :: "'p admin_env \<Rightarrow> ('p, response) adm" where
  "HandleSetupCheck en =
     do { r \<leftarrow> adm_query en (\<lambda>b. Inr (length (users b)));
          case r of
            Inl _ \<Rightarrow> refuse 500 ''internal error''
          | Inr n \<Rightarrow> reply (json_response 200 (GObj [(''needs_setup'', GBool (n = 0))])) }"

definition find_provider :: "int \<Rightarrow> admin_db \<Rightarrow> string + provider_row" where
  "find_provider i b = (case find (\<lambda>p. pr_id p = i) (llm_providers b) of Some p \<Rightarrow> Inr p | None \<Rightarrow> Inl ''sql: no rows in result set'')"

definition update_provider :: "int \<Rightarrow> string \<Rightarrow> string option \<Rightarrow> string option \<Rightarrow> bool \<Rightarrow> admin_db \<Rightarrow> (string + unit) \<times> admin_db" where
  \<comment> \<open>names are unique\<close>
  "update_provider i name key url enabled b =
     (if (\<exists>p \<in> set (llm_providers b). pr_id p = i) \<and> (\<exists>p \<in> set (llm_providers b). pr_name p = name \<and> pr_id p \<noteq> i)
      then (Inl ''UNIQUE constraint failed: llm_providers.name'', b)
      else (Inr (), b\<lparr>llm_providers := map (\<lambda>p. if pr_id p = i
              then p\<lparr>pr_name := name, pr_key := key, pr_url := url, pr_enabled := enabled\<rparr> else p) (llm_providers b)\<rparr>))"

definition set_defaults :: "(model_row \<Rightarrow> bool) \<Rightarrow> bool \<Rightarrow> admin_db \<Rightarrow> (string + unit) \<times> admin_db" where
  \<comment> \<open>\<^verbatim>\<open>UPDATE llm_models SET is_default = ... WHERE\<close>\<close>
  "set_defaults P d b = (Inr (), b\<lparr>llm_models := map (\<lambda>m. if P m then m\<lparr>md_default := d\<rparr> else m) (llm_models b)\<rparr>)"

definition models_of :: "int \<Rightarrow> admin_db \<Rightarrow> model_row list" where
  "models_of i b = sort_key md_id (filter (\<lambda>m. md_provider m = i) (llm_models b))"

definition encrypted :: "'p admin_env \<Rightarrow> string \<Rightarrow> ('p, string + string) adm" where
  "encrypted en plaintext =
     do { nonce \<leftarrow> adm_step (en_nonce en); reply (Encrypt (en_aead en) nonce plaintext) }"

definition register_live :: "'p admin_env \<Rightarrow> string \<Rightarrow> string \<Rightarrow> string \<Rightarrow> string option \<Rightarrow> ('p, unit) adm" where
  \<comment> \<open>builds a client and puts it into the registry\<close>
  "register_live en name kind key url =
     (case en_factory en of
        None \<Rightarrow> reply ()
      | Some f \<Rightarrow>
          (case f name kind key (case url of Some u \<Rightarrow> u | None \<Rightarrow> []) of
             None \<Rightarrow> reply ()
           | Some p \<Rightarrow> State_Monad.update (\<lambda>w. w\<lparr>ad_registry := RegisterLLM name p (ad_registry w)\<rparr>)))"

record setupRequest =
  su_username :: string
  su_password :: string
  su_display :: string
  su_provider :: int
  su_model :: string
  su_key :: string

definition setup_provider :: "'p admin_env \<Rightarrow> setupRequest \<Rightarrow> ('p, unit + provider_row option) adm" where
  \<comment> \<open>the provider configured, if any; failing to encrypt the key or to enable the provider is only logged\<close>
  "setup_provider en req =
     (if su_provider req \<le> 0 then reply (Inr None)
      else do { r \<leftarrow> adm_query en (find_provider (su_provider req));
        (case r of
           Inl _ \<Rightarrow> reply (Inr None)
         | Inr p \<Rightarrow>
             do { key \<leftarrow> (if su_key req = [] then reply None
                          else do { k \<leftarrow> encrypted en (su_key req); reply (case k of Inr c \<Rightarrow> Some c | Inl _ \<Rightarrow> None) });
                  _ \<leftarrow> adm_exec en (update_provider (pr_id p) (pr_name p) key (pr_url p) True);
                  a \<leftarrow> adm_exec en (set_defaults (\<lambda>_. True) False);
                  (case a of
                     Inl _ \<Rightarrow> reply (Inl ())
                   | Inr _ \<Rightarrow>
                       do { s \<leftarrow> adm_exec en (\<lambda>b. set_defaults (if su_model req \<noteq> []
                              then (\<lambda>m. md_model m = su_model req \<and> md_provider m = pr_id p)
                              else (\<lambda>m. [md_id m] = take 1 (map md_id (models_of (pr_id p) b)))) True b);
                            reply (case s of Inl _ \<Rightarrow> Inl () | Inr _ \<Rightarrow> Inr (Some p)) }) }) })"

definition rolled_back :: "'p admin_world \<Rightarrow> nat \<Rightarrow> string \<Rightarrow> ('p, response) adm" where
  "rolled_back w0 status msg = do { State_Monad.update (\<lambda>w. w\<lparr>ad_db := ad_db w0\<rparr>); refuse status msg }"

definition setup_tx :: "'p admin_env \<Rightarrow> setupRequest \<Rightarrow> string \<Rightarrow> 'p admin_world \<Rightarrow> ('p, response) adm" where
  \<comment> \<open>the transaction, begun in the given world; the client is registered when the function is left, whether
      the commit succeeded or not\<close>
  "setup_tx en req hash w0 =
     do { c \<leftarrow> adm_query en (\<lambda>b. Inr (length (users b)));
          (case c of
             Inl _ \<Rightarrow> rolled_back w0 500 ''internal error''
           | Inr n \<Rightarrow>
               (if n > 0 then rolled_back w0 409 ''setup already completed''
                else do { r \<leftarrow> adm_exec en (insert_user (su_username req) hash ''admin'' (su_display req));
                  (case r of
                     Inl _ \<Rightarrow> rolled_back w0 500 ''failed to create user''
                   | Inr u \<Rightarrow>
                       do { p \<leftarrow> setup_provider en req;
                         (case p of
                            Inl _ \<Rightarrow> rolled_back w0 500 ''failed to configure provider''
                          | Inr prov \<Rightarrow>
                              do { d \<leftarrow> adm_exec en (\<lambda>b. (Inr (), b));
                                resp \<leftarrow> (case d of
                                   Inl _ \<Rightarrow> rolled_back w0 500 ''failed to complete setup''
                                 | Inr _ \<Rightarrow>
                                     (case panel_token en u of
                                        Inl _ \<Rightarrow> refuse 500 ''user created but failed to generate token''
                                      | Inr token \<Rightarrow> reply (session_response 201 (snd (en_jwt en)) token u)));
                                (case prov of
                                   Some q \<Rightarrow> if su_key req \<noteq> [] then register_live en (pr_name q) (pr_type q) (su_key req) (pr_url q) else reply ()
                                 | None \<Rightarrow> reply ());
                                reply resp }) }) })) }"

definition HandleSetup :: "'p admin_env \<Rightarrow> setupRequest option \<Rightarrow> ('p, response) adm" where
  "HandleSetup en decoded =
     (case decoded of
        None \<Rightarrow> refuse 400 ''invalid request body''
      | Some req \<Rightarrow>
          (if su_username req = [] \<or> su_password req = [] then refuse 400 ''username and password are required''
           else (case HashPassword (en_bcrypt en) (su_password req) of
              Inl _ \<Rightarrow> refuse 500 ''failed to create user''
            | Inr hash \<Rightarrow>
                do { e \<leftarrow> adm_exec en (\<lambda>b. (Inr (), b));
                     w0 \<leftarrow> State_Monad.get;
                     case e of Inl _ \<Rightarrow> refuse 500 ''internal error'' | Inr _ \<Rightarrow> setup_tx en req hash w0 })))"

section \<open>Language-model providers\<close>

definition opt_json :: "string option \<Rightarrow> gval" where
  "opt_json v = (case v of Some s \<Rightarrow> GStr s | None \<Rightarrow> GNil)"

definition provider_json :: "provider_row \<Rightarrow> gval" where
  "provider_json p = GObj [(''id'', GInt (pr_id p)), (''name'', GStr (pr_name p)), (''provider_type'', GStr (pr_type p)),
     (''base_url'', opt_json (pr_url p)), (''is_enabled'', GBool (pr_enabled p)), (''config'', GStr (pr_config p))]"

definition catalog_model :: "model_row \<Rightarrow> gval" where
  "catalog_model m = GObj [(''id'', GInt (md_id m)), (''model_id'', GStr (md_model m)), (''display_name'', GStr (md_display m)),
     (''is_default'', GBool (md_default m)), (''supports_tools'', GBool (md_tools m))]"

definition model_json :: "model_row \<Rightarrow> gval" where
  \<comment> \<open>without the configuration, which no operation sets\<close>
  "model_json m = GObj [(''id'', GInt (md_id m)), (''provider_id'', GInt (md_provider m)), (''model_id'', GStr (md_model m)),
     (''display_name'', GStr (md_display m)), (''max_tokens'', GInt (md_tokens m)), (''supports_streaming'', GBool (md_streaming m)),
     (''supports_tools'', GBool (md_tools m)), (''is_default'', GBool (md_default m))]"

definition requires_key :: "'p admin_env \<Rightarrow> provider_row \<Rightarrow> bool" where
  "requires_key en p =
     (if pr_config p = [] then True
      else (case en_json en (pr_config p) of
              Some cfg \<Rightarrow> (case map_of cfg ''requires_api_key'' of Some (JBool b) \<Rightarrow> b | _ \<Rightarrow> True)
            | None \<Rightarrow> True))"

definition array_of :: "gval list \<Rightarrow> gval" where
  \<comment> \<open>a slice that was never appended to is encoded as null\<close>
  "array_of vs = (if vs = [] then GNil else GArr vs)"

fun catalog_entries :: "'p admin_env \<Rightarrow> provider_row list \<Rightarrow> ('p, gval list) adm" where
  \<comment> \<open>a provider whose models cannot be read is skipped\<close>
  "catalog_entries en [] = reply []"
| "catalog_entries en (p # ps) =
     do { r \<leftarrow> adm_query en (\<lambda>b. Inr (models_of (pr_id p) b));
          rest \<leftarrow> catalog_entries en ps;
          reply (case r of
            Inl _ \<Rightarrow> rest
          | Inr ms \<Rightarrow> GObj [(''id'', GInt (pr_id p)), (''name'', GStr (pr_name p)), (''provider_type'', GStr (pr_type p)),
              (''requires_api_key'', GBool (requires_key en p)), (''has_api_key'', GBool (pr_key p \<noteq> None)),
              (''models'', array_of (map catalog_model ms))] # rest) }"

definition HandleProviderCatalog :: "'p admin_env \<Rightarrow> ('p, response) adm" where
  "HandleProviderCatalog en =
     do { r \<leftarrow> adm_query en (\<lambda>b. Inr (sort_key pr_id (llm_providers b)));
          case r of
            Inl _ \<Rightarrow> refuse 500 ''failed to list providers''
          | Inr ps \<Rightarrow> do { es \<leftarrow> catalog_entries en ps; reply (json_response 200 (array_of es)) } }"

definition Providers_Catalog :: "'p admin_env \<Rightarrow> ('p, response) adm" where
  "Providers_Catalog en =
     do { r \<leftarrow> adm_query en (\<lambda>b. Inr (sort_key pr_id (llm_providers b)));
          case r of
            Inl _ \<Rightarrow> refuse 500 ''failed to list providers''
          | Inr ps \<Rightarrow> do { es \<leftarrow> catalog_entries en (filter (\<lambda>p. pr_enabled p \<and> pr_key p \<noteq> None) ps);
                          reply (json_response 200 (GArr es)) } }"

definition Providers_List :: "'p admin_env \<Rightarrow> ('p, response) adm" where
  "Providers_List en =
     do { r \<leftarrow> adm_query en (\<lambda>b. Inr (sort_key pr_id (llm_providers b)));
          case r of
            Inl _ \<Rightarrow> refuse 500 ''failed to list providers''
          | Inr ps \<Rightarrow> reply (json_response 200 (GArr (map provider_json ps))) }"

record createProviderRequest =
  cp_name :: string
  cp_type :: string
  cp_key :: string
  cp_url :: "string option"

record updateProviderRequest =
  up_name :: string
  up_key :: string
  up_url :: "string option"
  up_enabled :: bool

definition insert_provider :: "string \<Rightarrow> string \<Rightarrow> string option \<Rightarrow> string option \<Rightarrow> admin_db \<Rightarrow> (string + int) \<times> admin_db" where
  "insert_provider name kind key url b =
     (if \<exists>p \<in> set (llm_providers b). pr_name p = name then (Inl ''UNIQUE constraint failed: llm_providers.name'', b)
      else (let i = provider_seq b + 1
            in (Inr i, b\<lparr>llm_providers := llm_providers b @ [\<lparr>pr_id = i, pr_name = name, pr_type = kind, pr_key = key,
                 pr_url = url, pr_enabled = True, pr_config = ''{}''\<rparr>], provider_seq := i\<rparr>)))"

definition CreateProvider :: "'p admin_env \<Rightarrow> string \<Rightarrow> string \<Rightarrow> string option \<Rightarrow> string option \<Rightarrow> ('p, string + provider_row) adm" where
  \<comment> \<open>the row is read back after it was inserted\<close>
  "CreateProvider en name kind key url =
     do { r \<leftarrow> adm_exec en (insert_provider name kind key url);
          case r of Inl e \<Rightarrow> reply (Inl e) | Inr i \<Rightarrow> adm_query en (find_provider i) }"

definition provider_event :: "string \<Rightarrow> provider_row \<Rightarrow> ('p, unit) adm" where
  "provider_event what p =
     State_Monad.update (\<lambda>w. w\<lparr>ad_events := ad_events w @ [\<lparr>EvType = what,
       EvPayload = [(''provider_id'', JNum (of_int (pr_id p))), (''name'', JStr (pr_name p))]\<rparr>]\<rparr>)"

definition store_key :: "'p admin_env \<Rightarrow> string \<Rightarrow> string option \<Rightarrow> ('p, string + string option) adm" where
  \<comment> \<open>the encryption of a given key, otherwise the old one\<close>
  "store_key en key old =
     (if key = [] then reply (Inr old)
      else do { k \<leftarrow> encrypted en key; reply (map_sum id Some k) })"

definition Providers_Create :: "'p admin_env \<Rightarrow> createProviderRequest option \<Rightarrow> ('p, response) adm" where
  "Providers_Create en decoded =
     (case decoded of
        None \<Rightarrow> refuse 400 ''invalid request body''
      | Some req \<Rightarrow>
          (if cp_name req = [] \<or> cp_type req = [] then refuse 400 ''name and provider_type are required''
           else if cp_type req = ''openai'' \<and> cp_url req \<in> {None, Some []}
           then refuse 400 ''base_url is required for OpenAI-compatible providers''
           else do { k \<leftarrow> store_key en (cp_key req) None;
             (case k of
                Inl _ \<Rightarrow> refuse 500 ''failed to encrypt api key''
              | Inr key \<Rightarrow>
                  do { r \<leftarrow> CreateProvider en (cp_name req) (cp_type req) key (cp_url req);
                    (case r of
                       Inl _ \<Rightarrow> refuse 500 ''failed to create provider''
                     | Inr p \<Rightarrow>
                         do { (if cp_key req \<noteq> [] then register_live en (cp_name req) (cp_type req) (cp_key req) (cp_url req) else reply ());
                              provider_event ''provider.added'' p;
                              reply (json_response 201 (provider_json p)) }) }) }))"

definition Providers_Get :: "'p admin_env \<Rightarrow> int option \<Rightarrow> ('p, response) adm" where
  "Providers_Get en providerID =
     (case providerID of
        None \<Rightarrow> refuse 400 ''invalid provider ID''
      | Some i \<Rightarrow>
          do { r \<leftarrow> adm_query en (find_provider i);
               case r of Inl _ \<Rightarrow> refuse 404 ''provider not found'' | Inr p \<Rightarrow> reply (json_response 200 (provider_json p)) })"

definition reregister :: "'p admin_env \<Rightarrow> updateProviderRequest \<Rightarrow> provider_row \<Rightarrow> provider_row \<Rightarrow> ('p, unit) adm" where
  \<comment> \<open>with the row before and after the update\<close>
  "reregister en req old p =
     (let key = (if up_key req \<noteq> [] then up_key req
                 else (case pr_key old of Some k \<Rightarrow> (case Decrypt (en_aead en) k of Inr d \<Rightarrow> d | Inl _ \<Rightarrow> []) | None \<Rightarrow> []))
      in if key = [] then reply ()
         else register_live en (if up_name req = [] then pr_name p else up_name req) (pr_type p) key
                (case up_url req of Some u \<Rightarrow> Some u | None \<Rightarrow> pr_url p))"

definition Providers_Update :: "'p admin_env \<Rightarrow> int option \<Rightarrow> updateProviderRequest option \<Rightarrow> ('p, response) adm" where
  "Providers_Update en providerID decoded =
     (case (providerID, decoded) of
        (None, _) \<Rightarrow> refuse 400 ''invalid provider ID''
      | (Some _, None) \<Rightarrow> refuse 400 ''invalid request body''
      | (Some i, Some req) \<Rightarrow>
          do { r \<leftarrow> adm_query en (find_provider i);
            (case r of
               Inl _ \<Rightarrow> refuse 404 ''provider not found''
             | Inr old \<Rightarrow>
                 (if pr_type old = ''openai'' \<and> (case up_url req of Some u \<Rightarrow> Some u | None \<Rightarrow> pr_url old) \<in> {None, Some []}
                  then refuse 400 ''base_url is required for OpenAI-compatible providers''
                  else do { k \<leftarrow> store_key en (up_key req) (pr_key old);
                    (case k of
                       Inl _ \<Rightarrow> refuse 500 ''failed to encrypt api key''
                     | Inr key \<Rightarrow>
                         do { u \<leftarrow> adm_exec en (update_provider i (up_name req) key (up_url req) (up_enabled req));
                           (case u of
                              Inl _ \<Rightarrow> refuse 500 ''failed to update provider''
                            | Inr _ \<Rightarrow>
                                do { q \<leftarrow> adm_query en (find_provider i);
                                  (case q of
                                     Inl _ \<Rightarrow> refuse 500 ''provider updated but failed to reload''
                                   | Inr p \<Rightarrow>
                                       do { (if en_factory en \<noteq> None then reregister en req old p else reply ());
                                            provider_event ''provider.updated'' p;
                                            reply (json_response 200 (provider_json p)) }) }) }) })) })"

definition delete_provider :: "bool \<Rightarrow> int \<Rightarrow> admin_db \<Rightarrow> (string + unit) \<times> admin_db" where
  \<comment> \<open>the models follow if the connection enforces foreign keys\<close>
  "delete_provider fk i b =
     (Inr (), b\<lparr>llm_providers := filter (\<lambda>p. pr_id p \<noteq> i) (llm_providers b),
        llm_models := (if fk then filter (\<lambda>m. md_provider m \<noteq> i) (llm_models b) else llm_models b)\<rparr>)"

definition Providers_Delete :: "'p admin_env \<Rightarrow> int option \<Rightarrow> ('p, response) adm" where
  "Providers_Delete en providerID =
     (case providerID of
        None \<Rightarrow> refuse 400 ''invalid provider ID''
      | Some i \<Rightarrow> attempt en True (delete_provider (en_foreign_keys en) i) ''failed to delete provider''
                    (reply (json_response 200 (GObj [(''status'', GStr ''deleted'')]))))"

definition test_failed :: "string \<Rightarrow> ('p, response) adm" where
  "test_failed msg = reply (json_response 200 (GObj [(''success'', GBool False), (''error'', GStr msg)]))"

definition live_provider :: "'p admin_env \<Rightarrow> provider_row \<Rightarrow> ('p, string + 'p) adm" where
  \<comment> \<open>from the registry, or built from the stored key and put there\<close>
  "live_provider en p =
     do { w \<leftarrow> State_Monad.get;
          (case GetLLM (ad_registry w) (pr_name p) of
             Inr c \<Rightarrow> reply (Inr c)
           | Inl _ \<Rightarrow>
               (case pr_key p of
                  None \<Rightarrow> reply (Inl ''no API key configured for this provider'')
                | Some k \<Rightarrow>
                    (case Decrypt (en_aead en) k of
                       Inl _ \<Rightarrow> reply (Inl ''failed to decrypt API key'')
                     | Inr key \<Rightarrow>
                         (case en_factory en of
                            None \<Rightarrow> reply (Inl ''provider factory not available'')
                          | Some f \<Rightarrow>
                              (case f (pr_name p) (pr_type p) key (case pr_url p of Some u \<Rightarrow> u | None \<Rightarrow> []) of
                                 None \<Rightarrow> reply (Inl (''unsupported provider type: '' @ pr_type p))
                               | Some c \<Rightarrow>
                                   do { State_Monad.update (\<lambda>w. w\<lparr>ad_registry := RegisterLLM (pr_name p) c (ad_registry w)\<rparr>);
                                        reply (Inr c) }))))) }"

definition ping_model :: "model_row list \<Rightarrow> string" where
  \<comment> \<open>the default one, or the first; empty when there is none\<close>
  "ping_model ms =
     (let d = (case find md_default ms of Some m \<Rightarrow> md_model m | None \<Rightarrow> [])
      in if d = [] then (case ms of m # _ \<Rightarrow> md_model m | [] \<Rightarrow> []) else d)"

definition Providers_Test :: "'p admin_env \<Rightarrow> int option \<Rightarrow> ('p, response) adm" where
  "Providers_Test en providerID =
     (case providerID of
        None \<Rightarrow> refuse 400 ''invalid provider ID''
      | Some i \<Rightarrow>
          do { r \<leftarrow> adm_query en (find_provider i);
            (case r of
               Inl _ \<Rightarrow> refuse 404 ''provider not found''
             | Inr p \<Rightarrow>
                 do { l \<leftarrow> live_provider en p;
                   (case l of
                      Inl e \<Rightarrow> test_failed e
                    | Inr c \<Rightarrow>
                        do { ms \<leftarrow> adm_query en (\<lambda>b. Inr (models_of i b));
                          (let m = ping_model (case ms of Inr xs \<Rightarrow> xs | Inl _ \<Rightarrow> []) in
                           if m = [] then test_failed ''no models configured for this provider''
                           else (case en_ping en c m of
                                   Some e \<Rightarrow> test_failed e
                                 | None \<Rightarrow> reply (json_response 200 (GObj [(''success'', GBool True)])))) }) }) })"

definition Providers_Models :: "'p admin_env \<Rightarrow> int option \<Rightarrow> ('p, response) adm" where
  "Providers_Models en providerID =
     (case providerID of
        None \<Rightarrow> refuse 400 ''invalid provider ID''
      | Some i \<Rightarrow>
          do { ms \<leftarrow> adm_query en (\<lambda>b. Inr (models_of i b));
               case ms of Inl _ \<Rightarrow> refuse 500 ''failed to list models''
                        | Inr xs \<Rightarrow> reply (json_response 200 (GArr (map model_json xs))) })"

definition insert_model :: "bool \<Rightarrow> model_row \<Rightarrow> admin_db \<Rightarrow> (string + model_row) \<times> admin_db" where
  \<comment> \<open>the identifier is given by the table; a provider has a model once\<close>
  "insert_model fk m b =
     (if \<exists>n \<in> set (llm_models b). md_provider n = md_provider m \<and> md_model n = md_model m
      then (Inl ''UNIQUE constraint failed: llm_models.provider_id, llm_models.model_id'', b)
      else if fk \<and> (\<forall>p \<in> set (llm_providers b). pr_id p \<noteq> md_provider m) then (Inl ''FOREIGN KEY constraint failed'', b)
      else (let n = m\<lparr>md_id := model_seq b + 1\<rparr>
            in (Inr n, b\<lparr>llm_models := llm_models b @ [n], model_seq := model_seq b + 1\<rparr>)))"

definition CreateModel :: "'p admin_env \<Rightarrow> int option \<Rightarrow> model_row option \<Rightarrow> ('p, response) adm" where
  \<comment> \<open>of the decoded body the identifier and the provider are not read; failing to clear the defaults is ignored\<close>
  "CreateModel en providerID decoded =
     (case (providerID, decoded) of
        (None, _) \<Rightarrow> refuse 400 ''invalid provider ID''
      | (Some _, None) \<Rightarrow> refuse 400 ''invalid request body''
      | (Some i, Some req) \<Rightarrow>
          (if md_model req = [] then refuse 400 ''model_id is required''
           else do { (if md_default req then adm_exec en (set_defaults (\<lambda>m. md_provider m = i) False) else reply (Inr ()));
                     r \<leftarrow> adm_exec en (insert_model (en_foreign_keys en) (req\<lparr>md_provider := i,
                       md_display := (if md_display req = [] then md_model req else md_display req),
                       md_tokens := (if md_tokens req = 0 then 4096 else md_tokens req)\<rparr>));
                     case r of Inl _ \<Rightarrow> refuse 500 ''failed to create model''
                             | Inr m \<Rightarrow> reply (json_response 201 (model_json m)) }))"

definition DeleteModel :: "'p admin_env \<Rightarrow> int option \<Rightarrow> ('p, response) adm" where
  "DeleteModel en modelID =
     (case modelID of
        None \<Rightarrow> refuse 400 ''invalid model ID''
      | Some i \<Rightarrow> attempt en True (\<lambda>b. (Inr (), b\<lparr>llm_models := filter (\<lambda>m. md_id m \<noteq> i) (llm_models b)\<rparr>)) ''failed to delete model''
                    (reply (json_response 200 (GObj [(''status'', GStr ''deleted'')]))))"

definition SetDefaultModel :: "'p admin_env \<Rightarrow> int option \<Rightarrow> int option \<Rightarrow> ('p, response) adm" where
  "SetDefaultModel en providerID modelID =
     (case (providerID, modelID) of
        (None, _) \<Rightarrow> refuse 400 ''invalid provider ID''
      | (Some _, None) \<Rightarrow> refuse 400 ''invalid model ID''
      | (Some i, Some k) \<Rightarrow>
          attempt en True (set_defaults (\<lambda>m. md_provider m = i) False) ''failed to update default model''
            (attempt en True (set_defaults (\<lambda>m. md_id m = k \<and> md_provider m = i) True) ''failed to set default model''
              (reply (json_response 200 (GObj [(''status'', GStr ''default set'')])))))"

section \<open>Answers to questions\<close>

definition open_site :: "'p admin_env \<Rightarrow> int \<Rightarrow> ('p, string + panel_db) adm" where
  \<comment> \<open>the manager opens the file of a site that is not open yet\<close>
  "open_site en i =
     do { w \<leftarrow> State_Monad.get;
          (case map_of (ad_sites w) i of
             Some p \<Rightarrow> reply (Inr p)
           | None \<Rightarrow>
               (case en_stored en i of
                  Inl e \<Rightarrow> reply (Inl e)
                | Inr p \<Rightarrow> do { State_Monad.update (\<lambda>w. w\<lparr>ad_sites := ad_sites w @ [(i, p)]\<rparr>); reply (Inr p) })) }"

definition site_exec :: "'p admin_env \<Rightarrow> int \<Rightarrow> (panel_db \<Rightarrow> panel_db) \<Rightarrow> ('p, string option) adm" where
  "site_exec en i f =
     do { e \<leftarrow> adm_step (en_fault en);
          (if e = None
           then State_Monad.update (\<lambda>w. w\<lparr>ad_sites := map (\<lambda>(j, p). (j, if j = i then f p else p)) (ad_sites w)\<rparr>)
           else reply ());
          reply e }"

definition site_query :: "'p admin_env \<Rightarrow> int \<Rightarrow> (panel_db \<Rightarrow> 'a) \<Rightarrow> ('p, 'a option) adm" where
  "site_query en i f =
     do { e \<leftarrow> adm_step (en_fault en);
          w \<leftarrow> State_Monad.get;
          reply (if e = None then map_option f (map_of (ad_sites w) i) else None) }"

definition has_question :: "int \<Rightarrow> panel_db \<Rightarrow> bool" where
  "has_question q p \<longleftrightarrow> q \<in> set (map q_id (questions (pd_site p)))"

fun site_with_question :: "'p admin_env \<Rightarrow> int \<Rightarrow> int list \<Rightarrow> ('p, int) adm" where
  \<comment> \<open>the first open site that has the question, 0 if none\<close>
  "site_with_question en q [] = reply 0"
| "site_with_question en q (i # is) =
     do { r \<leftarrow> site_query en i (has_question q);
          if r = Some True then reply i else site_with_question en q is }"

definition store_secret :: "string \<Rightarrow> string \<Rightarrow> panel_db \<Rightarrow> panel_db" where
  "store_secret name ciphertext p = p\<lparr>pd_secrets := AList.update name ciphertext (pd_secrets p)\<rparr>"

definition secret_event :: "'p admin_env \<Rightarrow> string \<Rightarrow> int \<Rightarrow> ('p, unit) adm" where
  "secret_event en name q =
     (if en_bus en
      then State_Monad.update (\<lambda>w. w\<lparr>ad_events := ad_events w @ [\<lparr>EvType = ''secret.stored'',
             EvPayload = [(''name'', JStr name), (''question_id'', JNum (of_int q))]\<rparr>]\<rparr>)
      else reply ())"

fun store_fields ::
    "'p admin_env \<Rightarrow> int \<Rightarrow> int \<Rightarrow> (string \<times> string) list \<Rightarrow> (string \<times> string \<times> string \<times> string) list \<Rightarrow> ('p, string list) adm" where
  \<comment> \<open>the labels of the fields stored; secrets are encrypted, other values go to the memory\<close>
  "store_fields en sid q vs [] = reply []"
| "store_fields en sid q vs ((name, label, kind, secret) # fs) =
     (case map_of vs name of
        Some (c # cs) \<Rightarrow>
          (if kind = ''secret'' \<and> secret \<noteq> []
           then do { k \<leftarrow> encrypted en (c # cs);
                     (case k of
                        Inl _ \<Rightarrow> store_fields en sid q vs fs
                      | Inr x \<Rightarrow> do { _ \<leftarrow> site_exec en sid (store_secret secret x); secret_event en secret q;
                                    ls \<leftarrow> store_fields en sid q vs fs; reply (label # ls) }) }
           else do { _ \<leftarrow> site_exec en sid (\<lambda>p. p\<lparr>pd_memory := AList.update name (c # cs) (pd_memory p)\<rparr>);
                     ls \<leftarrow> store_fields en sid q vs fs; reply (label # ls) })
      | _ \<Rightarrow> store_fields en sid q vs fs)"

definition single_secret :: "'p admin_env \<Rightarrow> int \<Rightarrow> question_row \<Rightarrow> string option \<Rightarrow> string \<Rightarrow> ('p, response + string) adm" where
  "single_secret en sid x secret txt =
     (case secret of
        Some (c # cs) \<Rightarrow>
          (if q_type x = ''secret''
           then do { k \<leftarrow> encrypted en txt;
                     (case k of
                        Inl _ \<Rightarrow> reply (Inl (error_response 500 ''failed to encrypt secret''))
                      | Inr e \<Rightarrow> do { _ \<leftarrow> site_exec en sid (store_secret (c # cs) e); secret_event en (c # cs) (q_id x);
                                    reply (Inr (''Secret '' @ [CHR 0x27] @ (c # cs) @ [CHR 0x27] @ '' configured'')) }) }
           else reply (Inr txt))
      | _ \<Rightarrow> reply (Inr txt))"

definition keep_values :: "'p admin_env \<Rightarrow> int \<Rightarrow> int \<Rightarrow> string \<Rightarrow> ('p, response + string) adm" where
  \<comment> \<open>stores the values of the answer; the text that is recorded as the answer\<close>
  "keep_values en sid q txt =
     do { d \<leftarrow> site_query en sid (\<lambda>p. (find (\<lambda>x. q_id x = q) (questions (pd_site p)), map_of (pd_secret_name p) q, map_of (pd_fields p) q));
       (case d of
          Some (Some x, secret, fdefs) \<Rightarrow>
            (if fdefs \<notin> {None, Some [], Some ''[]''}
             then (case (en_fields en (the fdefs), en_values en txt) of
                     (Some fs, Some vs) \<Rightarrow> do { ls \<leftarrow> store_fields en sid q vs fs; reply (Inr (''Configured: '' @ join '', '' ls)) }
                   | _ \<Rightarrow> reply (Inr txt))
             else single_secret en sid x secret txt)
        | _ \<Rightarrow> reply (Inr txt)) }"

definition answered_texts :: "panel_db \<Rightarrow> string" where
  \<comment> \<open>the answers of all answered questions, by question\<close>
  "answered_texts p =
     join [nl] (concat (map (\<lambda>x. map (\<lambda>a. q_question x @ '': '' @ a_answer a) (filter (\<lambda>a. a_question_id a = q_id x) (answers (pd_site p))))
       (sort_key q_id (filter (\<lambda>x. q_status x = ''answered'') (questions (pd_site p))))))"

definition wake_brain :: "'p admin_env \<Rightarrow> int \<Rightarrow> int \<Rightarrow> int \<Rightarrow> ('p, unit) adm" where
  \<comment> \<open>once no question is pending\<close>
  "wake_brain en sid q waiting =
     (if en_bus en \<and> waiting = 0
      then do { t \<leftarrow> site_query en sid answered_texts;
                (case t of
                   Some txt \<Rightarrow> State_Monad.update (\<lambda>w. w\<lparr>ad_events := ad_events w @ [\<lparr>EvType = ''question.answered'',
                      EvPayload = [(''question_id'', JNum (of_int q)), (''answer'', JStr txt)]\<rparr>]\<rparr>)
                 | None \<Rightarrow> reply ()) }
      else reply ())"

definition record_answer :: "'p admin_env \<Rightarrow> int \<Rightarrow> int \<Rightarrow> string \<Rightarrow> ('p, response) adm" where
  "record_answer en sid q txt =
     do { e \<leftarrow> site_exec en sid (\<lambda>p. p\<lparr>pd_site := (pd_site p)\<lparr>questions :=
              map (\<lambda>x. if q_id x = q then x\<lparr>q_status := ''answered''\<rparr> else x) (questions (pd_site p))\<rparr>\<rparr>);
       (if e \<noteq> None then refuse 500 ''failed to answer question''
        else do { _ \<leftarrow> site_exec en sid (\<lambda>p. p\<lparr>pd_site := (pd_site p)\<lparr>answers := answers (pd_site p) @
                    [\<lparr>a_question_id = q, a_answer = txt, a_created_at = en_now en\<rparr>]\<rparr>\<rparr>);
                  n \<leftarrow> site_query en sid (\<lambda>p. int (length (filter (\<lambda>x. q_status x = ''pending'') (questions (pd_site p)))));
                  (let waiting = (case n of Some k \<Rightarrow> k | None \<Rightarrow> - 1) in
                   do { wake_brain en sid q waiting;
                        reply (json_response 200 (GObj [(''id'', GInt q), (''status'', GStr ''answered''), (''pending'', GInt waiting)])) }) }) }"

definition Questions_Answer :: "'p admin_env \<Rightarrow> int option \<Rightarrow> (string \<times> int) option \<Rightarrow> ('p, response) adm" where
  \<comment> \<open>the decoded body: the answer and the site, 0 when none is given\<close>
  "Questions_Answer en questionID decoded =
     (case (questionID, decoded) of
        (None, _) \<Rightarrow> refuse 400 ''invalid question ID''
      | (Some _, None) \<Rightarrow> refuse 400 ''invalid request body''
      | (Some q, Some (txt, given)) \<Rightarrow>
          (if txt = [] then refuse 400 ''answer is required''
           else do { w \<leftarrow> State_Monad.get;
             sid \<leftarrow> (if given \<noteq> 0 then reply given else site_with_question en q (map fst (ad_sites w)));
             (if sid = 0 then refuse 404 ''question not found''
              else do { opened \<leftarrow> open_site en sid;
                (case opened of
                   Inl _ \<Rightarrow> refuse 500 ''failed to open sid database''
                 | Inr _ \<Rightarrow>
                     do { k \<leftarrow> keep_values en sid q txt;
                          (case k of Inl resp \<Rightarrow> reply resp | Inr recorded \<Rightarrow> record_answer en sid q recorded) }) }) }))"

section \<open>Who passes\<close>

definition public_routes :: "string list" where
  "public_routes = [''setup/check'', ''setup/providers'', ''auth/login'', ''auth/logout'', ''setup'']"

definition session_posts :: "string list" where
  "session_posts = [''chat/{siteID}/stream'', ''questions/{questionID}/answer'']"

definition writes :: "string \<Rightarrow> string \<Rightarrow> bool" where
  \<comment> \<open>a route that changes something, other than the public ones and the two open to every session\<close>
  "writes m p \<longleftrightarrow> m \<in> set [''PUT'', ''DELETE''] \<or> m = ''POST'' \<and> p \<notin> set public_routes \<and> p \<notin> set session_posts"

lemma find_route_member:
  assumes "find_route r = Inr (p, g)"
  shows "(ReqMethod r, p, g) \<in> set admin_routes"
proof -
  obtain m where "find (\<lambda>(m, p, g). m = ReqMethod r) (matching (trim_prefix ''/admin/api/'' (URLPath r))) = Some (m, p, g)"
    using assms by (auto simp: find_route_def Let_def split: option.splits)
  then have "m = ReqMethod r" "(m, p, g) \<in> set (matching (trim_prefix ''/admin/api/'' (URLPath r)))"
    by (auto simp: find_Some_iff in_set_conv_nth)
  then show ?thesis by (simp add: matching_def)
qed

lemma route_guards:
  "list_all (\<lambda>(m, p, g). (writes m p \<longrightarrow> g = AdminOnly) \<and> (g \<in> set [Anyone, Limited] \<longrightarrow> p \<in> set public_routes)) admin_routes"
  by code_simp

lemma gate_guard:
  assumes "fst (admin_gate lib j now limiter r) = Inr p"
  obtains g where "find_route r = Inr (p, g)"
    "g = AdminOnly \<Longrightarrow> \<exists>c. Authenticator lib j r = Inr c \<and> ClaimRole c = ''admin''"
    "g \<noteq> Anyone \<Longrightarrow> g \<noteq> Limited \<Longrightarrow> \<exists>c. Authenticator lib j r = Inr c"
  using assms that
  by (fastforce simp: admin_gate_def RequireRole_def split: sum.splits guard.splits prod.splits option.splits if_splits)

text \<open>
  C26. What the gate of the panel lets through: every handler but the login, the logout, the setup and its two
  questions gets only requests with a valid token, and every handler that changes something, except the
  chat and the answers to questions, only requests whose token has the role of an administrator.
\<close>
theorem admin_gate_guards:
  assumes "fst (admin_gate lib j now limiter r) = Inr p"
  shows "(p \<in> set public_routes \<or> (\<exists>c. Authenticator lib j r = Inr c)) \<and>
    (\<not> writes (ReqMethod r) p \<or> (\<exists>c. Authenticator lib j r = Inr c \<and> ClaimRole c = ''admin''))"
proof -
  from gate_guard [OF assms] obtain g where g: "find_route r = Inr (p, g)"
    "g = AdminOnly \<Longrightarrow> \<exists>c. Authenticator lib j r = Inr c \<and> ClaimRole c = ''admin''"
    "g \<noteq> Anyone \<Longrightarrow> g \<noteq> Limited \<Longrightarrow> \<exists>c. Authenticator lib j r = Inr c" by blast
  have "(writes (ReqMethod r) p \<longrightarrow> g = AdminOnly) \<and> (g = Anyone \<or> g = Limited \<longrightarrow> p \<in> set public_routes)"
    using bspec [OF route_guards [unfolded list_all_iff] find_route_member [OF g(1)]] by simp
  with g(2,3) show ?thesis by (cases g) auto
qed

lemma visitor_claims:
  assumes "env_jwt (au_api env) = Some (lib, j)" "0 < jwt_expiry j"
    and law: "\<And>c t. SignedString lib c (jwt_secret j) = Inr t \<Longrightarrow> au_now env < ExpiresAt c \<Longrightarrow>
      ParseWithClaims lib (\<lambda>hmac. if hmac then Inr (jwt_secret j) else Inl ''unexpected signing method'') t = Inr (c, True)"
    and "generateUserToken env i name role = Inr token"
  shows "\<exists>c. ValidateToken lib j token = Inr c \<and> ClaimSiteID c = au_site env \<and> UserID c = i \<and> ClaimRole c = role"
proof -
  let ?c = "\<lparr>ClaimSiteID = au_site env, UserID = i, Username = name, ClaimRole = role, ExpiresAt = au_now env + jwt_expiry j, IssuedAt = au_now env\<rparr>"
  have "SignedString lib ?c (jwt_secret j) = Inr token"
    using assms(1,4) by (simp add: generateUserToken_def GenerateForSite_def)
  from law [OF this] assms(2) show ?thesis by (simp add: ValidateToken_def)
qed

lemma bearer_token: "Header r ''Authorization'' = ''Bearer '' @ token \<Longrightarrow> request_token r = Inr token"
  by (simp add: request_token_def has_prefix_def)
section \<open>Running the handlers\<close>

lemma run_adm_step [simp]: "run_state (adm_step f) w = (f (ad_tick w), w\<lparr>ad_tick := Suc (ad_tick w)\<rparr>)"
  by (simp add: adm_step_def)

lemma run_set [simp]: "run_state (State_Monad.set s) w = ((), s)"
  by (simp add: State_Monad.set_def)

lemma run_adm_exec:
  "run_state (adm_exec en f) w =
     (case en_fault en (ad_tick w) of
        None \<Rightarrow> (fst (f (ad_db w)), w\<lparr>ad_tick := Suc (ad_tick w), ad_db := snd (f (ad_db w))\<rparr>)
      | Some e \<Rightarrow> (Inl e, w\<lparr>ad_tick := Suc (ad_tick w)\<rparr>))"
  by (simp add: adm_exec_def run_bind split: option.split)

lemma run_adm_query:
  "run_state (adm_query en f) w =
     ((case en_fault en (ad_tick w) of None \<Rightarrow> f (ad_db w) | Some e \<Rightarrow> Inl e), w\<lparr>ad_tick := Suc (ad_tick w)\<rparr>)"
  by (simp add: adm_query_def run_adm_exec split: option.split)

lemma run_refuse [simp]: "run_state (refuse status msg) w = (error_response status msg, w)"
  by (simp add: refuse_def)

lemmas adm_simps = run_bind run_adm_exec run_adm_query

definition db_keeps :: "(admin_db \<Rightarrow> bool) \<Rightarrow> ('p, 'a) adm \<Rightarrow> bool" where
  "db_keeps I m \<longleftrightarrow> (\<forall>w. I (ad_db w) \<longrightarrow> I (ad_db (snd (run_state m w))))"

named_theorems keeps_rules \<open>syntax-directed rules for invariants of the tables\<close>

lemma keeps_bind [keeps_rules]: "db_keeps I m \<Longrightarrow> (\<And>a. db_keeps I (f a)) \<Longrightarrow> db_keeps I (State_Monad.bind m f)"
  by (simp add: db_keeps_def run_bind)

lemma keeps_exec: "(\<And>b. I b \<Longrightarrow> I (snd (f b))) \<Longrightarrow> db_keeps I (adm_exec en f)"
  by (simp add: db_keeps_def run_adm_exec split: option.split)

lemma keeps_read [keeps_rules]:
  "db_keeps I (reply a)" "db_keeps I (refuse status msg)" "db_keeps I (adm_query en g)" "db_keeps I (adm_step h)"
  "db_keeps I (State_Monad.get)"
  by (simp_all add: db_keeps_def run_adm_query)

lemma keeps_update [keeps_rules]:
  "db_keeps I (State_Monad.update (\<lambda>w. w\<lparr>ad_registry := r w\<rparr>))" "db_keeps I (State_Monad.update (\<lambda>w. w\<lparr>ad_events := e w\<rparr>))"
  by (simp_all add: db_keeps_def)

lemma keeps_if [keeps_rules]: "(c \<Longrightarrow> db_keeps I m) \<Longrightarrow> (\<not> c \<Longrightarrow> db_keeps I n) \<Longrightarrow> db_keeps I (if c then m else n)"
  by simp

lemma keeps_option [keeps_rules]:
  "(x = None \<Longrightarrow> db_keeps I m) \<Longrightarrow> (\<And>a. x = Some a \<Longrightarrow> db_keeps I (f a)) \<Longrightarrow> db_keeps I (case x of None \<Rightarrow> m | Some a \<Rightarrow> f a)"
  by (cases x) auto

lemma keeps_sum [keeps_rules]:
  "(\<And>e. x = Inl e \<Longrightarrow> db_keeps I (g e)) \<Longrightarrow> (\<And>a. x = Inr a \<Longrightarrow> db_keeps I (f a)) \<Longrightarrow> db_keeps I (case x of Inl e \<Rightarrow> g e | Inr a \<Rightarrow> f a)"
  by (cases x) auto

lemma keeps_prod [keeps_rules]: "(\<And>a b. x = (a, b) \<Longrightarrow> db_keeps I (f a b)) \<Longrightarrow> db_keeps I (case x of (a, b) \<Rightarrow> f a b)"
  by (cases x) auto

lemma keeps_attempt [keeps_rules]:
  "(\<And>b. c \<Longrightarrow> I b \<Longrightarrow> I (snd (f b))) \<Longrightarrow> db_keeps I m \<Longrightarrow> db_keeps I (attempt en c f msg m)"
  unfolding attempt_def by (intro keeps_rules keeps_exec)

section \<open>The last administrator\<close>

definition users_ok :: "admin_db \<Rightarrow> bool" where
  "users_ok b \<longleftrightarrow> distinct (map u_id (users b)) \<and> distinct (map u_name (users b)) \<and> (\<forall>i \<in> set (map u_id (users b)). i \<le> user_seq b)"

definition admins_ok :: "admin_db \<Rightarrow> bool" where
  "admins_ok b \<longleftrightarrow> users_ok b \<and> 1 \<le> admin_count b"

lemma insert_user_ok: "users_ok b \<Longrightarrow> users_ok (snd (insert_user n h r d b))"
  by (auto simp: users_ok_def insert_user_def Let_def)

lemma insert_user_admins: "admins_ok b \<Longrightarrow> admins_ok (snd (insert_user n h r d b))"
  using insert_user_ok [of b n h r d] by (auto simp: admins_ok_def admin_count_def insert_user_def Let_def)

lemma admin_count_pos: "1 \<le> admin_count b \<longleftrightarrow> (\<exists>u \<in> set (users b). u_role u = ''admin'')"
  by (simp add: admin_count_def Suc_le_eq filter_empty_conv)

lemma update_user_ok:
  "users_ok b \<Longrightarrow> (\<And>u. u_id (f u) = u_id u \<and> u_name (f u) = u_name u) \<Longrightarrow> users_ok (snd (update_user i f b))"
proof -
  assume f: "\<And>u. u_id (f u) = u_id u \<and> u_name (f u) = u_name u" and b: "users_ok b"
  have "map u_id (users (snd (update_user i f b))) = map u_id (users b)" "map u_name (users (snd (update_user i f b))) = map u_name (users b)"
    "user_seq (snd (update_user i f b)) = user_seq b"
    using f by (simp_all add: update_user_def)
  with b show ?thesis by (simp only: users_ok_def) blast
qed

lemma update_user_admins:
  assumes "admins_ok b" "\<And>u. u_id (f u) = u_id u \<and> u_name (f u) = u_name u \<and> (u_role u = ''admin'' \<longrightarrow> u_role (f u) = ''admin'')"
  shows "admins_ok (snd (update_user i f b))"
proof -
  obtain u where "u \<in> set (users b)" "u_role u = ''admin''" using assms(1) unfolding admins_ok_def admin_count_pos by blast
  then have "(if u_id u = i then f u else u) \<in> set (users (snd (update_user i f b)))" "u_role (if u_id u = i then f u else u) = ''admin''"
    using assms(2) by (auto simp: update_user_def)
  then show ?thesis using assms update_user_ok [of b f i] unfolding admins_ok_def admin_count_pos by blast
qed

lemma another_admin:
  assumes "users_ok b" "\<not> admin_count b \<le> 1"
  shows "\<exists>u \<in> set (users b). u_role u = ''admin'' \<and> u_id u \<noteq> i"
proof -
  let ?as = "filter (\<lambda>u. u_role u = ''admin'') (users b)"
  have "distinct (map u_id ?as)" using assms(1) by (simp add: users_ok_def distinct_map_filter)
  moreover obtain x y as where as: "?as = x # y # as"
    using assms(2) by (cases ?as; cases "tl ?as") (auto simp: admin_count_def)
  ultimately have "u_id x \<noteq> i \<or> u_id y \<noteq> i" by auto
  moreover have "x \<in> set ?as" "y \<in> set ?as" using as by simp_all
  ultimately show ?thesis by auto
qed
lemma last_admin_answer:
  assumes "\<And>n. en_fault en n = None"
  shows "run_state (last_admin en i) w =
     ((case find (\<lambda>u. u_id u = i) (users (ad_db w)) of
         Some u \<Rightarrow> u_role u = ''admin'' \<and> admin_count (ad_db w) \<le> 1 | None \<Rightarrow> False),
      w\<lparr>ad_tick := (case find (\<lambda>u. u_id u = i) (users (ad_db w)) of
         Some u \<Rightarrow> if u_role u = ''admin'' then Suc (Suc (ad_tick w)) else Suc (ad_tick w) | None \<Rightarrow> Suc (ad_tick w))\<rparr>)"
  using assms by (simp add: last_admin_def adm_simps find_user_def split: option.split)

lemma find_unique: "x \<in> set xs \<Longrightarrow> P x \<Longrightarrow> (\<And>y. y \<in> set xs \<Longrightarrow> P y \<Longrightarrow> y = x) \<Longrightarrow> find P xs = Some x"
proof (induction xs)
  case (Cons a xs)
  show ?case
  proof (cases "P a")
    case True
    then have "a = x" using Cons.prems(3) by simp
    with True show ?thesis by simp
  next
    case False
    then have "x \<in> set xs" using Cons.prems(1,2) by auto
    from Cons.IH [OF this Cons.prems(2) Cons.prems(3) [OF list.set_intros(2)]] have "find P xs = Some x" .
    with False show ?thesis by simp
  qed
qed simp

lemma not_last_admin:
  assumes "\<And>n. en_fault en n = None" "admins_ok (ad_db w)" "\<not> fst (run_state (last_admin en i) w)"
  shows "\<exists>u \<in> set (users (ad_db w)). u_role u = ''admin'' \<and> u_id u \<noteq> i"
proof (cases "\<exists>u \<in> set (users (ad_db w)). u_id u = i \<and> u_role u = ''admin''")
  case True
  then obtain u where u: "u \<in> set (users (ad_db w))" "u_id u = i" "u_role u = ''admin''" by blast
  have "distinct (map u_id (users (ad_db w)))" using assms(2) by (simp add: admins_ok_def users_ok_def)
  then have "v = u" if "v \<in> set (users (ad_db w))" "u_id v = i" for v
    using that u(1,2) by (metis (mono_tags, lifting) distinct_map inj_onD)
  then have "find (\<lambda>u. u_id u = i) (users (ad_db w)) = Some u"
    using u(1,2) by (intro find_unique)
  then have "\<not> admin_count (ad_db w) \<le> 1" using assms(3) u(3) by (simp add: last_admin_answer [OF assms(1)])
  from another_admin [OF _ this] show ?thesis using assms(2) by (simp add: admins_ok_def)
next
  case False
  then show ?thesis using assms(2) unfolding admins_ok_def admin_count_pos by blast
qed

lemma demote_admins:
  assumes "admins_ok b" "\<exists>u \<in> set (users b). u_role u = ''admin'' \<and> u_id u \<noteq> i"
  shows "admins_ok (snd (update_user i (\<lambda>u. u\<lparr>u_role := r\<rparr>) b))" "admins_ok (snd (delete_user i b))"
proof -
  obtain u where u: "u \<in> set (users b)" "u_role u = ''admin''" "u_id u \<noteq> i" using assms(2) by blast
  then have "u \<in> set (users (snd (update_user i (\<lambda>u. u\<lparr>u_role := r\<rparr>) b)))" "u \<in> set (users (snd (delete_user i b)))"
    by (auto simp: update_user_def delete_user_def intro: rev_image_eqI)
  moreover have "users_ok (snd (delete_user i b))"
    using assms(1) by (auto simp: admins_ok_def users_ok_def delete_user_def distinct_map_filter)
  ultimately show "admins_ok (snd (update_user i (\<lambda>u. u\<lparr>u_role := r\<rparr>) b))" "admins_ok (snd (delete_user i b))"
    using assms(1) u(2) update_user_ok [of b "\<lambda>u. u\<lparr>u_role := r\<rparr>" i] unfolding admins_ok_def admin_count_pos by auto
qed

lemma keeps_last_admin:
  assumes "\<And>n. en_fault (en :: 'p admin_env) n = None"
    and "\<And>w. admins_ok (ad_db w) \<Longrightarrow> \<exists>u \<in> set (users (ad_db w)). u_role u = ''admin'' \<and> u_id u \<noteq> i \<Longrightarrow>
      admins_ok (ad_db (snd (run_state (f False) w)))"
    and "db_keeps admins_ok (f True)"
  shows "db_keeps admins_ok (State_Monad.bind (last_admin en i) f)"
proof -
  have same: "ad_db (snd (run_state (last_admin en i) w)) = ad_db w" for w :: "'p admin_world" by (simp add: last_admin_answer [OF assms(1)])
  show ?thesis
    unfolding db_keeps_def run_bind
  proof (intro allI impI)
    fix w :: "'p admin_world"
    assume w: "admins_ok (ad_db w)"
    let ?w = "snd (run_state (last_admin en i) w)"
    show "admins_ok (ad_db (snd (run_state (f (fst (run_state (last_admin en i) w))) ?w)))"
    proof (cases "fst (run_state (last_admin en i) w)")
      case True
      then show ?thesis using assms(3) w same [of w] by (simp add: db_keeps_def)
    next
      case False
      then show ?thesis using assms(2) [of ?w] not_last_admin [OF assms(1) w False] w same [of w] by simp
    qed
  qed
qed
inductive panel_op :: "'p admin_env \<Rightarrow> ('p, response) adm \<Rightarrow> bool" where
  "panel_op en (Users_List en)"
| "panel_op en (Users_Create en cu)"
| "panel_op en (Users_Update en i uu)"
| "panel_op en (Users_Delete en i)"
| "panel_op en (HandleLogin en li)"
| "panel_op en HandleLogout"
| "panel_op en (HandleSetupCheck en)"
| "panel_op en (HandleSetup en su)"
| "panel_op en (HandleProviderCatalog en)"
| "panel_op en (Providers_Catalog en)"
| "panel_op en (Providers_List en)"
| "panel_op en (Providers_Get en i)"
| "panel_op en (Providers_Create en cp)"
| "panel_op en (Providers_Update en i up)"
| "panel_op en (Providers_Delete en i)"
| "panel_op en (Providers_Test en i)"
| "panel_op en (Providers_Models en i)"
| "panel_op en (CreateModel en i md)"
| "panel_op en (DeleteModel en i)"
| "panel_op en (SetDefaultModel en i k)"
| "panel_op en (Questions_Answer en q ans)"

lemma keeps_helpers [keeps_rules]:
  "db_keeps I (encrypted en t)" "db_keeps I (store_key en t old)" "db_keeps I (register_live en n k y url)"
  "db_keeps I (provider_event e p)" "db_keeps I (reregister en up p0 p)" "db_keeps I (test_failed e)" "db_keeps I (live_provider en p)"
  "db_keeps I (catalog_entries en ps)"
proof -
  show enc [keeps_rules]: "db_keeps I (encrypted en t)" for t unfolding encrypted_def by (intro keeps_rules)
  show "db_keeps I (store_key en t old)" unfolding store_key_def by (intro keeps_rules)
  show reg [keeps_rules]: "db_keeps I (register_live en n k y url)" for n k y url unfolding register_live_def by (intro keeps_rules)
  show "db_keeps I (provider_event e p)" unfolding provider_event_def by (intro keeps_rules)
  show "db_keeps I (reregister en up p0 p)" unfolding reregister_def Let_def by (intro keeps_rules)
  show "db_keeps I (test_failed e)" unfolding test_failed_def by (intro keeps_rules)
  show "db_keeps I (live_provider en p)" unfolding live_provider_def by (intro keeps_rules)
  show "db_keeps I (catalog_entries en ps)" by (induction ps) (auto intro!: keeps_rules)
qed

lemma keeps_sites [keeps_rules]:
  "db_keeps I (open_site en i)" "db_keeps I (site_exec en i f)" "db_keeps I (site_query en i g)" "db_keeps I (secret_event en n q)"
  unfolding open_site_def site_exec_def site_query_def secret_event_def by (auto simp: db_keeps_def run_bind split: option.split sum.split)

lemma keeps_answers [keeps_rules]:
  "db_keeps I (site_with_question en q is)" "db_keeps I (store_fields en sid q vs fs)" "db_keeps I (keep_values en sid q t)"
  "db_keeps I (wake_brain en sid q n)" "db_keeps I (record_answer en sid q t)"
proof -
  show "db_keeps I (site_with_question en q is)" by (induction "is") (auto intro!: keeps_rules)
  show fields [keeps_rules]: "db_keeps I (store_fields en sid q vs fs)" for fs vs
    by (induction en sid q vs fs rule: store_fields.induct) (auto intro!: keeps_rules split: option.split list.split)
  show "db_keeps I (keep_values en sid q t)"
    unfolding keep_values_def single_secret_def by (auto intro!: keeps_rules split: option.split prod.split list.split)
  show wake [keeps_rules]: "db_keeps I (wake_brain en sid q n)" for n
    unfolding wake_brain_def by (auto intro!: keeps_rules simp: db_keeps_def [of I "State_Monad.update _"] split: option.split)
  show "db_keeps I (record_answer en sid q t)" unfolding record_answer_def Let_def by (intro keeps_rules)
qed

lemma keeps_Questions_Answer: "db_keeps I (Questions_Answer en q ans)"
  unfolding Questions_Answer_def by (auto intro!: keeps_rules split: option.split prod.split)

lemma keeps_reading:
  "db_keeps I (Users_List en)" "db_keeps I (HandleLogin en li)" "db_keeps I HandleLogout" "db_keeps I (HandleSetupCheck en)"
  "db_keeps I (HandleProviderCatalog en)" "db_keeps I (Providers_Catalog en)" "db_keeps I (Providers_List en)"
  "db_keeps I (Providers_Get en i)" "db_keeps I (Providers_Test en i)" "db_keeps I (Providers_Models en i)"
  unfolding Users_List_def HandleLogin_def HandleLogout_def HandleSetupCheck_def HandleProviderCatalog_def Providers_Catalog_def
    Providers_List_def Providers_Get_def Providers_Test_def Providers_Models_def Let_def
  by (auto intro!: keeps_rules split: option.split prod.split)
lemma run_rolled_back [simp]: "run_state (rolled_back w0 status msg) w = (error_response status msg, w\<lparr>ad_db := ad_db w0\<rparr>)"
  by (simp add: rolled_back_def run_bind)

lemma keeps_setup_provider:
  assumes "\<And>b i n k y e. I b \<Longrightarrow> I (snd (update_provider i n k y e b))" "\<And>b P d. I b \<Longrightarrow> I (snd (set_defaults P d b))"
  shows "db_keeps I (setup_provider en req)"
  unfolding setup_provider_def Let_def by (auto intro!: keeps_rules keeps_exec assms split: option.split sum.split)

lemma setup_provider_users: "users (ad_db (snd (run_state (setup_provider en req) w))) = users (ad_db w)"
proof -
  have "db_keeps (\<lambda>b. users b = users (ad_db w)) (setup_provider en req)"
    by (rule keeps_setup_provider) (simp_all add: update_provider_def set_defaults_def)
  then show ?thesis by (simp add: db_keeps_def)
qed

lemma register_live_same: "ad_db (snd (run_state (register_live en n k y url) w)) = ad_db w"
proof -
  have "db_keeps (\<lambda>b. b = ad_db w) (register_live en n k y url)" by (rule keeps_helpers)
  then show ?thesis by (simp add: db_keeps_def)
qed

lemma setup_tx_cases:
  assumes "run_state (setup_tx en req hash w0) w = (resp, w')" "ad_db w = ad_db w0"
  shows "ad_db w' = ad_db w \<and> response.Status resp \<in> {409, 500} \<or>
    users (ad_db w) = [] \<and> (\<exists>u. users (ad_db w') = [u] \<and> u_role u = ''admin'' \<and> u_name u = su_username req \<and> u_hash u = hash \<and>
      (response.Status resp = 201 \<longrightarrow> (\<exists>token. panel_token en u = Inr token \<and> resp = session_response 201 (snd (en_jwt en)) token u)))"
proof -
  have codes: "response.Status (error_response n m) = n" for n m by (simp add: error_response_def json_response_def)
  let ?w1 = "w\<lparr>ad_tick := Suc (ad_tick w)\<rparr>"
  show ?thesis
  proof (cases "en_fault en (ad_tick w) = None \<and> users (ad_db w) = [] \<and> en_fault en (Suc (ad_tick w)) = None")
    case False
    then show ?thesis using assms codes
      by (auto simp: setup_tx_def adm_simps split: option.splits if_splits)
  next
    case True
    define u where "u = \<lparr>u_id = user_seq (ad_db w) + 1, u_name = su_username req, u_hash = hash, u_display = su_display req, u_role = ''admin''\<rparr>"
    define w2 where "w2 = w\<lparr>ad_tick := Suc (Suc (ad_tick w)), ad_db := (ad_db w)\<lparr>users := [u], user_seq := user_seq (ad_db w) + 1\<rparr>\<rparr>"
    obtain p w3 where p: "run_state (setup_provider en req) w2 = (p, w3)" by (cases "run_state (setup_provider en req) w2")
    have us: "users (ad_db w3) = [u]" using setup_provider_users [of en req w2] p by (simp add: w2_def)
    have ins: "insert_user (su_username req) hash ''admin'' (su_display req) (ad_db w) =
        (Inr u, (ad_db w)\<lparr>users := [u], user_seq := user_seq (ad_db w) + 1\<rparr>)"
      using True by (simp add: insert_user_def Let_def u_def)
    show ?thesis
    proof (cases p)
      case (Inl x)
      then show ?thesis using assms True p codes ins by (auto simp: setup_tx_def adm_simps w2_def)
    next
      case (Inr prov)
      have run: "(resp, w') = run_state (do { d \<leftarrow> adm_exec en (\<lambda>b. (Inr (), b));
            resp \<leftarrow> (case d of
               Inl _ \<Rightarrow> rolled_back w0 500 ''failed to complete setup''
             | Inr _ \<Rightarrow> (case panel_token en u of
                    Inl _ \<Rightarrow> refuse 500 ''user created but failed to generate token''
                  | Inr token \<Rightarrow> reply (session_response 201 (snd (en_jwt en)) token u)));
            (case prov of
               Some q \<Rightarrow> if su_key req \<noteq> [] then register_live en (pr_name q) (pr_type q) (su_key req) (pr_url q) else reply ()
             | None \<Rightarrow> reply ());
            reply resp }) w3"
        using assms(1) True p Inr ins by (simp add: setup_tx_def adm_simps w2_def)
      have live: "ad_db (snd (run_state (case prov of
               Some q \<Rightarrow> if su_key req \<noteq> [] then register_live en (pr_name q) (pr_type q) (su_key req) (pr_url q) else reply ()
             | None \<Rightarrow> reply ()) v)) = ad_db v" for v
        by (simp add: register_live_same split: option.split)
      have status: "response.Status resp \<in> {500, 201}"
        using run codes by (auto simp: adm_simps session_response_def json_response_def Let_def split: option.splits sum.splits)
      show ?thesis
      proof (cases "en_fault en (ad_tick w3)")
        case None
        then have "ad_db w' = ad_db w3" "resp = (case panel_token en u of
              Inl _ \<Rightarrow> error_response 500 ''user created but failed to generate token''
            | Inr token \<Rightarrow> session_response 201 (snd (en_jwt en)) token u)"
          using run by (auto simp: adm_simps live split: sum.splits)
        then show ?thesis using us True codes by (intro disjI2) (auto simp: u_def split: sum.splits)
      next
        case (Some e)
        then have "ad_db w' = ad_db w0" "resp = error_response 500 ''failed to complete setup''"
          using run by (auto simp: adm_simps live)
        then show ?thesis using assms(2) codes by simp
      qed
    qed
  qed
qed

lemma setup_cases:
  assumes "run_state (HandleSetup en decoded) w = (resp, w')"
  shows "ad_db w' = ad_db w \<and> response.Status resp \<in> {400, 409, 500} \<or>
    users (ad_db w) = [] \<and> (\<exists>req hash u. decoded = Some req \<and> en_bcrypt en 14 (su_password req) = Inr hash \<and>
      users (ad_db w') = [u] \<and> u_role u = ''admin'' \<and> u_name u = su_username req \<and> u_hash u = hash \<and>
      (response.Status resp = 201 \<longrightarrow> (\<exists>token. panel_token en u = Inr token \<and> resp = session_response 201 (snd (en_jwt en)) token u)))"
proof -
  have codes: "response.Status (error_response n m) = n" for n m by (simp add: error_response_def json_response_def)
  show ?thesis
  proof (cases "\<exists>req hash. decoded = Some req \<and> su_username req \<noteq> [] \<and> su_password req \<noteq> [] \<and>
      HashPassword (en_bcrypt en) (su_password req) = Inr hash \<and> en_fault en (ad_tick w) = None")
    case False
    then show ?thesis using assms codes
      by (auto simp: HandleSetup_def adm_simps split: option.splits if_splits sum.splits)
  next
    case True
    then obtain req hash where d: "decoded = Some req" "HashPassword (en_bcrypt en) (su_password req) = Inr hash"
      and "su_username req \<noteq> []" "su_password req \<noteq> []" "en_fault en (ad_tick w) = None" by blast
    then have "run_state (setup_tx en req hash (w\<lparr>ad_tick := Suc (ad_tick w)\<rparr>)) (w\<lparr>ad_tick := Suc (ad_tick w)\<rparr>) = (resp, w')"
      using assms by (simp add: HandleSetup_def adm_simps)
    from setup_tx_cases [OF this] show ?thesis using d by (auto simp: HashPassword_def)
  qed
qed
lemma setup_admins: "db_keeps admins_ok (HandleSetup (en :: 'p admin_env) su)"
  unfolding db_keeps_def
proof (intro allI impI)
  fix w :: "'p admin_world"
  assume w: "admins_ok (ad_db w)"
  then have "users (ad_db w) \<noteq> []" by (auto simp: admins_ok_def admin_count_def)
  with setup_cases [OF prod.collapse [symmetric], of en su w] w
  show "admins_ok (ad_db (snd (run_state (HandleSetup en su) w)))" by auto
qed

lemma same_users_ok: "users b' = users b \<Longrightarrow> user_seq b' = user_seq b \<Longrightarrow> admins_ok b' = admins_ok b"
  by (simp add: admins_ok_def users_ok_def admin_count_def)

lemma other_tables_ok:
  "admins_ok (snd (update_provider i n k y e b)) = admins_ok b" "admins_ok (snd (set_defaults P d b)) = admins_ok b"
  "admins_ok (snd (insert_provider n t k y b)) = admins_ok b" "admins_ok (snd (delete_provider fk i b)) = admins_ok b"
  "admins_ok (snd (insert_model fk m b)) = admins_ok b" "admins_ok (b\<lparr>llm_models := ms\<rparr>) = admins_ok b"
  by (rule same_users_ok; simp add: update_provider_def set_defaults_def insert_provider_def delete_provider_def insert_model_def Let_def)+

lemma providers_admins:
  "db_keeps admins_ok (Providers_Create en cp)" "db_keeps admins_ok (Providers_Update en i up)" "db_keeps admins_ok (Providers_Delete en i)"
  "db_keeps admins_ok (CreateModel en i md)" "db_keeps admins_ok (DeleteModel en i)" "db_keeps admins_ok (SetDefaultModel en i k)"
  unfolding Providers_Create_def CreateProvider_def Providers_Update_def Providers_Delete_def CreateModel_def DeleteModel_def SetDefaultModel_def
  by (auto intro!: keeps_rules keeps_exec simp: other_tables_ok split: option.split prod.split)

lemma users_admins:
  assumes "\<And>n. en_fault (en :: 'p admin_env) n = None"
  shows "db_keeps admins_ok (Users_Create en cu)" "db_keeps admins_ok (Users_Update en i uu)" "db_keeps admins_ok (Users_Delete en i)"
proof -
  show "db_keeps admins_ok (Users_Create en cu)"
    unfolding Users_Create_def by (auto intro!: keeps_rules keeps_exec insert_user_admins split: option.split sum.split)
  have rename: "admins_ok b \<Longrightarrow> admins_ok (snd (update_user k (\<lambda>u. u\<lparr>u_display := d\<rparr>) b))"
    and rehash: "admins_ok b \<Longrightarrow> admins_ok (snd (update_user k (\<lambda>u. u\<lparr>u_hash := h\<rparr>) b))"
    and promote: "admins_ok b \<Longrightarrow> admins_ok (snd (update_user k (\<lambda>u. u\<lparr>u_role := ''admin''\<rparr>) b))" for b k d h
    by (rule update_user_admins; simp)+
  have demote: "db_keeps admins_ok (State_Monad.bind (last_admin en k) (\<lambda>l. if l then refuse 400 m
      else attempt en True (update_user k (\<lambda>u. u\<lparr>u_role := r\<rparr>)) m' n))" if "db_keeps admins_ok n" for k m m' n r
  proof (rule keeps_last_admin [OF assms])
    fix w :: "'p admin_world"
    assume "admins_ok (ad_db w)" "\<exists>u \<in> set (users (ad_db w)). u_role u = ''admin'' \<and> u_id u \<noteq> k"
    then have "admins_ok (snd (update_user k (\<lambda>u. u\<lparr>u_role := r\<rparr>) (ad_db w)))" by (rule demote_admins(1))
    then show "admins_ok (ad_db (snd (run_state (if False then refuse 400 m
        else attempt en True (update_user k (\<lambda>u. u\<lparr>u_role := r\<rparr>)) m' n) w)))"
      using that assms by (simp add: attempt_def adm_simps db_keeps_def split: sum.split)
  qed (simp add: keeps_rules)
  show "db_keeps admins_ok (Users_Update en i uu)"
    unfolding Users_Update_def Let_def
    by (auto intro!: keeps_rules demote rename rehash promote split: option.split sum.split)
  show "db_keeps admins_ok (Users_Delete en i)"
  proof (cases i)
    case (Some k)
    have "db_keeps admins_ok (State_Monad.bind (last_admin en k) (delete_checked en k))"
    proof (rule keeps_last_admin [OF assms])
      fix w :: "'p admin_world"
    assume "admins_ok (ad_db w)" "\<exists>u \<in> set (users (ad_db w)). u_role u = ''admin'' \<and> u_id u \<noteq> k"
      then have "admins_ok (snd (delete_user k (ad_db w)))" by (rule demote_admins(2))
      then show "admins_ok (ad_db (snd (run_state (delete_checked en k False) w)))"
        using assms by (simp add: delete_checked_def attempt_def adm_simps split: sum.split)
    qed (simp add: delete_checked_def keeps_rules)
    then show ?thesis by (simp add: Users_Delete_def Some)
  qed (simp add: Users_Delete_def keeps_rules)
qed

lemma panel_op_admins:
  assumes "panel_op en m" "\<And>n. en_fault en n = None"
  shows "db_keeps admins_ok m"
  using assms(1) users_admins [OF assms(2)] by cases (simp_all add: keeps_reading keeps_Questions_Answer providers_admins setup_admins)

definition after :: "('p, response) adm list \<Rightarrow> 'p admin_world \<Rightarrow> 'p admin_world" where
  \<comment> \<open>the world after handlers that ran one after the other\<close>
  "after ms w = foldl (\<lambda>v m. snd (run_state m v)) w ms"

text \<open>
  C27. Through any sequence of requests to the panel that run one after the other on a database that answers,
  whoever sends them, at least one administrator remains, and identifiers and names of users stay unique.
\<close>
theorem last_admin_kept:
  assumes "\<And>n. en_fault en n = None" "\<forall>m \<in> set ms. panel_op en m" "admins_ok (ad_db w)"
  shows "admins_ok (ad_db (after ms w))"
  using assms(2,3)
proof (induction ms arbitrary: w)
  case (Cons m ms)
  have "admins_ok (ad_db (snd (run_state m w)))"
    using panel_op_admins [of en m] Cons.prems assms(1) by (simp add: db_keeps_def)
  with Cons show ?case by (simp add: after_def)
qed (simp add: after_def)

text \<open>
  C28. The setup, whatever its request and whichever statements fail: it either changes no table, or there was no
  user and now there is exactly one, an administrator with the given name and the hash of the given password;
  a token is answered only in that case, and then every further setup, by whomever, changes nothing.
\<close>
theorem setup_once:
  assumes "run_state (HandleSetup en decoded) w = (resp, w')"
  shows "(ad_db w' = ad_db w \<and> response.Status resp \<in> {400, 409, 500} \<or>
      users (ad_db w) = [] \<and> (\<exists>req hash u. decoded = Some req \<and> en_bcrypt en 14 (su_password req) = Inr hash \<and>
        users (ad_db w') = [u] \<and> u_role u = ''admin'' \<and> u_name u = su_username req \<and> u_hash u = hash)) \<and>
    (response.Status resp = 201 \<longrightarrow> ad_db (snd (run_state (HandleSetup en' decoded') w')) = ad_db w')"
proof -
  have "ad_db (snd (run_state (HandleSetup en' decoded') w')) = ad_db w'" if "users (ad_db w') \<noteq> []"
    using setup_cases [OF prod.collapse [symmetric], of en' decoded' w'] that by auto
  with setup_cases [OF assms] show ?thesis by auto
qed
section \<open>Two requests at once\<close>

text \<open>
  The check for the last administrator and the deletion are separate statements: when each of the two
  administrators of a panel asks to delete the other and both checks run before both deletions, both are
  answered 200 and no user is left; then the setup, which needs no token, makes whoever comes first the
  administrator.
\<close>
theorem concurrent_deletes_reopen_setup:
  assumes "\<And>n. en_fault (en :: 'p admin_env) n = None" "users (ad_db w) = [u, v]" "u_role u = ''admin''" "u_role v = ''admin''"
    and "u_id u \<noteq> u_id v"
    and "su_username req \<noteq> []" "su_password req \<noteq> []" "en_bcrypt en 14 (su_password req) = Inr hash" "su_provider req = 0"
  shows "\<exists>w'. run_state (do { a \<leftarrow> last_admin en (u_id u); b \<leftarrow> last_admin en (u_id v);
             x \<leftarrow> delete_checked en (u_id u) a; y \<leftarrow> delete_checked en (u_id v) b; reply (x, y) }) w =
      ((json_response 200 (GObj [(''status'', GStr ''deleted'')]), json_response 200 (GObj [(''status'', GStr ''deleted'')])), w') \<and>
    users (ad_db w') = [] \<and>
    (\<exists>a. users (ad_db (snd (run_state (HandleSetup en (Some req)) w'))) = [a] \<and> u_role a = ''admin'' \<and> u_name a = su_username req)"
proof -
  have two: "admin_count (ad_db x) = 2" if "users (ad_db x) = [u, v]" for x :: "'p admin_world"
    using that assms(3,4) by (simp add: admin_count_def)
  define w1 where "w1 = snd (run_state (do { a \<leftarrow> last_admin en (u_id u); b \<leftarrow> last_admin en (u_id v); reply (a, b) }) w)"
  have checks: "run_state (last_admin en (u_id u)) w = (False, w\<lparr>ad_tick := Suc (Suc (ad_tick w))\<rparr>)"
    "run_state (last_admin en (u_id v)) (w\<lparr>ad_tick := t\<rparr>) = (False, w\<lparr>ad_tick := Suc (Suc t)\<rparr>)" for t
    using assms(2-5) two [of w] by (simp_all add: last_admin_answer [OF assms(1)] admin_count_def)
  obtain w' where w': "run_state (do { a \<leftarrow> last_admin en (u_id u); b \<leftarrow> last_admin en (u_id v);
             x \<leftarrow> delete_checked en (u_id u) a; y \<leftarrow> delete_checked en (u_id v) b; reply (x, y) }) w =
      ((json_response 200 (GObj [(''status'', GStr ''deleted'')]), json_response 200 (GObj [(''status'', GStr ''deleted'')])), w')"
    "users (ad_db w') = []"
    using assms(1,2,5) by (auto simp: run_bind checks delete_checked_def attempt_def run_adm_exec delete_user_def)
  have "\<exists>a. users (ad_db (snd (run_state (HandleSetup en (Some req)) w'))) = [a] \<and> u_role a = ''admin'' \<and> u_name a = su_username req"
    using assms(1,6-9) w'(2)
    by (auto simp: HandleSetup_def HashPassword_def adm_simps setup_tx_def insert_user_def Let_def setup_provider_def split: sum.split)
  with w' show ?thesis by blast
qed

section \<open>Providers\<close>

text \<open>
  Updating a provider of the OpenAI kind without giving a base address passes the check that such a
  provider has one, because the stored address counts, and then erases it: the row has no address any more
  and the client that is put into the registry is built without one, which the check is there to prevent.
\<close>
theorem provider_update_erases_address:
  assumes "\<And>n. en_fault en n = None" "find_provider i (ad_db w) = Inr p" "pr_type p = ''openai''" "pr_url p = Some (c # cs)"
    and "up_url req = None" "up_key req = k # ks" "up_name req = pr_name p" "pr_name p \<noteq> []"
    and unique: "\<And>q. q \<in> set (llm_providers (ad_db w)) \<Longrightarrow> pr_name q = pr_name p \<Longrightarrow> pr_id q = i"
    and "en_nonce en (Suc (ad_tick w)) = Some nonce" "en_factory en = Some f" "f (pr_name p) ''openai'' (k # ks) [] = Some client"
  shows "case run_state (Providers_Update en (Some i) (Some req)) w of
    (resp, w') \<Rightarrow> response.Status resp = 200 \<and> provider_of (ad_registry w') (pr_name p) = Some client \<and>
      (\<exists>q. find_provider i (ad_db w') = Inr q \<and> pr_type q = ''openai'' \<and> pr_url q = None)"
proof -
  have p: "find (\<lambda>p. pr_id p = i) (llm_providers (ad_db w)) = Some p"
    using assms(2) by (simp add: find_provider_def split: option.splits)
  have after: "find (\<lambda>p. pr_id p = i) (map (\<lambda>p. if pr_id p = i then g p else p) xs) = map_option g (find (\<lambda>p. pr_id p = i) xs)"
    if "\<And>p. pr_id (g p) = pr_id p" for g and xs :: "provider_row list"
    using that by (induction xs) auto
  have u: "fst (update_provider i (pr_name p) key None e (ad_db w)) = Inr ()"
    "find_provider i (snd (update_provider i (pr_name p) key None e (ad_db w))) =
       Inr (p\<lparr>pr_key := key, pr_url := None, pr_enabled := e\<rparr>)" for key e
    using unique p by (auto simp: update_provider_def find_provider_def after)
  show ?thesis
    using assms(1,3-8,10-12)
    by (simp add: Providers_Update_def adm_simps assms(2) store_key_def encrypted_def Encrypt_def u reregister_def Let_def
        register_live_def provider_event_def json_response_def llm_store.lookup_put)
qed
definition leads :: "(admin_db \<Rightarrow> bool) \<Rightarrow> ('p, 'a) adm \<Rightarrow> (admin_db \<Rightarrow> bool) \<Rightarrow> bool" where
  "leads P m Q \<longleftrightarrow> (\<forall>w. P (ad_db w) \<longrightarrow> Q (ad_db (snd (run_state m w))))"

lemma leads_bind: "leads P m R \<Longrightarrow> (\<And>a. leads R (f a) Q) \<Longrightarrow> leads P (State_Monad.bind m f) Q"
  by (simp add: leads_def run_bind)

lemma leads_keeps: "leads P m P \<longleftrightarrow> db_keeps P m"
  by (simp add: leads_def db_keeps_def)

lemma leads_weaken: "leads P m R \<Longrightarrow> (\<And>b. R b \<Longrightarrow> Q b) \<Longrightarrow> leads P m Q"
  by (simp add: leads_def)

definition defaults_ok :: "admin_db \<Rightarrow> bool" where
  "defaults_ok b \<longleftrightarrow> distinct (map md_id (llm_models b)) \<and> distinct (map (\<lambda>m. (md_provider m, md_model m)) (llm_models b)) \<and>
     (\<forall>i \<in> set (map md_id (llm_models b)). i \<le> model_seq b) \<and>
     (\<forall>m \<in> set (llm_models b). \<forall>n \<in> set (llm_models b). md_default m \<longrightarrow> md_default n \<longrightarrow> md_provider m = md_provider n \<longrightarrow> m = n)"

definition cleared :: "(model_row \<Rightarrow> bool) \<Rightarrow> admin_db \<Rightarrow> bool" where
  "cleared P b \<longleftrightarrow> defaults_ok b \<and> (\<forall>m \<in> set (llm_models b). P m \<longrightarrow> \<not> md_default m)"

lemma set_defaults_fields:
  "map md_id (llm_models (snd (set_defaults P d b))) = map md_id (llm_models b)"
  "map (\<lambda>m. (md_provider m, md_model m)) (llm_models (snd (set_defaults P d b))) = map (\<lambda>m. (md_provider m, md_model m)) (llm_models b)"
  "model_seq (snd (set_defaults P d b)) = model_seq b"
  by (auto simp: set_defaults_def)

lemma set_defaults_member:
  "m \<in> set (llm_models (snd (set_defaults P d b))) \<Longrightarrow>
     \<exists>n \<in> set (llm_models b). m = (if P n then n\<lparr>md_default := d\<rparr> else n)"
  by (auto simp: set_defaults_def)

lemma clear_ok:
  assumes "defaults_ok b" "\<And>m d. P (m\<lparr>md_default := d\<rparr>) = P m"
  shows "cleared P (snd (set_defaults P False b))"
proof -
  have "m = n" if "m \<in> set (llm_models (snd (set_defaults P False b)))" "n \<in> set (llm_models (snd (set_defaults P False b)))"
    "md_default m" "md_default n" "md_provider m = md_provider n" for m n
  proof -
    from that(1,2) obtain k l where kl: "k \<in> set (llm_models b)" "l \<in> set (llm_models b)"
      "m = (if P k then k\<lparr>md_default := False\<rparr> else k)" "n = (if P l then l\<lparr>md_default := False\<rparr> else l)"
      by (auto dest!: set_defaults_member)
    with that(3-5) have "md_default k" "md_default l" "md_provider k = md_provider l" "m = k" "n = l" by (auto split: if_splits)
    with assms(1) kl(1,2) show "m = n" unfolding defaults_ok_def by blast
  qed
  moreover have "\<not> md_default m" if "m \<in> set (llm_models (snd (set_defaults P False b)))" "P m" for m
    using that assms(2) by (auto dest!: set_defaults_member split: if_splits)
  ultimately show ?thesis
    using assms(1) unfolding cleared_def defaults_ok_def set_defaults_fields by blast
qed

lemma choose_ok:
  assumes "cleared P b" "\<And>m. Q m \<Longrightarrow> P m" "\<And>m n. m \<in> set (llm_models b) \<Longrightarrow> n \<in> set (llm_models b) \<Longrightarrow> Q m \<Longrightarrow> Q n \<Longrightarrow> m = n"
    and "\<And>m n. Q m \<Longrightarrow> md_provider m = md_provider n \<Longrightarrow> P n"
  shows "defaults_ok (snd (set_defaults Q True b))"
proof -
  have "m = n" if "m \<in> set (llm_models (snd (set_defaults Q True b)))" "n \<in> set (llm_models (snd (set_defaults Q True b)))"
    "md_default m" "md_default n" "md_provider m = md_provider n" for m n
  proof -
    from that(1,2) obtain k l where kl: "k \<in> set (llm_models b)" "l \<in> set (llm_models b)"
      "m = (if Q k then k\<lparr>md_default := True\<rparr> else k)" "n = (if Q l then l\<lparr>md_default := True\<rparr> else l)"
      by (auto dest!: set_defaults_member)
    have same: "md_provider k = md_provider l" using kl(3,4) that(5) by (auto split: if_splits)
    have off: "\<not> md_default x" if "x \<in> set (llm_models b)" "P x" for x using assms(1) that by (simp add: cleared_def)
    consider "Q k" "Q l" | "Q k" "\<not> Q l" | "\<not> Q k" "Q l" | "\<not> Q k" "\<not> Q l" by blast
    then show "m = n"
    proof cases
      case 1
      then show ?thesis using assms(3) [OF kl(1,2)] kl(3,4) by simp
    next
      case 2
      then show ?thesis using off [OF kl(2)] assms(4) [of k l] same that(4) kl(4) by simp
    next
      case 3
      then show ?thesis using off [OF kl(1)] assms(4) [of l k] same that(3) kl(3) by simp
    next
      case 4
      then show ?thesis using kl that(3,4) same assms(1) unfolding cleared_def defaults_ok_def by auto
    qed
  qed
  then show ?thesis using assms(1) unfolding cleared_def defaults_ok_def set_defaults_fields by blast
qed

lemma insert_default_ok:
  assumes "defaults_ok b" "md_default m \<longrightarrow> cleared (\<lambda>n. md_provider n = md_provider m) b"
  shows "defaults_ok (snd (insert_model fk m b))"
proof -
  have "m' \<noteq> m\<lparr>md_id := model_seq b + 1\<rparr>" if "m' \<in> set (llm_models b)" for m'
    using that assms(1) by (auto simp: defaults_ok_def)
  then show ?thesis
    using assms by (auto simp: defaults_ok_def cleared_def insert_model_def Let_def)
qed
lemma filter_models_ok: "defaults_ok b \<Longrightarrow> defaults_ok (b\<lparr>llm_models := filter P (llm_models b)\<rparr>)"
  by (auto simp: defaults_ok_def distinct_map_filter)

lemma defaults_other:
  "defaults_ok (snd (insert_user n h r d b)) = defaults_ok b" "defaults_ok (snd (update_user i f b)) = defaults_ok b"
  "defaults_ok (snd (delete_user i b)) = defaults_ok b" "defaults_ok (snd (update_provider i n k y e b)) = defaults_ok b"
  "defaults_ok (snd (insert_provider n k' k y b)) = defaults_ok b"
  by (simp_all add: defaults_ok_def insert_user_def update_user_def delete_user_def update_provider_def insert_provider_def Let_def)

lemma cleared_provider: "cleared P (snd (update_provider i n k y e b)) = cleared P b"
  by (simp add: cleared_def defaults_other) (simp add: update_provider_def)

lemma delete_provider_ok: "defaults_ok b \<Longrightarrow> defaults_ok (snd (delete_provider fk i b))"
  using filter_models_ok [of b] by (simp add: delete_provider_def defaults_ok_def)

lemma leads_exec:
  "(\<And>n. en_fault en n = None) \<Longrightarrow> (\<And>b. P b \<Longrightarrow> Q (snd (f b))) \<Longrightarrow> leads P (adm_exec en f) Q"
  by (simp add: leads_def run_adm_exec)

lemma keeps_last: "db_keeps I (last_admin en i)"
  unfolding last_admin_def by (auto intro!: keeps_rules split: sum.split)

lemma CreateModel_defaults:
  assumes "\<And>n. en_fault en n = None"
  shows "db_keeps defaults_ok (CreateModel en i md)"
proof -
  have store: "leads (\<lambda>b. defaults_ok b \<and> (md_default m \<longrightarrow> cleared (\<lambda>n. md_provider n = md_provider m) b))
      (State_Monad.bind (adm_exec en (insert_model (en_foreign_keys en) m)) k) defaults_ok"
    if "\<And>r. db_keeps defaults_ok (k r)" for m and k :: "string + model_row \<Rightarrow> ('a, response) adm"
    by (rule leads_bind [where R = defaults_ok], rule leads_exec [OF assms]) (use that insert_default_ok in \<open>auto simp: leads_keeps\<close>)
  have clear: "leads defaults_ok (if d then adm_exec en (set_defaults (\<lambda>m. md_provider m = k) False) else reply (Inr ()))
      (\<lambda>b. defaults_ok b \<and> (d \<longrightarrow> cleared (\<lambda>n. md_provider n = k) b))" for d k
  proof (cases d)
    case True
    have "cleared (\<lambda>m. md_provider m = k) (snd (set_defaults (\<lambda>m. md_provider m = k) False b))" if "defaults_ok b" for b
      using that by (simp add: clear_ok)
    then show ?thesis using True assms by (auto intro!: leads_exec) (auto simp: cleared_def)
  qed (simp add: leads_def)
  have "db_keeps defaults_ok (State_Monad.bind (if md_default req then adm_exec en (set_defaults (\<lambda>m. md_provider m = k) False) else reply (Inr ()))
      (\<lambda>_. State_Monad.bind (adm_exec en (insert_model (en_foreign_keys en) (req\<lparr>md_provider := k,
         md_display := (if md_display req = [] then md_model req else md_display req),
         md_tokens := (if md_tokens req = 0 then 4096 else md_tokens req)\<rparr>)))
       (\<lambda>r. case r of Inl _ \<Rightarrow> refuse 500 ''failed to create model'' | Inr m \<Rightarrow> reply (json_response 201 (model_json m)))))" for req k
    unfolding leads_keeps [symmetric]
    by (rule leads_bind [OF clear], rule store [of _ "req\<lparr>md_provider := k,
         md_display := (if md_display req = [] then md_model req else md_display req),
         md_tokens := (if md_tokens req = 0 then 4096 else md_tokens req)\<rparr>", simplified])
      (auto intro!: keeps_rules)
  then show ?thesis unfolding CreateModel_def by (auto intro!: keeps_rules split: option.split prod.split)
qed

lemma choose_exec:
  assumes "\<And>n. en_fault en n = None"
  shows "leads (cleared (\<lambda>m. md_provider m = i)) (adm_exec en (set_defaults (\<lambda>m. md_id m = k \<and> md_provider m = i) True)) defaults_ok"
proof (rule leads_exec [OF assms])
  fix b
  assume b: "cleared (\<lambda>m. md_provider m = i) b"
  show "defaults_ok (snd (set_defaults (\<lambda>m. md_id m = k \<and> md_provider m = i) True b))"
  proof (rule choose_ok [OF b])
    show "m = n" if "m \<in> set (llm_models b)" "n \<in> set (llm_models b)" "md_id m = k \<and> md_provider m = i" "md_id n = k \<and> md_provider n = i" for m n
      using that b unfolding cleared_def defaults_ok_def distinct_map inj_on_def by metis
  qed auto
qed

lemma SetDefaultModel_defaults:
  assumes "\<And>n. en_fault en n = None"
  shows "db_keeps defaults_ok (SetDefaultModel en i k)"
proof -
  have "leads defaults_ok (attempt en True (set_defaults (\<lambda>m. md_provider m = p) False) t
      (attempt en True (set_defaults (\<lambda>m. md_id m = q \<and> md_provider m = p) True) s (reply resp))) defaults_ok" for p q t s resp
    unfolding attempt_def if_True
  proof (rule leads_bind)
    show "leads defaults_ok (adm_exec en (set_defaults (\<lambda>m. md_provider m = p) False)) (cleared (\<lambda>m. md_provider m = p))"
      by (rule leads_exec [OF assms]) (simp add: clear_ok)
  next
    have "db_keeps defaults_ok (case r of Inl _ \<Rightarrow> refuse 500 s | Inr _ \<Rightarrow> reply resp)" for r :: "string + unit"
      by (intro keeps_rules)
    then have "leads (cleared (\<lambda>m. md_provider m = p)) (State_Monad.bind (adm_exec en (set_defaults (\<lambda>m. md_id m = q \<and> md_provider m = p) True))
        (\<lambda>r. case r of Inl _ \<Rightarrow> refuse 500 s | Inr _ \<Rightarrow> reply resp)) defaults_ok"
      by (intro leads_bind [OF choose_exec [OF assms]]) (simp add: leads_keeps)
    then show "leads (cleared (\<lambda>m. md_provider m = p)) (case a of Inl _ \<Rightarrow> refuse 500 t
        | Inr _ \<Rightarrow> State_Monad.bind (adm_exec en (set_defaults (\<lambda>m. md_id m = q \<and> md_provider m = p) True))
            (\<lambda>r. case r of Inl _ \<Rightarrow> refuse 500 s | Inr _ \<Rightarrow> reply resp)) defaults_ok" for a :: "string + unit"
      by (auto simp: leads_def cleared_def split: sum.split)
  qed
  then show ?thesis unfolding SetDefaultModel_def by (auto simp: leads_keeps intro!: keeps_rules split: option.split prod.split)
qed
lemma at_most_one: "distinct xs \<Longrightarrow> (\<And>x y. x \<in> set xs \<Longrightarrow> y \<in> set xs \<Longrightarrow> x = y) \<Longrightarrow> length xs \<le> 1"
  using card_le_Suc0_iff_eq [of "set xs"] by (simp add: distinct_card [symmetric])

lemma setup_defaults:
  assumes "\<And>n. en_fault (en :: 'p admin_env) n = None"
  shows "db_keeps defaults_ok (HandleSetup en su)"
proof -
  have choose: "defaults_ok (snd (set_defaults (if x \<noteq> [] then (\<lambda>m. md_model m = x \<and> md_provider m = p)
      else (\<lambda>m. [md_id m] = take 1 (map md_id (models_of p b)))) True b))" if b: "cleared (\<lambda>_. True) b" for b x p
  proof (rule choose_ok [OF b])
    show "m = n" if "m \<in> set (llm_models b)" "n \<in> set (llm_models b)"
      "(if x \<noteq> [] then (\<lambda>m. md_model m = x \<and> md_provider m = p) else (\<lambda>m. [md_id m] = take 1 (map md_id (models_of p b)))) m"
      "(if x \<noteq> [] then (\<lambda>m. md_model m = x \<and> md_provider m = p) else (\<lambda>m. [md_id m] = take 1 (map md_id (models_of p b)))) n" for m n
    proof (cases "x = []")
      case True
      then have "[md_id m] = take 1 (map md_id (models_of p b))" "[md_id n] = take 1 (map md_id (models_of p b))"
        using that(3,4) by simp_all
      then have "[md_id m] = [md_id n]" by (simp only:)
      then have "md_id m = md_id n" by simp
      then show ?thesis using that(1,2) b unfolding cleared_def defaults_ok_def distinct_map inj_on_def by blast
    next
      case False
      then have "(md_provider m, md_model m) = (md_provider n, md_model n)" using that(3,4) by auto
      then show ?thesis using that(1,2) b unfolding cleared_def defaults_ok_def distinct_map inj_on_def by blast
    qed
  qed auto
  have two: "leads defaults_ok (State_Monad.bind (adm_exec en (set_defaults (\<lambda>_. True) False)) (\<lambda>a. case a of
       Inl _ \<Rightarrow> reply (Inl ())
     | Inr _ \<Rightarrow> State_Monad.bind (adm_exec en (\<lambda>b. set_defaults (if x \<noteq> [] then (\<lambda>m. md_model m = x \<and> md_provider m = p)
         else (\<lambda>m. [md_id m] = take 1 (map md_id (models_of p b)))) True b)) (\<lambda>s. reply (g s)))) defaults_ok" for x p and g :: "string + unit \<Rightarrow> unit + 'b"
  proof (rule leads_bind)
    show "leads defaults_ok (adm_exec en (set_defaults (\<lambda>_. True) False)) (cleared (\<lambda>_. True))"
      by (rule leads_exec [OF assms]) (simp add: clear_ok)
    have "leads (cleared (\<lambda>_. True)) (State_Monad.bind (adm_exec en (\<lambda>b. set_defaults (if x \<noteq> [] then (\<lambda>m. md_model m = x \<and> md_provider m = p)
         else (\<lambda>m. [md_id m] = take 1 (map md_id (models_of p b)))) True b)) (\<lambda>s. reply (g s))) defaults_ok"
      by (rule leads_bind [where R = defaults_ok], rule leads_exec [OF assms]) (simp_all only: choose, simp add: leads_def)
    then show "leads (cleared (\<lambda>_. True)) (case a of Inl _ \<Rightarrow> reply (Inl ())
     | Inr _ \<Rightarrow> State_Monad.bind (adm_exec en (\<lambda>b. set_defaults (if x \<noteq> [] then (\<lambda>m. md_model m = x \<and> md_provider m = p)
         else (\<lambda>m. [md_id m] = take 1 (map md_id (models_of p b)))) True b)) (\<lambda>s. reply (g s))) defaults_ok" for a :: "string + unit"
      by (cases a) (auto simp: leads_def cleared_def)
  qed
  have provider: "db_keeps defaults_ok (setup_provider en req)" for req
    unfolding setup_provider_def
    by (intro keeps_rules keeps_exec two [unfolded leads_keeps]) (simp_all add: defaults_other)
  have "db_keeps defaults_ok (setup_tx en req hash w0)" if "defaults_ok (ad_db w0)" for req hash w0
  proof -
    have undone: "db_keeps defaults_ok (rolled_back w0 status msg)" for status msg using that by (simp add: db_keeps_def)
    show ?thesis unfolding setup_tx_def by (intro keeps_rules keeps_exec provider undone) (simp_all add: defaults_other)
  qed
  then have tx: "db_keeps defaults_ok (State_Monad.bind State_Monad.get (\<lambda>w0. case e of Inl _ \<Rightarrow> refuse 500 m | Inr _ \<Rightarrow> setup_tx en req hash w0))"
    for e :: "string + unit" and req hash m
    by (auto simp: db_keeps_def run_bind split: sum.split)
  show ?thesis
    unfolding HandleSetup_def
    by (intro keeps_option keeps_sum keeps_if keeps_read keeps_bind [OF keeps_exec tx]) simp
qed

lemma panel_op_defaults:
  assumes "panel_op en m" "\<And>n. en_fault en n = None"
  shows "db_keeps defaults_ok m"
proof -
  have "db_keeps defaults_ok (Users_Create en cu)" "db_keeps defaults_ok (Users_Update en i uu)" "db_keeps defaults_ok (Users_Delete en i)"
    "db_keeps defaults_ok (Providers_Create en cp)" "db_keeps defaults_ok (Providers_Update en i up)" "db_keeps defaults_ok (Providers_Delete en i)"
    "db_keeps defaults_ok (DeleteModel en i)" for cu i uu cp up
    unfolding Users_Create_def Users_Update_def Users_Delete_def delete_checked_def Providers_Create_def CreateProvider_def
      Providers_Update_def Providers_Delete_def DeleteModel_def Let_def
    by (auto intro!: keeps_rules keeps_exec keeps_last simp: defaults_other filter_models_ok delete_provider_ok
        split: option.split prod.split sum.split)
  with assms(1) CreateModel_defaults [OF assms(2)] SetDefaultModel_defaults [OF assms(2)] setup_defaults [OF assms(2)]
  show ?thesis by cases (simp_all add: keeps_reading keeps_Questions_Answer)
qed

text \<open>
  C29. Through any sequence of requests to the panel on a database that answers, every provider has at most one
  default model: the handlers that choose one clear the others first, and no model is stored twice.
\<close>
theorem one_default_model:
  assumes "\<And>n. en_fault en n = None" "\<forall>m \<in> set ms. panel_op en m" "defaults_ok (ad_db w)"
  shows "length (filter md_default (models_of i (ad_db (after ms w)))) \<le> 1"
proof -
  have ok: "defaults_ok (ad_db (after ms w))"
    using assms(2,3)
  proof (induction ms arbitrary: w)
    case (Cons m ms)
    have "defaults_ok (ad_db (snd (run_state m w)))"
      using panel_op_defaults [of en m] Cons.prems assms(1) by (simp add: db_keeps_def)
    with Cons show ?case by (simp add: after_def)
  qed (simp add: after_def)
  let ?ds = "filter md_default (models_of i (ad_db (after ms w)))"
  have "distinct ?ds" using ok by (simp add: models_of_def defaults_ok_def distinct_map)
  moreover have "m = n" if "m \<in> set ?ds" "n \<in> set ?ds" for m n
  proof -
    have "md_provider m = i" "md_provider n = i" "md_default m" "md_default n"
      "m \<in> set (llm_models (ad_db (after ms w)))" "n \<in> set (llm_models (ad_db (after ms w)))"
      using that by (auto simp: models_of_def)
    then show ?thesis using ok unfolding defaults_ok_def by metis
  qed
  ultimately show ?thesis by (rule at_most_one)
qed
section \<open>Visitors in the panel\<close>

lemma latest_newest:
  "x \<in> set as \<Longrightarrow> (\<And>a. a \<in> set as \<Longrightarrow> a = x \<or> a_created_at a < a_created_at x) \<Longrightarrow> latest as = Some x"
proof (induction as)
  case (Cons a as)
  have earlier: "b = x \<or> a_created_at b < a_created_at x" if "latest as = Some b" for b
  proof -
    have "b \<in> set as" using that by (induction as arbitrary: b) (auto split: option.splits if_splits)
    then show ?thesis using Cons.prems(2) by simp
  qed
  show ?case
  proof (cases "x \<in> set as")
    case True
    then have "latest as = Some x" using Cons.IH Cons.prems(2) by simp
    then show ?thesis using Cons.prems(2) [of a] by auto
  next
    case False
    then have "a = x" using Cons.prems(1) by simp
    then show ?thesis using earlier by (auto split: option.split)
  qed
qed simp

lemma answers_of:
  "y \<in> set qs \<Longrightarrow> q_context y = c \<Longrightarrow> a \<in> set as \<Longrightarrow> a_question_id a = q_id y \<Longrightarrow>
   a \<in> set (concat (map (\<lambda>q. filter (\<lambda>a. a_question_id a = q_id q) as) (filter (\<lambda>q. q_context q = c) qs)))"
  by auto

definition plain_question :: "panel_db \<Rightarrow> int \<Rightarrow> bool" where
  \<comment> \<open>one that asks for no value\<close>
  "plain_question p q \<longleftrightarrow> map_of (pd_fields p) q = None \<and> map_of (pd_secret_name p) q = None"

lemma run_site_exec:
  "en_fault en (ad_tick w) = None \<Longrightarrow> run_state (site_exec en sid f) w =
     (None, w\<lparr>ad_tick := Suc (ad_tick w), ad_sites := map (\<lambda>(j, p). (j, if j = sid then f p else p)) (ad_sites w)\<rparr>)"
  by (simp add: site_exec_def run_bind)

lemma run_site_query:
  "en_fault en (ad_tick w) = None \<Longrightarrow> run_state (site_query en sid f) w =
     (map_option f (map_of (ad_sites w) sid), w\<lparr>ad_tick := Suc (ad_tick w)\<rparr>)"
  by (simp add: site_query_def run_bind)

lemma map_of_at: "map_of (map (\<lambda>(j, p). (j, if j = i then f p else p)) xs) i = map_option f (map_of xs i)"
  by (induction xs) auto

lemma wake_brain_sites: "ad_sites (snd (run_state (wake_brain en sid q n) w)) = ad_sites w"
  by (simp add: wake_brain_def run_bind site_query_def split: option.split)

lemma answer_stored:
  assumes "\<And>n. en_fault en n = None" "sid \<noteq> 0" "map_of (ad_sites w) sid = Some p" "plain_question p q" "txt \<noteq> []"
  shows "map_of (ad_sites (snd (run_state (Questions_Answer en (Some q) (Some (txt, sid))) w))) sid =
    Some (p\<lparr>pd_site := (pd_site p)\<lparr>
      questions := map (\<lambda>x. if q_id x = q then x\<lparr>q_status := ''answered''\<rparr> else x) (questions (pd_site p)),
      answers := answers (pd_site p) @ [\<lparr>a_question_id = q, a_answer = txt, a_created_at = en_now en\<rparr>]\<rparr>\<rparr>)"
proof -
  have keep: "run_state (keep_values en sid q txt) w = (Inr txt, w\<lparr>ad_tick := Suc (ad_tick w)\<rparr>)"
    using assms by (auto simp: keep_values_def run_bind run_site_query plain_question_def single_secret_def split: option.split)
  have "ad_sites (snd (run_state (record_answer en sid q txt) v)) =
      map (\<lambda>(j, p). (j, if j = sid then p\<lparr>pd_site := (pd_site p)\<lparr>answers := answers (pd_site p) @
          [\<lparr>a_question_id = q, a_answer = txt, a_created_at = en_now en\<rparr>]\<rparr>\<rparr> else p))
        (map (\<lambda>(j, p). (j, if j = sid then p\<lparr>pd_site := (pd_site p)\<lparr>questions :=
          map (\<lambda>x. if q_id x = q then x\<lparr>q_status := ''answered''\<rparr> else x) (questions (pd_site p))\<rparr>\<rparr> else p)) (ad_sites v))" for v
    using assms(1) by (simp add: record_answer_def run_bind run_site_exec run_site_query Let_def wake_brain_sites del: map_map)
  then show ?thesis
    using assms keep by (simp add: Questions_Answer_def run_bind open_site_def map_of_at del: map_map)
qed

text \<open>
  C30. A token of any visitor of any site, whatever the visitor's role, opens the answers of the panel, because
  only its signature and its expiry are looked at: with it the visitor can answer the approval question of
  any site, and the destructive action the owner was asked about counts as approved.
\<close>
theorem visitor_approves:
  assumes "\<And>n. en_fault en n = None" "en_jwt en = (lib, j)" "env_jwt (au_api env) = Some (lib, j)" "0 < jwt_expiry j"
    and law: "\<And>c t. SignedString lib c (jwt_secret j) = Inr t \<Longrightarrow> au_now env < ExpiresAt c \<Longrightarrow>
      ParseWithClaims lib (\<lambda>hmac. if hmac then Inr (jwt_secret j) else Inl ''unexpected signing method'') t = Inr (c, True)"
    and "generateUserToken env i name role = Inr token" "Header r ''Authorization'' = ''Bearer '' @ token"
    and "find_route r = Inr (''questions/{questionID}/answer'', Session)"
    and "sid \<noteq> 0" "map_of (ad_sites w) sid = Some p" "plain_question p (q_id x)" "x \<in> set (questions (pd_site p))"
    and "q_context x = approvalKeyPrefix @ key" "\<And>a. a \<in> set (answers (pd_site p)) \<Longrightarrow> a_created_at a < en_now en"
  shows "fst (admin_gate lib j now limiter r) = Inr ''questions/{questionID}/answer'' \<and>
    (\<exists>p'. map_of (ad_sites (snd (run_state (Questions_Answer en (Some (q_id x)) (Some (''yes'', sid))) w))) sid = Some p' \<and>
      map_option approves (approval_answer key (pd_site p')) = Some True)"
proof
  obtain c where "ValidateToken lib j token = Inr c"
    using visitor_claims [OF assms(3,4) law assms(6)] by blast
  then show "fst (admin_gate lib j now limiter r) = Inr ''questions/{questionID}/answer''"
    using assms(8) bearer_token [OF assms(7)] by (simp add: admin_gate_def Authenticator_def)
next
  let ?new = "\<lparr>a_question_id = q_id x, a_answer = ''yes'', a_created_at = en_now en\<rparr>"
  let ?p' = "p\<lparr>pd_site := (pd_site p)\<lparr>
      questions := map (\<lambda>y. if q_id y = q_id x then y\<lparr>q_status := ''answered''\<rparr> else y) (questions (pd_site p)),
      answers := answers (pd_site p) @ [?new]\<rparr>\<rparr>"
  let ?as = "concat (map (\<lambda>q. filter (\<lambda>a. a_question_id a = q_id q) (answers (pd_site ?p')))
      (filter (\<lambda>q. q_context q = approvalKeyPrefix @ key) (questions (pd_site ?p'))))"
  have "map_of (ad_sites (snd (run_state (Questions_Answer en (Some (q_id x)) (Some (''yes'', sid))) w))) sid = Some ?p'"
    using assms(1,9-11) by (intro answer_stored) auto
  moreover have "latest ?as = Some ?new"
  proof (rule latest_newest)
    have "x\<lparr>q_status := ''answered''\<rparr> \<in> set (questions (pd_site ?p'))" using assms(12) by (auto intro: rev_image_eqI)
    then show "?new \<in> set ?as" by (rule answers_of) (simp_all add: assms(13))
    show "a = ?new \<or> a_created_at a < a_created_at ?new" if "a \<in> set ?as" for a
      using that assms(14) by auto
  qed
  moreover have "approves ''yes''" by code_simp
  ultimately show "\<exists>p'. map_of (ad_sites (snd (run_state (Questions_Answer en (Some (q_id x)) (Some (''yes'', sid))) w))) sid = Some p' \<and>
      map_option approves (approval_answer key (pd_site p')) = Some True"
    by (intro exI [of _ ?p'] conjI) (simp_all only: approval_answer_def option.map answer_row.simps)
qed
section \<open>A panel\<close>

definition panel_env :: "unit admin_env" where
  "panel_env = \<lparr>en_fault = (\<lambda>_. None), en_bcrypt = (\<lambda>_ p. Inr (CHR ''#'' # p)), en_compare = (\<lambda>h p. h = CHR ''#'' # p),
     en_jwt = (plain_tokens, \<lparr>jwt_secret = ''k'', jwt_expiry = 5, SecureCookies = False\<rparr>), en_now = 0, en_aead = xor_free_cipher,
     en_nonce = (\<lambda>_. Some ''ab''), en_factory = Some (\<lambda>_ _ _ _. Some ()), en_ping = (\<lambda>_ _. None), en_json = (\<lambda>_. None),
     en_foreign_keys = False, en_stored = (\<lambda>_. Inl ''no file''), en_fields = (\<lambda>_. None), en_values = (\<lambda>_. None), en_bus = True\<rparr>"

definition panel_user :: "int \<Rightarrow> string \<Rightarrow> string \<Rightarrow> user" where
  "panel_user i name role = \<lparr>u_id = i, u_name = name, u_hash = ''#x'', u_display = [], u_role = role\<rparr>"

definition panel_provider :: provider_row where
  "panel_provider = \<lparr>pr_id = 1, pr_name = ''local'', pr_type = ''openai'', pr_key = None, pr_url = Some ''http://h'', pr_enabled = True, pr_config = ''{}''\<rparr>"

definition panel_site :: panel_db where
  "panel_site = \<lparr>pd_site = (sdb fresh_world)\<lparr>questions := [approval_question 3 ''Drop users?'' ''drop:users'']\<rparr>, pd_secrets = [],
     pd_memory = [], pd_secret_name = [], pd_fields = []\<rparr>"

definition panel :: "user list \<Rightarrow> unit admin_world" where
  "panel us = \<lparr>ad_tick = 0, ad_db = \<lparr>users = us, user_seq = 2, llm_providers = [panel_provider], provider_seq = 1, llm_models = [], model_seq = 0\<rparr>,
     ad_registry = NewLLMRegistry, ad_events = [], ad_sites = [(9, panel_site)]\<rparr>"

lemma panel_env_fields [simp]:
  "en_fault panel_env n = None" "en_bcrypt panel_env c p = Inr (CHR ''#'' # p)"
  "en_jwt panel_env = (plain_tokens, \<lparr>jwt_secret = ''k'', jwt_expiry = 5, SecureCookies = False\<rparr>)" "en_now panel_env = 0"
  "en_nonce panel_env n = Some ''ab''" "en_factory panel_env = Some (\<lambda>_ _ _ _. Some ())"
  by (simp_all add: panel_env_def)

lemma panel_fields [simp]:
  "users (ad_db (panel us)) = us" "llm_providers (ad_db (panel us)) = [panel_provider]" "llm_models (ad_db (panel us)) = []"
  "ad_sites (panel us) = [(9, panel_site)]" "ad_tick (panel us) = 0" "user_seq (ad_db (panel us)) = 2"
  by (simp_all add: panel_def)

definition editor_request :: "string \<Rightarrow> string \<Rightarrow> request" where
  "editor_request m path = (visit m [] [])\<lparr>URLPath := path, Header := \<lambda>_. ''Bearer '' @ [CHR 0x01, CHR 0x07] @ ''ann.editor''\<rparr>"

lemma plain_tokens_law:
  "SignedString plain_tokens c k = Inr t \<Longrightarrow> f True = Inr k' \<Longrightarrow> ParseWithClaims plain_tokens f t = Inr (c, True)"
  by (auto simp: plain_tokens_def split: if_splits)

lemma answer_route: "find_route (editor_request ''POST'' ''/admin/api/questions/3/answer'') = Inr (''questions/{questionID}/answer'', Session)"
  unfolding editor_request_def visit_def by code_simp

theorem visitor_approves_witness:
  "fst (admin_gate plain_tokens \<lparr>jwt_secret = ''k'', jwt_expiry = 5, SecureCookies = False\<rparr> 0 (admin_limiter 0)
      (editor_request ''POST'' ''/admin/api/questions/3/answer'')) = Inr ''questions/{questionID}/answer'' \<and>
   (\<exists>p'. map_of (ad_sites (snd (run_state (Questions_Answer panel_env (Some 3) (Some (''yes'', 9))) (panel [])))) 9 = Some p' \<and>
      map_option approves (approval_answer ''drop:users'' (pd_site p')) = Some True)"
proof -
  have site: "map_of (ad_sites (panel [])) 9 = Some panel_site" "plain_question panel_site (q_id (approval_question 3 ''Drop users?'' ''drop:users''))"
    "approval_question 3 ''Drop users?'' ''drop:users'' \<in> set (questions (pd_site panel_site))" "answers (pd_site panel_site) = []"
    by (simp_all add: panel_site_def plain_question_def fresh_world_def)
  have token: "generateUserToken visitors_env 7 ''ann'' ''editor'' = Inr ([CHR 0x01, CHR 0x07] @ ''ann.editor'')"
    by (simp add: generateUserToken_def GenerateForSite_def plain_tokens_def)
  have header: "Header (editor_request m path) ''Authorization'' = ''Bearer '' @ [CHR 0x01, CHR 0x07] @ ''ann.editor''" for m path
    by (simp add: editor_request_def)
  have id: "q_id (approval_question 3 ''Drop users?'' ''drop:users'') = 3" by (simp add: approval_question_def)
  show ?thesis
    by (rule visitor_approves [OF _ _ _ _ plain_tokens_law token header answer_route _ site(1-3) pending_approval_question(1), unfolded id])
      (simp_all add: site(4))
qed
lemma editor_token:
  "\<exists>c. Authenticator plain_tokens \<lparr>jwt_secret = ''k'', jwt_expiry = 5, SecureCookies = False\<rparr> (editor_request m path) = Inr c"
  by (simp add: Authenticator_def request_token_def editor_request_def has_prefix_def ValidateToken_def plain_tokens_def)

theorem admin_gate_guards_witness:
  "\<exists>c. Authenticator plain_tokens \<lparr>jwt_secret = ''k'', jwt_expiry = 5, SecureCookies = False\<rparr>
     (editor_request ''POST'' ''/admin/api/questions/3/answer'') = Inr c"
proof -
  have gate: "fst (admin_gate plain_tokens \<lparr>jwt_secret = ''k'', jwt_expiry = 5, SecureCookies = False\<rparr> 0 (admin_limiter 0)
      (editor_request ''POST'' ''/admin/api/questions/3/answer'')) = Inr ''questions/{questionID}/answer''"
    using editor_token [of "''POST''" "''/admin/api/questions/3/answer''"] by (auto simp: admin_gate_def answer_route)
  from admin_gate_guards [OF gate] show ?thesis by (simp add: public_routes_def)
qed

theorem last_admin_kept_witness:
  "admins_ok (ad_db (after [Users_Delete panel_env (Some 1), Users_Delete panel_env (Some 2)] (panel [panel_user 1 ''ann'' ''admin'', panel_user 2 ''bob'' ''admin''])))"
  by (rule last_admin_kept [of panel_env])
    (auto intro: panel_op.intros simp: admins_ok_def users_ok_def admin_count_def panel_user_def)

definition panel_setup :: setupRequest where
  "panel_setup = \<lparr>su_username = ''eve'', su_password = ''pw'', su_display = [], su_provider = 0, su_model = [], su_key = []\<rparr>"

theorem setup_once_witness:
  "ad_db (snd (run_state (HandleSetup panel_env (Some panel_setup)) (panel [panel_user 1 ''ann'' ''user'']))) = ad_db (panel [panel_user 1 ''ann'' ''user''])"
  using setup_once [OF prod.collapse [symmetric], of panel_env "Some panel_setup" "panel [panel_user 1 ''ann'' ''user'']"] by simp

theorem concurrent_deletes_reopen_setup_witness:
  "\<exists>w'. users (ad_db w') = [] \<and>
     (\<exists>a. users (ad_db (snd (run_state (HandleSetup panel_env (Some panel_setup)) w'))) = [a] \<and> u_role a = ''admin'' \<and> u_name a = ''eve'')"
  using concurrent_deletes_reopen_setup [of panel_env "panel [panel_user 1 ''ann'' ''admin'', panel_user 2 ''bob'' ''admin'']"
      "panel_user 1 ''ann'' ''admin''" "panel_user 2 ''bob'' ''admin''" panel_setup "''#pw''"]
  by (auto simp: panel_user_def panel_setup_def)

theorem provider_update_erases_address_witness:
  "case run_state (Providers_Update panel_env (Some 1) (Some \<lparr>up_name = ''local'', up_key = ''s'', up_url = None, up_enabled = True\<rparr>)) (panel []) of
    (resp, w') \<Rightarrow> response.Status resp = 200 \<and> provider_of (ad_registry w') ''local'' = Some () \<and>
      (\<exists>q. find_provider 1 (ad_db w') = Inr q \<and> pr_type q = ''openai'' \<and> pr_url q = None)"
  using provider_update_erases_address [of panel_env 1 "panel []" panel_provider "CHR ''h''" "''ttp://h''"
      "\<lparr>up_name = ''local'', up_key = ''s'', up_url = None, up_enabled = True\<rparr>" "CHR ''s''" "[]" "''ab''" "\<lambda>_ _ _ _. Some ()" "()"]
  by (simp add: panel_provider_def find_provider_def)

theorem one_default_model_witness:
  "length (filter md_default (models_of 1 (ad_db (after [CreateModel panel_env (Some 1) (Some \<lparr>md_id = 0, md_provider = 0, md_model = ''m'',
     md_display = [], md_tokens = 0, md_streaming = True, md_tools = True, md_default = True\<rparr>), SetDefaultModel panel_env (Some 1) (Some 1)] (panel []))))) \<le> 1"
  by (rule one_default_model [of panel_env]) (auto intro: panel_op.intros simp: defaults_ok_def)

end
