(* ===== verification/Bus.thy ===== *)
theory Bus
  imports Prelude "HOL-Library.Word" "HOL-Library.Multiset"
begin

text \<open>
  The event bus of \<^verbatim>\<open>events/bus.go\<close>: typed and global subscriptions with identifiers from an atomic
  64-bit counter. A handler changes a shared state and may panic; \<^verbatim>\<open>Publish\<close> recovers each panic. The
  results: identifiers stay unique until the counter wraps, unsubscribing removes exactly one
  subscription, and every subscriber of an event is called once, in order, whatever the others do.
\<close>

type_synonym ('e, 's) HandlerFunc = "'e \<Rightarrow> 's \<Rightarrow> bool \<times> 's"
  \<comment> \<open>true: the handler panicked; the state is what it had done by then\<close>

record ('e, 's) subscription =
  sub_id :: "64 word"
  handler :: "('e, 's) HandlerFunc"

record ('e, 's) Bus =
  handlers :: "(string \<times> ('e, 's) subscription list) list"
  global :: "('e, 's) subscription list"
  nextID :: "64 word"

definition NewBus :: "('e, 's) Bus" where
  "NewBus = \<lparr>handlers = [], global = [], nextID = 0\<rparr>"

definition subs_of :: "('e, 's) Bus \<Rightarrow> string \<Rightarrow> ('e, 's) subscription list" where
  "subs_of b ty = (case map_of (handlers b) ty of Some s \<Rightarrow> s | None \<Rightarrow> [])"

definition Subscribe :: "string \<Rightarrow> ('e, 's) HandlerFunc \<Rightarrow> ('e, 's) Bus \<Rightarrow> 64 word \<times> ('e, 's) Bus" where
  "Subscribe ty h b =
     (let i = nextID b + 1 in
      (i, b\<lparr>nextID := i,
            handlers := AList.update ty (subs_of b ty @ [\<lparr>sub_id = i, handler = h\<rparr>]) (handlers b)\<rparr>))"

definition SubscribeAll :: "('e, 's) HandlerFunc \<Rightarrow> ('e, 's) Bus \<Rightarrow> 64 word \<times> ('e, 's) Bus" where
  "SubscribeAll h b =
     (let i = nextID b + 1 in
      (i, b\<lparr>nextID := i, global := global b @ [\<lparr>sub_id = i, handler = h\<rparr>]\<rparr>))"

fun remove_sub :: "64 word \<Rightarrow> ('e, 's) subscription list \<Rightarrow> ('e, 's) subscription list option" where
  \<comment> \<open>without the first subscription of that identifier, if there is one\<close>
  "remove_sub i [] = None"
| "remove_sub i (s # ss) = (if sub_id s = i then Some ss else map_option ((#) s) (remove_sub i ss))"

fun remove_typed ::
  "64 word \<Rightarrow> (string \<times> ('e, 's) subscription list) list \<Rightarrow> (string \<times> ('e, 's) subscription list) list option" where
  "remove_typed i [] = None"
| "remove_typed i ((ty, ss) # hs) =
     (case remove_sub i ss of
        Some ss' \<Rightarrow> Some ((ty, ss') # hs)
      | None \<Rightarrow> map_option ((#) (ty, ss)) (remove_typed i hs))"

definition Unsubscribe :: "64 word \<Rightarrow> ('e, 's) Bus \<Rightarrow> ('e, 's) Bus" where
  "Unsubscribe i b =
     (case remove_typed i (handlers b) of
        Some hs \<Rightarrow> b\<lparr>handlers := hs\<rparr>
      | None \<Rightarrow> (case remove_sub i (global b) of Some g \<Rightarrow> b\<lparr>global := g\<rparr> | None \<Rightarrow> b))"

fun run_handlers :: "'e \<Rightarrow> ('e, 's) subscription list \<Rightarrow> 's \<Rightarrow> (64 word \<times> bool) list \<times> 's" where
  \<comment> \<open>the calls made, with whether each panicked\<close>
  "run_handlers ev [] s = ([], s)"
| "run_handlers ev (h # hs) s =
     (let (panicked, s') = handler h ev s; (log, s'') = run_handlers ev hs s'
      in ((sub_id h, panicked) # log, s''))"

definition Publish :: "string \<Rightarrow> 'e \<Rightarrow> ('e, 's) Bus \<Rightarrow> 's \<Rightarrow> (64 word \<times> bool) list \<times> 's" where
  "Publish ty ev b s =
     (let (log1, s1) = run_handlers ev (subs_of b ty) s;
          (log2, s2) = run_handlers ev (global b) s1
      in (log1 @ log2, s2))"

section \<open>Identifiers\<close>

definition all_subs :: "('e, 's) Bus \<Rightarrow> ('e, 's) subscription list" where
  "all_subs b = concat (map snd (handlers b)) @ global b"

definition bus_ok :: "('e, 's) Bus \<Rightarrow> bool" where
  "bus_ok b \<longleftrightarrow> distinct (map fst (handlers b)) \<and> distinct (map sub_id (all_subs b)) \<and>
     (\<forall>s \<in> set (all_subs b). sub_id s \<le> nextID b)"

lemma NewBus_ok: "bus_ok NewBus"
  by (simp add: NewBus_def bus_ok_def all_subs_def)

lemma word_Suc_gt: "(n::64 word) + 1 \<noteq> 0 \<Longrightarrow> i \<le> n \<Longrightarrow> i < n + 1"
  using unatSuc [of n] by (simp add: word_le_nat_alt word_less_nat_alt add.commute)

lemma mset_update:
  "distinct (map fst hs) \<Longrightarrow>
     mset (concat (map snd (AList.update k ((case map_of hs k of Some s \<Rightarrow> s | None \<Rightarrow> []) @ xs) hs))) =
     mset (concat (map snd hs)) + mset xs"
proof (induction hs)
  case (Cons h hs)
  obtain k' v where h: "h = (k', v)" by (cases h)
  show ?case
  proof (cases "k' = k")
    case True
    with h show ?thesis by simp
  next
    case False
    with Cons h show ?thesis by simp
  qed
qed simp

lemma ids_extend:
  assumes "bus_ok b" "mset (all_subs b') = mset (all_subs b) + {#\<lparr>sub_id = nextID b + 1, handler = h\<rparr>#}"
    and "nextID b' = nextID b + 1" "nextID b + 1 \<noteq> 0" "distinct (map fst (handlers b'))"
  shows "bus_ok b'"
proof -
  have "mset (map sub_id (all_subs b')) = mset (map sub_id (all_subs b) @ [nextID b + 1])"
    using assms(2) by (metis (no_types, lifting) image_mset_single image_mset_union list.simps(8,9) mset.simps mset_append
        mset_map add_mset_add_single subscription.select_convs(1) union_mset_add_mset_right)
  then have "distinct (map sub_id (all_subs b')) = distinct (map sub_id (all_subs b) @ [nextID b + 1])"
    by (rule mset_eq_imp_distinct_iff)
  moreover have "nextID b + 1 \<notin> set (map sub_id (all_subs b))"
    using assms(1,4) word_Suc_gt [of "nextID b"] by (fastforce simp: bus_ok_def)
  moreover have "set (all_subs b') = insert \<lparr>sub_id = nextID b + 1, handler = h\<rparr> (set (all_subs b))"
    using arg_cong [OF assms(2), of set_mset] by simp
  moreover have "\<forall>s \<in> set (all_subs b). sub_id s \<le> nextID b + 1"
    using assms(1,4) word_Suc_gt [of "nextID b"] by (auto simp: bus_ok_def less_imp_le)
  ultimately show ?thesis using assms(1,3,5) by (auto simp: bus_ok_def)
qed

lemma Subscribe_ok:
  assumes "bus_ok b" "nextID b + 1 \<noteq> 0"
  shows "bus_ok (snd (Subscribe ty h b))"
proof (rule ids_extend [OF assms(1), where h = h])
  show "mset (all_subs (snd (Subscribe ty h b))) = mset (all_subs b) + {#\<lparr>sub_id = nextID b + 1, handler = h\<rparr>#}"
    using mset_update [of "handlers b" ty "[\<lparr>sub_id = nextID b + 1, handler = h\<rparr>]"] assms(1)
    by (simp add: Subscribe_def Let_def all_subs_def subs_of_def bus_ok_def)
  show "distinct (map fst (handlers (snd (Subscribe ty h b))))"
    using assms(1) by (simp add: Subscribe_def Let_def bus_ok_def)
qed (use assms in \<open>simp_all add: Subscribe_def Let_def\<close>)

lemma SubscribeAll_ok:
  assumes "bus_ok b" "nextID b + 1 \<noteq> 0"
  shows "bus_ok (snd (SubscribeAll h b))"
  by (rule ids_extend [OF assms(1), where h = h])
    (use assms in \<open>simp_all add: SubscribeAll_def Let_def all_subs_def bus_ok_def\<close>)

section \<open>Unsubscribing\<close>

lemma remove_sub_None: "remove_sub i ss = None \<longleftrightarrow> i \<notin> set (map sub_id ss)"
  by (induction ss) auto

lemma remove_sub_Some:
  "remove_sub i ss = Some ss' \<Longrightarrow> distinct (map sub_id ss) \<Longrightarrow> ss' = filter (\<lambda>s. sub_id s \<noteq> i) ss"
proof (induction ss arbitrary: ss')
  case (Cons s ss)
  have "filter (\<lambda>x. sub_id x \<noteq> sub_id s) ss = ss"
    by (rule filter_True) (use Cons.prems in \<open>auto simp: image_iff eq_commute\<close>)
  with Cons show ?case by (auto split: if_splits)
qed simp

lemma filter_absent: "i \<notin> set (map sub_id ss) \<Longrightarrow> filter (\<lambda>s. sub_id s \<noteq> i) ss = ss"
  by (rule filter_True) auto

lemma remove_typed_None: "remove_typed i hs = None \<longleftrightarrow> i \<notin> set (map sub_id (concat (map snd hs)))"
proof (induction i hs rule: remove_typed.induct)
  case (2 i ty ss hs)
  have "remove_sub i ss = None \<longleftrightarrow> i \<notin> set (map sub_id ss)" by (rule remove_sub_None)
  with 2 show ?case by (cases "remove_sub i ss") auto
qed simp

lemma remove_typed_Some:
  "remove_typed i hs = Some hs' \<Longrightarrow> distinct (map sub_id (concat (map snd hs))) \<Longrightarrow>
     map fst hs' = map fst hs \<and>
     concat (map snd hs') = filter (\<lambda>s. sub_id s \<noteq> i) (concat (map snd hs))"
proof (induction i hs arbitrary: hs' rule: remove_typed.induct)
  case (2 i ty ss hs)
  show ?case
  proof (cases "remove_sub i ss")
    case None
    with 2 filter_absent [of i ss] show ?thesis by (auto simp: remove_sub_None)
  next
    case (Some ss')
    then have "i \<in> set (map sub_id ss)" by (metis not_None_eq remove_sub_None)
    with 2(3) have "i \<notin> set (map sub_id (concat (map snd hs)))" by auto
    from filter_absent [OF this] Some 2 remove_sub_Some [OF Some] show ?thesis by auto
  qed
qed simp

lemma all_subs_Unsubscribe:
  assumes "bus_ok b"
  shows "all_subs (Unsubscribe i b) = filter (\<lambda>s. sub_id s \<noteq> i) (all_subs b) \<and>
    map fst (handlers (Unsubscribe i b)) = map fst (handlers b) \<and> nextID (Unsubscribe i b) = nextID b"
proof -
  from assms have d: "distinct (map sub_id (concat (map snd (handlers b))))" "distinct (map sub_id (global b))"
    and disj: "set (map sub_id (concat (map snd (handlers b)))) \<inter> set (map sub_id (global b)) = {}"
    by (auto simp: bus_ok_def all_subs_def)
  show ?thesis
  proof (cases "remove_typed i (handlers b)")
    case (Some hs)
    then have "i \<in> set (map sub_id (concat (map snd (handlers b))))" by (metis not_None_eq remove_typed_None)
    with disj have "i \<notin> set (map sub_id (global b))" by blast
    from filter_absent [OF this] Some remove_typed_Some [OF Some d(1)] show ?thesis
      by (simp add: Unsubscribe_def all_subs_def)
  next
    case None
    then have typed: "filter (\<lambda>s. sub_id s \<noteq> i) (concat (map snd (handlers b))) = concat (map snd (handlers b))"
      using filter_absent [of i "concat (map snd (handlers b))"] remove_typed_None [of i "handlers b"] by blast
    show ?thesis
    proof (cases "remove_sub i (global b)")
      case gNone: None
      then have "filter (\<lambda>s. sub_id s \<noteq> i) (global b) = global b"
        using filter_absent [of i "global b"] remove_sub_None [of i "global b"] by blast
      with None gNone typed show ?thesis by (simp add: Unsubscribe_def all_subs_def)
    next
      case (Some g)
      with None typed remove_sub_Some [OF Some d(2)] show ?thesis by (simp add: Unsubscribe_def all_subs_def)
    qed
  qed
qed

lemma Unsubscribe_ok: "bus_ok b \<Longrightarrow> bus_ok (Unsubscribe i b)"
  using all_subs_Unsubscribe [of b i] by (auto simp: bus_ok_def distinct_map_filter)

inductive bus_step :: "('e, 's) Bus \<Rightarrow> ('e, 's) Bus \<Rightarrow> bool" where
  subscribe: "nextID b + 1 \<noteq> 0 \<Longrightarrow> bus_step b (snd (Subscribe ty h b))"
| subscribe_all: "nextID b + 1 \<noteq> 0 \<Longrightarrow> bus_step b (snd (SubscribeAll h b))"
| unsubscribe: "bus_step b (Unsubscribe i b)"

inductive_cases bus_stepE: "bus_step b b'"

interpretation bus: step_invariant bus_step bus_ok
  by unfold_locales (auto elim!: bus_stepE intro: Subscribe_ok SubscribeAll_ok Unsubscribe_ok)

text \<open>
  C9. Through any sequence of subscriptions and removals (fewer than $2^{64}$ subscriptions) the
  identifiers of a bus are distinct, and removing an identifier removes exactly its subscription.
\<close>
theorem bus_unsubscribe_exact:
  assumes "reaches bus_step NewBus b"
  shows "distinct (map sub_id (all_subs b)) \<and>
    all_subs (Unsubscribe i b) = filter (\<lambda>s. sub_id s \<noteq> i) (all_subs b)"
proof -
  have "bus_ok b" by (rule bus.reaches_inv [OF assms NewBus_ok])
  with all_subs_Unsubscribe [of b i] show ?thesis by (simp add: bus_ok_def)
qed

definition two_handlers :: "(nat, nat) Bus" where
  "two_handlers = snd (SubscribeAll (\<lambda>e s. (False, s)) (snd (Subscribe ''brain.error'' (\<lambda>e s. (True, s + e)) NewBus)))"

theorem bus_unsubscribe_exact_witness:
  "distinct (map sub_id (all_subs two_handlers)) \<and> map sub_id (all_subs (Unsubscribe 1 two_handlers)) = [2]"
proof -
  have "bus_step NewBus (snd (Subscribe ''brain.error'' (\<lambda>e s. (True, s + e :: nat)) NewBus))"
    by (rule bus_step.subscribe) (simp add: NewBus_def)
  moreover have "bus_step \<dots> two_handlers"
    unfolding two_handlers_def by (rule bus_step.subscribe_all) (simp add: NewBus_def Subscribe_def Let_def)
  ultimately have "reaches bus_step NewBus two_handlers"
    by (blast intro: reaches.intros)
  from bus_unsubscribe_exact [OF this, of 1] show ?thesis
    by (simp add: two_handlers_def all_subs_def NewBus_def Subscribe_def SubscribeAll_def subs_of_def Let_def)
qed

section \<open>Publishing\<close>

lemma run_handlers_calls: "map fst (fst (run_handlers ev hs s)) = map sub_id hs"
  by (induction ev hs s rule: run_handlers.induct) (auto split: prod.splits)

lemma run_handlers_append:
  "run_handlers ev (hs @ gs) s =
     (let (l1, s1) = run_handlers ev hs s; (l2, s2) = run_handlers ev gs s1 in (l1 @ l2, s2))"
  by (induction hs arbitrary: s) (auto split: prod.splits)

text \<open>
  Publishing calls every handler of the event's type and then every global handler, each once, in
  the order of their subscription, whether or not some of them panic.
\<close>
theorem Publish_calls_all:
  "map fst (fst (Publish ty ev b s)) = map sub_id (subs_of b ty @ global b) \<and>
   snd (Publish ty ev b s) = foldl (\<lambda>s h. snd (handler h ev s)) s (subs_of b ty @ global b)"
proof -
  have final: "snd (run_handlers ev hs s) = foldl (\<lambda>s h. snd (handler h ev s)) s hs" for hs s
    by (induction hs arbitrary: s) (simp_all add: case_prod_beta Let_def)
  have "Publish ty ev b s = run_handlers ev (subs_of b ty @ global b) s"
    by (simp add: Publish_def run_handlers_append)
  then show ?thesis by (simp only: run_handlers_calls final simp_thms)
qed

end
