(* ===== verification/Rooms.thy ===== *)
theory Rooms
  imports Auth Bus "HOL-Library.Sublist"
begin

text \<open>
  The rooms of the WebSocket hub (\<^verbatim>\<open>server/public/ws_hub.go\<close>) and the sockets of \<^verbatim>\<open>apiWebSocket\<close> that
  relay messages through it. A socket is two goroutines that share the hub with all the others, so the relay
  is a step relation in which a broadcast is a snapshot of the room followed by one send at a time. Buffered
  channels are lists in a heap, of at most 64 messages. Shown, for every interleaving: who receives what and
  in which order, that rooms are isolated, and that one message stops the server.
\<close>

section \<open>The hub\<close>

record wsClient =
  WsId :: string
  WsCh :: nat

record wsHub =
  rooms :: "(string \<times> (string \<times> wsClient) list) list"
  chans :: "string list list"

definition NewWSHub :: wsHub where
  "NewWSHub = \<lparr>rooms = [], chans = []\<rparr>"

definition get_room :: "wsHub \<Rightarrow> string \<Rightarrow> (string \<times> wsClient) list option" where
  "get_room h = map_of (rooms h)"

definition put_room :: "string \<Rightarrow> (string \<times> wsClient) list \<Rightarrow> wsHub \<Rightarrow> wsHub" where
  "put_room k r h = h\<lparr>rooms := AList.update k r (rooms h)\<rparr>"

definition drop_room :: "string \<Rightarrow> wsHub \<Rightarrow> wsHub" where
  "drop_room k h = h\<lparr>rooms := AList.delete k (rooms h)\<rparr>"

interpretation hub_rooms: keyed_store get_room put_room drop_room
  by unfold_locales (auto simp: get_room_def put_room_def drop_room_def update_conv' delete_conv')

definition members :: "wsHub \<Rightarrow> string \<Rightarrow> (string \<times> wsClient) list" where
  \<comment> \<open>ranging over a missing room is ranging over nothing\<close>
  "members h k = (case get_room h k of Some r \<Rightarrow> r | None \<Rightarrow> [])"

definition hub_join :: "string \<Rightarrow> string \<Rightarrow> wsHub \<Rightarrow> wsClient \<times> wsHub" where
  "hub_join roomKey clientID h =
     (let c = \<lparr>WsId = clientID, WsCh = length (chans h)\<rparr>
      in (c, put_room roomKey (AList.update clientID c (members h roomKey)) (h\<lparr>chans := chans h @ [[]]\<rparr>)))"

definition hub_leave :: "string \<Rightarrow> string \<Rightarrow> wsHub \<Rightarrow> wsHub" where
  "hub_leave roomKey clientID h =
     (case get_room h roomKey of
        None \<Rightarrow> h
      | Some room \<Rightarrow>
          (let room' = AList.delete clientID room
           in if room' = [] then drop_room roomKey h else put_room roomKey room' h))"

definition chan_send :: "'m \<Rightarrow> 'm list \<Rightarrow> 'm list" where
  \<comment> \<open>a send to a channel of 64 places that does not wait: a message that finds it full is dropped\<close>
  "chan_send m ch = (if length ch < 64 then ch @ [m] else ch)"

definition send_to :: "wsClient \<Rightarrow> string \<Rightarrow> wsHub \<Rightarrow> wsHub" where
  "send_to c m h = h\<lparr>chans := (chans h)[WsCh c := chan_send m (chans h ! WsCh c)]\<rparr>"

definition hub_targets :: "string \<Rightarrow> string \<Rightarrow> wsHub \<Rightarrow> wsClient list" where
  \<comment> \<open>the snapshot, up to the order in which Go ranges over the map\<close>
  "hub_targets roomKey senderID h = filter (\<lambda>c. WsId c \<noteq> senderID) (map snd (members h roomKey))"

definition hub_broadcast :: "string \<Rightarrow> string \<Rightarrow> string \<Rightarrow> wsHub \<Rightarrow> wsHub" where
  "hub_broadcast roomKey senderID msg h = fold (\<lambda>c. send_to c msg) (hub_targets roomKey senderID h) h"

definition hub_ok :: "wsHub \<Rightarrow> bool" where
  \<comment> \<open>no room is empty, a client is filed under its name, and its channel exists\<close>
  "hub_ok h \<longleftrightarrow> distinct (map fst (rooms h)) \<and>
     (\<forall>(k, r) \<in> set (rooms h). r \<noteq> [] \<and> distinct (map fst r) \<and> (\<forall>(i, c) \<in> set r. WsId c = i \<and> WsCh c < length (chans h)))"

lemma members_put [simp]: "members (put_room k r h) k' = (if k' = k then r else members h k')"
  by (simp add: members_def hub_rooms.lookup_put)

lemma members_drop [simp]: "members (drop_room k h) k' = (if k' = k then [] else members h k')"
  by (simp add: members_def hub_rooms.lookup_remove)

lemma members_chans [simp]: "members (h\<lparr>chans := cs\<rparr>) = members h"
  by (simp add: members_def get_room_def fun_eq_iff)

lemma chans_rooms [simp]: "chans (put_room k r h) = chans h" "chans (drop_room k h) = chans h"
  by (simp_all add: put_room_def drop_room_def)

lemma members_leave: "members (hub_leave k i h) k' = (if k' = k then AList.delete i (members h k) else members h k')"
  by (auto simp: hub_leave_def Let_def members_def [of h] split: option.split)

lemma chans_leave [simp]: "chans (hub_leave k i h) = chans h"
  by (auto simp: hub_leave_def Let_def split: option.split)

lemma members_join:
  "members (snd (hub_join k i h)) k' =
     (if k' = k then AList.update i \<lparr>WsId = i, WsCh = length (chans h)\<rparr> (members h k) else members h k')"
  by (simp add: hub_join_def Let_def)

lemma chans_join [simp]: "chans (snd (hub_join k i h)) = chans h @ [[]]"
  by (simp add: hub_join_def Let_def)

lemma client_join [simp]: "fst (hub_join k i h) = \<lparr>WsId = i, WsCh = length (chans h)\<rparr>"
  by (simp add: hub_join_def Let_def)

lemma send_to_simps [simp]:
  "members (send_to c m h) = members h" "length (chans (send_to c m h)) = length (chans h)" "rooms (send_to c m h) = rooms h"
  by (simp_all add: send_to_def)

lemma hub_ok_members:
  assumes "hub_ok h"
  shows "distinct (map fst (members h k))" "(i, c) \<in> set (members h k) \<Longrightarrow> WsId c = i \<and> WsCh c < length (chans h)"
  using assms by (auto simp: hub_ok_def members_def get_room_def dest: map_of_SomeD split: option.splits)

section \<open>The relay\<close>

text \<open>
  \<^verbatim>\<open>apiWebSocket\<close> after the handshake. The read goroutine decodes a message, stamps the sender and broadcasts;
  the other goroutine empties the client's channel into the connection. Neither recovers from a panic, and in Go
  an unrecovered panic of any goroutine ends the process. \<^verbatim>\<open>js_object\<close> and \<^verbatim>\<open>js_text\<close> are
  \<^verbatim>\<open>json.Unmarshal\<close> into an object and \<^verbatim>\<open>json.Marshal\<close>.
\<close>

datatype decoded = NotObject | NullObject | Object "(string \<times> gval) list"

record codec =
  js_object :: "string \<Rightarrow> decoded"
  js_text :: "(string \<times> gval) list \<Rightarrow> string"

datatype incoming = Skipped | Panicked | Relayed string

definition stamped :: "codec \<Rightarrow> string \<Rightarrow> string \<Rightarrow> incoming" where
  \<comment> \<open>\<^verbatim>\<open>null\<close> leaves the map nil without an error, and an assignment to a nil map panics\<close>
  "stamped cd clientID data =
     (case js_object cd data of
        NotObject \<Rightarrow> Skipped
      | NullObject \<Rightarrow> Panicked
      | Object ob \<Rightarrow> Relayed (js_text cd (AList.update ''_sender'' (GStr clientID) ob)))"

definition sender_of :: "codec \<Rightarrow> string \<Rightarrow> string option" where
  "sender_of cd m =
     (case js_object cd m of Object ob \<Rightarrow> (case map_of ob ''_sender'' of Some (GStr s) \<Rightarrow> Some s | _ \<Rightarrow> None) | _ \<Rightarrow> None)"

definition codec_ok :: "codec \<Rightarrow> bool" where
  \<comment> \<open>the sender's name can be read from what is encoded\<close>
  "codec_ok cd \<longleftrightarrow>
     (\<forall>ob s. map_of ob ''_sender'' = Some (GStr s) \<longrightarrow>
        (\<exists>ob'. js_object cd (js_text cd ob) = Object ob' \<and> map_of ob' ''_sender'' = Some (GStr s)))"

lemma sender_of_stamped:
  assumes "codec_ok cd" "stamped cd i data = Relayed m"
  shows "sender_of cd m = Some i"
proof -
  obtain ob where m: "m = js_text cd (AList.update ''_sender'' (GStr i) ob)"
    using assms(2) by (auto simp: stamped_def split: decoded.splits)
  have "map_of (AList.update ''_sender'' (GStr i) ob) ''_sender'' = Some (GStr i)" by simp
  then obtain ob' where "js_object cd m = Object ob'" "map_of ob' ''_sender'' = Some (GStr i)"
    using assms(1) m unfolding codec_ok_def by blast
  then show ?thesis by (simp add: sender_of_def)
qed

record sock =
  SkKey :: string
  SkClient :: wsClient
  SkReading :: bool
  SkPending :: "(string \<times> wsClient list) option"
  SkSaid :: "string list"
  SkWritten :: "string list"

record relay =
  hub :: wsHub
  socks :: "sock list"
  crashed :: bool

definition new_sock :: "string \<Rightarrow> wsClient \<Rightarrow> sock" where
  "new_sock key c = \<lparr>SkKey = key, SkClient = c, SkReading = True, SkPending = None, SkSaid = [], SkWritten = []\<rparr>"

definition set_sock :: "nat \<Rightarrow> sock \<Rightarrow> relay \<Rightarrow> relay" where
  "set_sock i s w = w\<lparr>socks := (socks w)[i := s]\<rparr>"

abbreviation sock_id :: "relay \<Rightarrow> nat \<Rightarrow> string" where
  "sock_id w i \<equiv> WsId (SkClient (socks w ! i))"

inductive relay_step :: "codec \<Rightarrow> relay \<Rightarrow> relay \<Rightarrow> bool" for cd where
  rs_open: "\<not> crashed w \<Longrightarrow> cid \<notin> sock_id w ` {..<length (socks w)} \<Longrightarrow> hub_join key cid (hub w) = (c, h) \<Longrightarrow>
    relay_step cd w (w\<lparr>hub := h, socks := socks w @ [new_sock key c]\<rparr>)"
| rs_read: "\<not> crashed w \<Longrightarrow> i < length (socks w) \<Longrightarrow> s = socks w ! i \<Longrightarrow> SkReading s \<Longrightarrow> SkPending s = None \<Longrightarrow>
    stamped cd (WsId (SkClient s)) data = Relayed m \<Longrightarrow>
    mset cs = mset (hub_targets (SkKey s) (WsId (SkClient s)) (hub w)) \<Longrightarrow>
    relay_step cd w (set_sock i (s\<lparr>SkPending := Some (m, cs), SkSaid := SkSaid s @ [m]\<rparr>) w)"
| rs_panic: "\<not> crashed w \<Longrightarrow> i < length (socks w) \<Longrightarrow> s = socks w ! i \<Longrightarrow> SkReading s \<Longrightarrow> SkPending s = None \<Longrightarrow>
    stamped cd (WsId (SkClient s)) data = Panicked \<Longrightarrow> relay_step cd w (w\<lparr>crashed := True\<rparr>)"
| rs_send: "\<not> crashed w \<Longrightarrow> i < length (socks w) \<Longrightarrow> s = socks w ! i \<Longrightarrow> SkPending s = Some (m, c # cs) \<Longrightarrow>
    relay_step cd w ((set_sock i (s\<lparr>SkPending := Some (m, cs)\<rparr>) w)\<lparr>hub := send_to c m (hub w)\<rparr>)"
| rs_sent: "\<not> crashed w \<Longrightarrow> i < length (socks w) \<Longrightarrow> s = socks w ! i \<Longrightarrow> SkPending s = Some (m, []) \<Longrightarrow>
    relay_step cd w (set_sock i (s\<lparr>SkPending := None\<rparr>) w)"
| rs_write: "\<not> crashed w \<Longrightarrow> i < length (socks w) \<Longrightarrow> s = socks w ! i \<Longrightarrow> chans (hub w) ! WsCh (SkClient s) = m # ms \<Longrightarrow>
    relay_step cd w ((set_sock i (s\<lparr>SkWritten := SkWritten s @ [m]\<rparr>) w)
      \<lparr>hub := (hub w)\<lparr>chans := (chans (hub w))[WsCh (SkClient s) := ms]\<rparr>\<rparr>)"
| rs_leave: "\<not> crashed w \<Longrightarrow> i < length (socks w) \<Longrightarrow> s = socks w ! i \<Longrightarrow>
    relay_step cd w (w\<lparr>hub := hub_leave (SkKey s) (WsId (SkClient s)) (hub w)\<rparr>)"
| rs_stop: "\<not> crashed w \<Longrightarrow> i < length (socks w) \<Longrightarrow> s = socks w ! i \<Longrightarrow> relay_step cd w (set_sock i (s\<lparr>SkReading := False\<rparr>) w)"

definition no_sockets :: relay where
  "no_sockets = \<lparr>hub = NewWSHub, socks = [], crashed = False\<rparr>"

definition received :: "relay \<Rightarrow> nat \<Rightarrow> string list" where
  \<comment> \<open>what the connection has written and what waits in its channel\<close>
  "received w j = SkWritten (socks w ! j) @ chans (hub w) ! WsCh (SkClient (socks w ! j))"

definition awaits :: "relay \<Rightarrow> nat \<Rightarrow> nat \<Rightarrow> bool" where
  \<comment> \<open>the broadcast of socket i has not reached socket j\<close>
  "awaits w i j \<longleftrightarrow> SkClient (socks w ! j) \<in> (case SkPending (socks w ! i) of Some (_, cs) \<Rightarrow> set cs | None \<Rightarrow> {})"

definition sent_so_far :: "relay \<Rightarrow> nat \<Rightarrow> nat \<Rightarrow> string list" where
  "sent_so_far w i j = (if awaits w i j then butlast (SkSaid (socks w ! i)) else SkSaid (socks w ! i))"

definition sockets_ok :: "relay \<Rightarrow> bool" where
  \<comment> \<open>each socket has its own channel, and the rooms hold sockets under their names and keys\<close>
  "sockets_ok w \<longleftrightarrow>
     length (chans (hub w)) = length (socks w) \<and>
     (\<forall>i < length (socks w). WsCh (SkClient (socks w ! i)) = i) \<and>
     inj_on (sock_id w) {..<length (socks w)} \<and>
     (\<forall>k. distinct (map fst (members (hub w) k))) \<and>
     (\<forall>k n c. (n, c) \<in> set (members (hub w) k) \<longrightarrow>
        WsId c = n \<and> (\<exists>i < length (socks w). SkClient (socks w ! i) = c \<and> SkKey (socks w ! i) = k))"

definition pending_ok :: "relay \<Rightarrow> bool" where
  \<comment> \<open>a broadcast under way is of the last message said, to other sockets of the room, each once\<close>
  "pending_ok w \<longleftrightarrow>
     (\<forall>i < length (socks w). \<forall>m cs. SkPending (socks w ! i) = Some (m, cs) \<longrightarrow>
        distinct cs \<and> SkSaid (socks w ! i) \<noteq> [] \<and> last (SkSaid (socks w ! i)) = m \<and>
        (\<forall>c \<in> set cs. \<exists>j < length (socks w). j \<noteq> i \<and> SkClient (socks w ! j) = c \<and> SkKey (socks w ! j) = SkKey (socks w ! i)))"

definition said_ok :: "codec \<Rightarrow> relay \<Rightarrow> bool" where
  "said_ok cd w \<longleftrightarrow> (\<forall>i < length (socks w). \<forall>m \<in> set (SkSaid (socks w ! i)). sender_of cd m = Some (sock_id w i))"

definition received_ok :: "codec \<Rightarrow> relay \<Rightarrow> bool" where
  "received_ok cd w \<longleftrightarrow>
     (\<forall>j < length (socks w). \<forall>m \<in> set (received w j). \<exists>i < length (socks w). i \<noteq> j \<and>
        sender_of cd m = Some (sock_id w i) \<and> SkKey (socks w ! i) = SkKey (socks w ! j))"

definition order_ok :: "codec \<Rightarrow> relay \<Rightarrow> bool" where
  "order_ok cd w \<longleftrightarrow>
     (\<forall>j < length (socks w). \<forall>i < length (socks w). i \<noteq> j \<longrightarrow>
        subseq (filter (\<lambda>m. sender_of cd m = Some (sock_id w i)) (received w j)) (sent_so_far w i j))"

definition relay_ok :: "codec \<Rightarrow> relay \<Rightarrow> bool" where
  "relay_ok cd w \<longleftrightarrow> sockets_ok w \<and> pending_ok w \<and> said_ok cd w \<and> received_ok cd w \<and> order_ok cd w"

lemma socks_set [simp]:
  "length (socks (set_sock i s w)) = length (socks w)" "hub (set_sock i s w) = hub w"
  "i < length (socks w) \<Longrightarrow> socks (set_sock i s w) ! j = (if j = i then s else socks w ! j)"
  by (auto simp: set_sock_def nth_list_update)

lemma socket_names:
  assumes "sockets_ok w" "i < length (socks w)" "j < length (socks w)"
  shows "sock_id w i = sock_id w j \<longleftrightarrow> i = j" "SkClient (socks w ! i) = SkClient (socks w ! j) \<longleftrightarrow> i = j"
  using assms by (auto simp: sockets_ok_def inj_on_def)

lemma channel_of: "sockets_ok w \<Longrightarrow> i < length (socks w) \<Longrightarrow> WsCh (SkClient (socks w ! i)) = i"
  by (simp add: sockets_ok_def)

lemma received_chan: "sockets_ok w \<Longrightarrow> j < length (socks w) \<Longrightarrow> received w j = SkWritten (socks w ! j) @ chans (hub w) ! j"
  by (simp add: received_def channel_of)

lemma same_sockets:
  \<comment> \<open>a step that keeps the clients, their keys and what was received\<close>
  assumes "length (socks w') = length (socks w)" "\<And>i. i < length (socks w) \<Longrightarrow> SkClient (socks w' ! i) = SkClient (socks w ! i)"
    and "\<And>i. i < length (socks w) \<Longrightarrow> SkKey (socks w' ! i) = SkKey (socks w ! i)"
  shows "length (chans (hub w')) = length (chans (hub w)) \<Longrightarrow> members (hub w') = members (hub w) \<Longrightarrow> sockets_ok w' = sockets_ok w"
    "(\<And>i. i < length (socks w) \<Longrightarrow> received w' i = received w i) \<Longrightarrow> received_ok cd w' = received_ok cd w"
  using assms by (simp_all add: sockets_ok_def received_ok_def inj_on_def Ball_def cong: conj_cong)

lemma update_ok:
  \<comment> \<open>a step of one socket that keeps its client and its key\<close>
  assumes "relay_ok cd w" "i < length (socks w)" "SkClient s = SkClient (socks w ! i)" "SkKey s = SkKey (socks w ! i)"
    and "socks w' = socks (set_sock i s w)" "members (hub w') = members (hub w)" "length (chans (hub w')) = length (chans (hub w))"
  shows "sockets_ok w'" "j < length (socks w) \<Longrightarrow> SkClient (socks w' ! j) = SkClient (socks w ! j)"
    "j < length (socks w) \<Longrightarrow> SkKey (socks w' ! j) = SkKey (socks w ! j)" "length (socks w') = length (socks w)"
proof -
  have "sockets_ok w" using assms(1) by (simp add: relay_ok_def)
  moreover show "j < length (socks w) \<Longrightarrow> SkClient (socks w' ! j) = SkClient (socks w ! j)" for j
    using assms by simp
  moreover show "j < length (socks w) \<Longrightarrow> SkKey (socks w' ! j) = SkKey (socks w ! j)" for j
    using assms by simp
  moreover show "length (socks w') = length (socks w)" using assms by simp
  ultimately show "sockets_ok w'" using assms(5-7) by (subst same_sockets(1) [of w' w]) simp_all
qed

lemma targets_sockets:
  assumes "sockets_ok w" "c \<in> set (hub_targets k n (hub w))"
  shows "\<exists>j < length (socks w). SkClient (socks w ! j) = c \<and> SkKey (socks w ! j) = k \<and> sock_id w j \<noteq> n"
proof -
  obtain n' where "(n', c) \<in> set (members (hub w) k)" "WsId c \<noteq> n" using assms(2) by (auto simp: hub_targets_def)
  then show ?thesis using assms(1) unfolding sockets_ok_def by metis
qed

lemma targets_distinct:
  assumes "sockets_ok w"
  shows "distinct (hub_targets k n (hub w))"
proof -
  have "\<forall>(m, c) \<in> set (members (hub w) k). WsId c = m" using assms by (auto simp: sockets_ok_def)
  then have "map WsId (map snd (members (hub w) k)) = map fst (members (hub w) k)" by (auto intro!: map_cong)
  then have "distinct (map WsId (map snd (members (hub w) k)))" using assms unfolding sockets_ok_def by metis
  then have "distinct (map snd (members (hub w) k))" using distinct_map by blast
  then show ?thesis by (simp add: hub_targets_def)
qed

lemma said_grows:
  assumes "said_ok cd w" "i < length (socks w)" "sender_of cd m = Some (sock_id w i)"
    and "\<And>j. j < length (socks w) \<Longrightarrow> SkClient (socks w' ! j) = SkClient (socks w ! j)" "length (socks w') = length (socks w)"
    and "\<And>j. j < length (socks w) \<Longrightarrow> set (SkSaid (socks w' ! j)) \<subseteq> set (SkSaid (socks w ! j)) \<union> (if j = i then {m} else {})"
  shows "said_ok cd w'"
  unfolding said_ok_def
proof (intro allI impI ballI)
  fix j x assume j: "j < length (socks w')" "x \<in> set (SkSaid (socks w' ! j))"
  then have "x \<in> set (SkSaid (socks w ! j)) \<or> j = i \<and> x = m" using assms(5) assms(6) [of j] by (auto split: if_splits)
  with j(1) show "sender_of cd x = Some (sock_id w' j)" using assms(1-5) by (auto simp: said_ok_def)
qed

lemma read_ok:
  assumes "codec_ok cd" "relay_ok cd w" "i < length (socks w)" "SkPending (socks w ! i) = None"
    and "stamped cd (sock_id w i) data = Relayed m"
    and "mset cs = mset (hub_targets (SkKey (socks w ! i)) (sock_id w i) (hub w))"
  shows "relay_ok cd (set_sock i ((socks w ! i)\<lparr>SkPending := Some (m, cs), SkSaid := SkSaid (socks w ! i) @ [m]\<rparr>) w)"
    (is "relay_ok cd ?w")
proof -
  note ok = assms(2) [unfolded relay_ok_def]
  have up: "sockets_ok ?w" "length (socks ?w) = length (socks w)"
    "\<And>j. j < length (socks w) \<Longrightarrow> SkClient (socks ?w ! j) = SkClient (socks w ! j)"
    "\<And>j. j < length (socks w) \<Longrightarrow> SkKey (socks ?w ! j) = SkKey (socks w ! j)"
    using update_ok [OF assms(2,3), of "(socks w ! i)\<lparr>SkPending := Some (m, cs), SkSaid := SkSaid (socks w ! i) @ [m]\<rparr>" ?w]
    by simp_all
  have sender: "sender_of cd m = Some (sock_id w i)" using sender_of_stamped [OF assms(1,5)] .
  have cs: "set cs = set (hub_targets (SkKey (socks w ! i)) (sock_id w i) (hub w))" "distinct cs"
    using assms(6) targets_distinct ok by (auto dest: mset_eq_setD mset_eq_imp_distinct_iff)
  have "\<exists>j < length (socks w). j \<noteq> i \<and> SkClient (socks w ! j) = c \<and> SkKey (socks w ! j) = SkKey (socks w ! i)" if "c \<in> set cs" for c
    using targets_sockets [of w c] that cs(1) ok by fastforce
  then have "pending_ok ?w" using ok cs(2) assms(3) by (fastforce simp: pending_ok_def)
  moreover have "said_ok cd ?w"
    by (rule said_grows [of cd w i m]) (use ok assms(3) sender in auto)
  moreover have rec: "received ?w j = received w j" if "j < length (socks w)" for j
    using that assms(3) by (simp add: received_def)
  then have "received_ok cd ?w" using ok up same_sockets(2) [of ?w w cd] by simp
  moreover have "order_ok cd ?w"
    unfolding order_ok_def
  proof (intro allI impI)
    fix j k assume jk: "j < length (socks ?w)" "k < length (socks ?w)" "k \<noteq> j"
    then have old: "subseq (filter (\<lambda>m. sender_of cd m = Some (sock_id w k)) (received w j)) (sent_so_far w k j)"
      using ok by (simp add: order_ok_def)
    moreover have "subseq (sent_so_far w k j) (sent_so_far ?w k j)"
      using assms(3,4) jk by (cases "k = i") (auto simp: sent_so_far_def awaits_def split: option.splits)
    ultimately show "subseq (filter (\<lambda>m. sender_of cd m = Some (sock_id ?w k)) (received ?w j)) (sent_so_far ?w k j)"
      using jk up rec [of j] by (simp add: subseq_order.order_trans)
  qed
  ultimately show ?thesis using up(1) by (simp add: relay_ok_def)
qed

lemma send_ok:
  assumes "relay_ok cd w" "i < length (socks w)" "SkPending (socks w ! i) = Some (m, c # cs)"
  shows "relay_ok cd ((set_sock i ((socks w ! i)\<lparr>SkPending := Some (m, cs)\<rparr>) w)\<lparr>hub := send_to c m (hub w)\<rparr>)"
    (is "relay_ok cd ?w")
proof -
  note ok = assms(1) [unfolded relay_ok_def]
  have up: "sockets_ok ?w" "length (socks ?w) = length (socks w)"
    "\<And>j. j < length (socks w) \<Longrightarrow> SkClient (socks ?w ! j) = SkClient (socks w ! j)"
    "\<And>j. j < length (socks w) \<Longrightarrow> SkKey (socks ?w ! j) = SkKey (socks w ! j)"
    using update_ok [OF assms(1,2), of "(socks w ! i)\<lparr>SkPending := Some (m, cs)\<rparr>" ?w] by simp_all
  have pend: "distinct (c # cs)" "SkSaid (socks w ! i) \<noteq> []" "last (SkSaid (socks w ! i)) = m"
    "\<And>d. d \<in> set (c # cs) \<Longrightarrow> \<exists>j < length (socks w). j \<noteq> i \<and> SkClient (socks w ! j) = d \<and> SkKey (socks w ! j) = SkKey (socks w ! i)"
    using ok assms(2,3) unfolding pending_ok_def by blast+
  then obtain t where t: "t < length (socks w)" "t \<noteq> i" "SkClient (socks w ! t) = c" "SkKey (socks w ! t) = SkKey (socks w ! i)"
    by (metis list.set_intros(1))
  have sender: "sender_of cd m = Some (sock_id w i)"
    using ok pend(2,3) assms(2) last_in_set by (fastforce simp: said_ok_def)
  have "WsCh c = t" using channel_of [of w t] t ok by simp
  moreover have "length (chans (hub w)) = length (socks w)" using ok by (simp add: sockets_ok_def)
  moreover have ch: "WsCh (SkClient (socks w ! j)) = j" if "j < length (socks w)" for j using channel_of that ok by blast
  ultimately have rec: "received ?w j = (if j = t \<and> length (chans (hub w) ! t) < 64 then received w j @ [m] else received w j)"
    if "j < length (socks w)" for j
    using that assms(2) t by (auto simp: received_def send_to_def chan_send_def nth_list_update)
  have "pending_ok ?w"
    unfolding pending_ok_def
  proof (intro allI impI)
    fix j m' cs' assume j: "j < length (socks ?w)" "SkPending (socks ?w ! j) = Some (m', cs')"
    then obtain ds where ds: "SkPending (socks w ! j) = Some (m', ds)" "distinct cs'" "set cs' \<subseteq> set ds"
      "SkSaid (socks ?w ! j) = SkSaid (socks w ! j)"
      using assms(2,3) pend(1) ok by (cases "j = i") (auto simp: pending_ok_def)
    then have "SkSaid (socks w ! j) \<noteq> [] \<and> last (SkSaid (socks w ! j)) = m' \<and>
        (\<forall>c \<in> set ds. \<exists>k < length (socks w). k \<noteq> j \<and> SkClient (socks w ! k) = c \<and> SkKey (socks w ! k) = SkKey (socks w ! j))"
      using ok j(1) by (simp add: pending_ok_def)
    with ds j(1) up show "distinct cs' \<and> SkSaid (socks ?w ! j) \<noteq> [] \<and> last (SkSaid (socks ?w ! j)) = m' \<and>
        (\<forall>c \<in> set cs'. \<exists>k < length (socks ?w). k \<noteq> j \<and> SkClient (socks ?w ! k) = c \<and> SkKey (socks ?w ! k) = SkKey (socks ?w ! j))"
      by (simp cong: conj_cong) blast
  qed
  moreover have "said_ok cd ?w"
    by (rule said_grows [of cd w i m]) (use ok assms(2) sender in auto)
  moreover have "received_ok cd ?w"
    unfolding received_ok_def
  proof (intro allI impI ballI)
    fix j x assume j: "j < length (socks ?w)" "x \<in> set (received ?w j)"
    then have "x \<in> set (received w j) \<or> j = t \<and> x = m" using rec [of j] by (auto split: if_splits)
    then have "\<exists>k < length (socks w). k \<noteq> j \<and> sender_of cd x = Some (sock_id w k) \<and> SkKey (socks w ! k) = SkKey (socks w ! j)"
      using ok j(1) assms(2) t sender by (auto simp: received_ok_def)
    then show "\<exists>k < length (socks ?w). k \<noteq> j \<and> sender_of cd x = Some (sock_id ?w k) \<and> SkKey (socks ?w ! k) = SkKey (socks ?w ! j)"
      using up j(1) by (simp cong: conj_cong)
  qed
  moreover have "order_ok cd ?w"
    unfolding order_ok_def
  proof (intro allI impI)
    fix j k assume jk: "j < length (socks ?w)" "k < length (socks ?w)" "k \<noteq> j"
    define mine where "mine = (\<lambda>x. sender_of cd x = Some (sock_id w k))"
    have old: "subseq (filter mine (received w j)) (sent_so_far w k j)"
      using ok jk unfolding order_ok_def mine_def by simp
    have at: "awaits ?w k j \<longleftrightarrow> awaits w k j \<and> \<not> (k = i \<and> j = t)"
      using assms(2,3) jk up(3) [of j] t pend(1) socket_names(2) [of w j t] ok
      by (cases "k = i") (auto simp: awaits_def)
    have "subseq (filter mine (received ?w j)) (sent_so_far ?w k j)"
    proof (cases "k = i \<and> j = t")
      case True
      then have "awaits w k j" using assms(3) t by (simp add: awaits_def)
      with old have "subseq (filter mine (received w j)) (butlast (SkSaid (socks w ! i)))" using True by (simp add: sent_so_far_def)
      then have sub: "subseq (filter mine (received w j) @ xs) (butlast (SkSaid (socks w ! i)) @ [m])" if "xs \<in> {[], [m]}" for xs
        by (rule list_emb_append_mono) (use that in auto)
      have said: "butlast (SkSaid (socks w ! i)) @ [m] = SkSaid (socks w ! i)" using pend(2,3) by (metis append_butlast_last_id)
      have so_far: "sent_so_far ?w k j = SkSaid (socks w ! i)" using True at assms(2) by (simp add: sent_so_far_def)
      have jw: "j < length (socks w)" using jk(1) up(2) by metis
      have "received ?w j = received w j @ (if j = t \<and> length (chans (hub w) ! t) < 64 then [m] else [])"
        unfolding rec [OF jw] by simp
      then have "filter mine (received ?w j) = filter mine (received w j) @
          filter mine (if j = t \<and> length (chans (hub w) ! t) < 64 then [m] else [])" by (simp only: filter_append)
      moreover have "filter mine (if j = t \<and> length (chans (hub w) ! t) < 64 then [m] else []) \<in> {[], [m]}" by simp
      ultimately show ?thesis unfolding so_far using sub [unfolded said] by (simp only:)
    next
      case False
      then have "sent_so_far ?w k j = sent_so_far w k j" using at assms(2) by (cases "k = i") (simp_all add: sent_so_far_def)
      moreover have "filter mine (received ?w j) = filter mine (received w j)"
        using False rec [of j] jk sender socket_names(1) [of w i k] ok assms(2) by (auto simp: mine_def)
      ultimately show ?thesis using old by simp
    qed
    then show "subseq (filter (\<lambda>m. sender_of cd m = Some (sock_id ?w k)) (received ?w j)) (sent_so_far ?w k j)"
      using jk up(2,3) by (simp add: mine_def cong: filter_cong)
  qed
  ultimately show ?thesis using up(1) by (simp add: relay_ok_def)
qed

lemma quiet_ok:
  \<comment> \<open>a step that changes no client, no broadcast and nothing received\<close>
  assumes "relay_ok cd w" "length (socks w') = length (socks w)" "sockets_ok w'"
    and "\<And>j. j < length (socks w) \<Longrightarrow> SkClient (socks w' ! j) = SkClient (socks w ! j) \<and> SkKey (socks w' ! j) = SkKey (socks w ! j) \<and>
      SkSaid (socks w' ! j) = SkSaid (socks w ! j) \<and> received w' j = received w j \<and>
      (SkPending (socks w' ! j) = SkPending (socks w ! j) \<or> (\<exists>m. SkPending (socks w ! j) = Some (m, []) \<and> SkPending (socks w' ! j) = None))"
  shows "relay_ok cd w'"
proof -
  note ok = assms(1) [unfolded relay_ok_def]
  have pend: "SkPending (socks w' ! j) = Some p \<Longrightarrow> SkPending (socks w ! j) = Some p" if "j < length (socks w)" for j p
    using assms(4) [OF that] by auto
  have "awaits w' i j = awaits w i j" if "i < length (socks w)" "j < length (socks w)" for i j
    using assms(4) [OF that(1)] assms(4) [OF that(2)] by (auto simp: awaits_def)
  then have "sent_so_far w' i j = sent_so_far w i j" if "i < length (socks w)" "j < length (socks w)" for i j
    using that assms(4) by (simp add: sent_so_far_def)
  then have "order_ok cd w'" using ok assms(2,4) by (simp add: order_ok_def)
  moreover have "pending_ok w'"
    unfolding pending_ok_def
  proof (intro allI impI)
    fix i m cs assume i: "i < length (socks w')" "SkPending (socks w' ! i) = Some (m, cs)"
    then have "distinct cs \<and> SkSaid (socks w ! i) \<noteq> [] \<and> last (SkSaid (socks w ! i)) = m \<and>
        (\<forall>c \<in> set cs. \<exists>j < length (socks w). j \<noteq> i \<and> SkClient (socks w ! j) = c \<and> SkKey (socks w ! j) = SkKey (socks w ! i))"
      using ok assms(2) pend unfolding pending_ok_def by simp
    then show "distinct cs \<and> SkSaid (socks w' ! i) \<noteq> [] \<and> last (SkSaid (socks w' ! i)) = m \<and>
        (\<forall>c \<in> set cs. \<exists>j < length (socks w'). j \<noteq> i \<and> SkClient (socks w' ! j) = c \<and> SkKey (socks w' ! j) = SkKey (socks w' ! i))"
      using i(1) assms(2,4) by (simp cong: conj_cong)
  qed
  moreover have "said_ok cd w'" using ok assms(2,4) by (simp add: said_ok_def)
  moreover have "received_ok cd w'" using ok assms(2,4) same_sockets(2) [of w' w cd] by simp
  ultimately show ?thesis using assms(3) by (simp add: relay_ok_def)
qed

lemma write_ok:
  assumes "relay_ok cd w" "i < length (socks w)" "chans (hub w) ! WsCh (SkClient (socks w ! i)) = m # ms"
  shows "relay_ok cd ((set_sock i ((socks w ! i)\<lparr>SkWritten := SkWritten (socks w ! i) @ [m]\<rparr>) w)
    \<lparr>hub := (hub w)\<lparr>chans := (chans (hub w))[WsCh (SkClient (socks w ! i)) := ms]\<rparr>\<rparr>)" (is "relay_ok cd ?w")
proof (rule quiet_ok [OF assms(1)])
  have ok: "sockets_ok w" using assms(1) by (simp add: relay_ok_def)
  show "sockets_ok ?w"
    using update_ok [OF assms(1,2), of "(socks w ! i)\<lparr>SkWritten := SkWritten (socks w ! i) @ [m]\<rparr>" ?w] by simp
  have "received ?w j = received w j" if "j < length (socks w)" for j
    using that assms(2,3) channel_of [OF ok] ok by (cases "j = i") (simp_all add: received_def sockets_ok_def)
  then show "SkClient (socks ?w ! j) = SkClient (socks w ! j) \<and> SkKey (socks ?w ! j) = SkKey (socks w ! j) \<and>
      SkSaid (socks ?w ! j) = SkSaid (socks w ! j) \<and> received ?w j = received w j \<and>
      (SkPending (socks ?w ! j) = SkPending (socks w ! j) \<or> (\<exists>m. SkPending (socks w ! j) = Some (m, []) \<and> SkPending (socks ?w ! j) = None))"
    if "j < length (socks w)" for j
    using that assms(2) by simp
qed simp

lemma own_step_ok:
  \<comment> \<open>a socket that finishes a broadcast or stops reading\<close>
  assumes "relay_ok cd w" "i < length (socks w)" "SkClient s = SkClient (socks w ! i)" "SkKey s = SkKey (socks w ! i)"
    and "SkSaid s = SkSaid (socks w ! i)" "SkWritten s = SkWritten (socks w ! i)"
    and "SkPending s = SkPending (socks w ! i) \<or> (\<exists>m. SkPending (socks w ! i) = Some (m, []) \<and> SkPending s = None)"
  shows "relay_ok cd (set_sock i s w)"
  by (rule quiet_ok [OF assms(1)])
    (use assms update_ok [OF assms(1-4), of "set_sock i s w"] in \<open>auto simp: received_def\<close>)

lemma leave_ok:
  assumes "relay_ok cd w"
  shows "relay_ok cd (w\<lparr>hub := hub_leave k n (hub w)\<rparr>)" (is "relay_ok cd ?w")
proof (rule quiet_ok [OF assms])
  have ok: "sockets_ok w" using assms by (simp add: relay_ok_def)
  then have "distinct (map fst (AList.delete n (members (hub w) k)))" by (auto simp: sockets_ok_def intro: distinct_delete)
  moreover note set_delete [of n "members (hub w) k"]
  ultimately show "sockets_ok ?w" using ok unfolding sockets_ok_def by (auto simp: members_leave)
qed (simp_all add: received_def)

lemma open_ok:
  assumes "relay_ok cd w" "cid \<notin> sock_id w ` {..<length (socks w)}" "hub_join key cid (hub w) = (c, h)"
  shows "relay_ok cd (w\<lparr>hub := h, socks := socks w @ [new_sock key c]\<rparr>)" (is "relay_ok cd ?w")
proof -
  let ?n = "length (socks w)"
  note ok = assms(1) [unfolded relay_ok_def]
  have h: "h = snd (hub_join key cid (hub w))" "c = \<lparr>WsId = cid, WsCh = ?n\<rparr>"
    using assms(3) client_join [of key cid "hub w"] ok by (simp_all add: sockets_ok_def)
  have old: "socks ?w ! j = socks w ! j" if "j < ?n" for j using that by (simp add: nth_append)
  have new: "socks ?w ! ?n = new_sock key c" by simp
  have "inj_on (sock_id ?w) {..<Suc ?n}"
    using ok assms(2) by (auto simp: sockets_ok_def lessThan_Suc nth_append new_sock_def h(2) inj_on_def)
  moreover have "WsId d = n \<and> (\<exists>i < Suc ?n. SkClient (socks ?w ! i) = d \<and> SkKey (socks ?w ! i) = k)"
    if "(n, d) \<in> set (members h k)" for n d k
  proof (cases "k = key \<and> n = cid")
    case True
    then have "d = c" using that ok by (auto simp: h members_join sockets_ok_def set_update_keys)
    with True show ?thesis by (auto simp: h(2) new_sock_def intro: exI [of _ ?n])
  next
    case False
    then have "(n, d) \<in> set (members (hub w) k)"
      using that ok by (auto simp: h members_join sockets_ok_def set_update_keys split: if_splits)
    then obtain i where "WsId d = n" "i < ?n" "SkClient (socks w ! i) = d" "SkKey (socks w ! i) = k"
      using ok unfolding sockets_ok_def by blast
    then show ?thesis using old by (auto intro!: exI [of _ i])
  qed
  moreover have "distinct (map fst (members h k))" for k
    using ok by (auto simp: h members_join sockets_ok_def intro: distinct_update)
  ultimately have "sockets_ok ?w"
    using ok by (auto simp: sockets_ok_def h nth_append less_Suc_eq new_sock_def)
  moreover have "pending_ok ?w"
    unfolding pending_ok_def
  proof (intro allI impI)
    fix i m cs assume i: "i < length (socks ?w)" "SkPending (socks ?w ! i) = Some (m, cs)"
    then have "i < ?n" by (auto simp: less_Suc_eq new_sock_def)
    with i have "distinct cs \<and> SkSaid (socks w ! i) \<noteq> [] \<and> last (SkSaid (socks w ! i)) = m \<and>
        (\<forall>c \<in> set cs. \<exists>j < ?n. j \<noteq> i \<and> SkClient (socks w ! j) = c \<and> SkKey (socks w ! j) = SkKey (socks w ! i))"
      using ok old unfolding pending_ok_def by simp
    moreover have "\<exists>j < length (socks ?w). j \<noteq> i \<and> SkClient (socks ?w ! j) = d \<and> SkKey (socks ?w ! j) = SkKey (socks w ! i)"
      if ex: "\<exists>j < ?n. j \<noteq> i \<and> SkClient (socks w ! j) = d \<and> SkKey (socks w ! j) = SkKey (socks w ! i)" for d
    proof -
      from ex obtain j where "j < ?n" "j \<noteq> i \<and> SkClient (socks w ! j) = d \<and> SkKey (socks w ! j) = SkKey (socks w ! i)" by blast
      then show ?thesis using old [of j] by (intro exI [of _ j]) simp
    qed
    ultimately show "distinct cs \<and> SkSaid (socks ?w ! i) \<noteq> [] \<and> last (SkSaid (socks ?w ! i)) = m \<and>
        (\<forall>c \<in> set cs. \<exists>j < length (socks ?w). j \<noteq> i \<and> SkClient (socks ?w ! j) = c \<and> SkKey (socks ?w ! j) = SkKey (socks ?w ! i))"
      unfolding old [OF \<open>i < ?n\<close>] by simp
  qed
  moreover have "said_ok cd ?w" using ok by (auto simp: said_ok_def less_Suc_eq nth_append new_sock_def)
  moreover have rec: "received ?w j = (if j < ?n then received w j else [])" if "j < Suc ?n" for j
    using that ok by (auto simp: received_def h nth_append sockets_ok_def less_Suc_eq new_sock_def)
  then have "received_ok cd ?w"
    using ok unfolding received_ok_def by (auto simp: less_Suc_eq nth_append) blast+
  moreover have "order_ok cd ?w"
    unfolding order_ok_def
  proof (intro allI impI)
    fix j i assume ij: "j < length (socks ?w)" "i < length (socks ?w)" "i \<noteq> j"
    consider "j = ?n" | "j < ?n" "i < ?n" | "j < ?n" "i = ?n" using ij by fastforce
    then show "subseq (filter (\<lambda>m. sender_of cd m = Some (sock_id ?w i)) (received ?w j)) (sent_so_far ?w i j)"
    proof cases
      case 1
      then show ?thesis using rec [of j] ij by simp
    next
      case 2
      then have "sent_so_far ?w i j = sent_so_far w i j" using old by (simp add: sent_so_far_def awaits_def)
      with 2 show ?thesis using rec [of j] old ok ij(3) by (simp add: order_ok_def)
    next
      case 3
      have "sender_of cd m \<noteq> Some cid" if "m \<in> set (received w j)" for m
        using that ok 3(1) assms(2) unfolding received_ok_def by fastforce
      then have "filter (\<lambda>m. sender_of cd m = Some cid) (received w j) = []" by (simp add: filter_empty_conv)
      with 3 show ?thesis using rec [of j] by (simp add: new_sock_def h(2))
    qed
  qed
  ultimately show ?thesis by (simp add: relay_ok_def)
qed

lemma crash_ok: "relay_ok cd w \<Longrightarrow> relay_ok cd (w\<lparr>crashed := True\<rparr>)"
  by (rule quiet_ok [of cd w]) (auto simp: relay_ok_def sockets_ok_def received_def)

lemma relay_step_ok:
  assumes "codec_ok cd" "relay_step cd w w'" "relay_ok cd w"
  shows "relay_ok cd w'"
  using assms(2,3)
  by (cases rule: relay_step.cases)
    (auto intro: open_ok read_ok [OF assms(1)] send_ok write_ok leave_ok own_step_ok crash_ok)

lemma no_sockets_ok: "relay_ok cd no_sockets"
  by (simp add: relay_ok_def sockets_ok_def pending_ok_def said_ok_def received_ok_def order_ok_def no_sockets_def NewWSHub_def
      members_def get_room_def)

interpretation relay_inv: step_invariant "relay_step cd" "\<lambda>w. codec_ok cd \<longrightarrow> relay_ok cd w" for cd
  by unfold_locales (auto dest: relay_step_ok)

lemma reaches_relay_ok: "codec_ok cd \<Longrightarrow> reaches (relay_step cd) no_sockets w \<Longrightarrow> relay_ok cd w"
  using relay_inv.reaches_inv [of cd no_sockets w] no_sockets_ok by blast

section \<open>Room keys\<close>

definition room_key :: "int \<Rightarrow> string \<Rightarrow> string \<Rightarrow> string" where
  "room_key sid endpointPath room = show_int sid @ '':'' @ endpointPath @ '':'' @ room"

lemma cut_at: "c \<notin> set a \<Longrightarrow> c \<notin> set a' \<Longrightarrow> a @ c # b = a' @ c # b' \<Longrightarrow> a = a' \<and> b = b'"
  by (induction a arbitrary: a') (auto simp: Cons_eq_append_conv)

text \<open>
  C31. Whatever the interleaving of the sockets, a client receives from each other client a subsequence of
  what that client said, in the order it said it and without repetitions (messages to a full channel are
  dropped), and everything it receives carries the name of the client that said it, which is another
  client of its own room: no client can write under another's name or into another room.
\<close>
theorem relay_delivery:
  assumes "codec_ok cd" "reaches (relay_step cd) no_sockets w" "i < length (socks w)" "j < length (socks w)" "i \<noteq> j"
  shows "subseq (filter (\<lambda>m. sender_of cd m = Some (sock_id w i)) (received w j)) (SkSaid (socks w ! i)) \<and>
    (\<forall>m \<in> set (received w j). \<exists>k < length (socks w). k \<noteq> j \<and> sender_of cd m = Some (sock_id w k) \<and>
       m \<in> set (SkSaid (socks w ! k)) \<and> SkKey (socks w ! k) = SkKey (socks w ! j))"
proof (intro conjI ballI)
  have ok: "relay_ok cd w" using reaches_relay_ok assms(1,2) .
  have order: "subseq (filter (\<lambda>m. sender_of cd m = Some (sock_id w k)) (received w j)) (SkSaid (socks w ! k))"
    if "k < length (socks w)" "k \<noteq> j" for k
  proof -
    have "subseq (filter (\<lambda>m. sender_of cd m = Some (sock_id w k)) (received w j)) (sent_so_far w k j)"
      using ok that assms(4) by (simp add: relay_ok_def order_ok_def)
    moreover have "subseq (sent_so_far w k j) (SkSaid (socks w ! k))"
      by (auto simp: sent_so_far_def butlast_conv_take intro: prefix_imp_subseq take_is_prefix)
    ultimately show ?thesis by (rule subseq_order.order_trans)
  qed
  show "subseq (filter (\<lambda>m. sender_of cd m = Some (sock_id w i)) (received w j)) (SkSaid (socks w ! i))"
    using order assms(3,5) .
  fix m assume m: "m \<in> set (received w j)"
  then obtain k where k: "k < length (socks w)" "k \<noteq> j" "sender_of cd m = Some (sock_id w k)" "SkKey (socks w ! k) = SkKey (socks w ! j)"
    using ok assms(4) unfolding relay_ok_def received_ok_def by blast
  then have "m \<in> set (SkSaid (socks w ! k))"
    using list_emb_set [OF order [OF k(1,2)], of m] m by auto
  with k show "\<exists>k < length (socks w). k \<noteq> j \<and> sender_of cd m = Some (sock_id w k) \<and>
       m \<in> set (SkSaid (socks w ! k)) \<and> SkKey (socks w ! k) = SkKey (socks w ! j)" by blast
qed

lemma room_key_site: "room_key i p r = room_key j p' r' \<Longrightarrow> i = j \<and> p @ '':'' @ r = p' @ '':'' @ r'"
  using cut_at [of "CHR '':''" "show_int i" "show_int j" "p @ '':'' @ r" "p' @ '':'' @ r'"] show_int_no_colon
  by (auto simp: room_key_def dest: show_int_inj)

lemma room_key_endpoint:
  assumes "CHR '':'' \<notin> set p" "CHR '':'' \<notin> set p'"
  shows "room_key i p r = room_key j p' r' \<longleftrightarrow> i = j \<and> p = p' \<and> r = r'"
  using room_key_site [of i p r j p' r'] cut_at [OF assms, of r r'] by (auto simp: room_key_def)

text \<open>
  Sockets of different sites never share a room, and neither do sockets of different endpoints whose
  paths have no colon, so no message of one reaches the other.
\<close>
theorem rooms_isolated:
  assumes "codec_ok cd" "reaches (relay_step cd) no_sockets w" "i < length (socks w)" "j < length (socks w)" "i \<noteq> j"
    and "SkKey (socks w ! i) = room_key a p r" "SkKey (socks w ! j) = room_key b p' r'"
    and "a \<noteq> b \<or> p \<noteq> p' \<and> CHR '':'' \<notin> set p \<and> CHR '':'' \<notin> set p'"
  shows "set (SkSaid (socks w ! i)) \<inter> set (received w j) = {}"
proof -
  have ok: "relay_ok cd w" using reaches_relay_ok assms(1,2) .
  have ne: "SkKey (socks w ! i) \<noteq> SkKey (socks w ! j)"
    using assms(6-8) room_key_site [of a p r b p' r'] room_key_endpoint [of p p' a r b r'] by auto
  have False if said: "m \<in> set (SkSaid (socks w ! i))" and got: "m \<in> set (received w j)" for m
  proof -
    have "sender_of cd m = Some (sock_id w i)" using ok said assms(3) by (simp add: relay_ok_def said_ok_def)
    moreover obtain k where "k < length (socks w)" "sender_of cd m = Some (sock_id w k)" "SkKey (socks w ! k) = SkKey (socks w ! j)"
      using ok got assms(4) unfolding relay_ok_def received_ok_def by blast
    ultimately have "k = i" using socket_names(1) [of w k i] ok assms(3) by (simp add: relay_ok_def)
    with \<open>SkKey (socks w ! k) = SkKey (socks w ! j)\<close> ne show False by simp
  qed
  then show ?thesis by blast
qed

text \<open>
  C32. One visitor can stop the server for every site: the message \<^verbatim>\<open>null\<close> decodes without an error into a nil
  map, the assignment of the sender to it panics in a goroutine that nothing recovers, and no step of the
  relay is possible any more.
\<close>
theorem null_message_crashes:
  assumes "js_object cd ''null'' = NullObject" "\<not> crashed w" "i < length (socks w)" "SkReading (socks w ! i)"
    and "SkPending (socks w ! i) = None"
  shows "\<exists>w'. relay_step cd w w' \<and> crashed w' \<and> (\<forall>w''. \<not> relay_step cd w' w'')"
proof -
  have "relay_step cd w (w\<lparr>crashed := True\<rparr>)"
    using assms by (intro rs_panic [of _ i _ _ "''null''"]) (simp_all add: stamped_def)
  moreover have "\<not> relay_step cd (w\<lparr>crashed := True\<rparr>) w''" for w''
    by (auto elim: relay_step.cases)
  ultimately show ?thesis by (metis relay.select_convs(3) relay.surjective relay.update_convs(3))
qed

section \<open>Two clients\<close>

definition tagged_codec :: codec where
  \<comment> \<open>an object is its sender's name after a letter; the other fields are lost\<close>
  "tagged_codec = \<lparr>
     js_object = (\<lambda>m. if m = ''null'' then NullObject else case m of CHR ''S'' # s \<Rightarrow> Object [(''_sender'', GStr s)] | _ \<Rightarrow> NotObject),
     js_text = (\<lambda>ob. case map_of ob ''_sender'' of Some (GStr s) \<Rightarrow> CHR ''S'' # s | _ \<Rightarrow> [])\<rparr>"

definition opened_sock :: "string \<Rightarrow> string \<Rightarrow> relay \<Rightarrow> relay" where
  "opened_sock key cid w = w\<lparr>hub := snd (hub_join key cid (hub w)), socks := socks w @ [new_sock key (fst (hub_join key cid (hub w)))]\<rparr>"

definition two_sockets :: "string \<Rightarrow> string \<Rightarrow> relay" where
  "two_sockets k1 k2 = opened_sock k2 ''b'' (opened_sock k1 ''a'' no_sockets)"

lemma two_sockets_reached: "reaches (relay_step cd) no_sockets (two_sockets k1 k2)"
proof -
  have "relay_step cd w (opened_sock key cid w)" if "\<not> crashed w" "cid \<notin> sock_id w ` {..<length (socks w)}" for w key cid
    unfolding opened_sock_def using that by (auto intro!: rs_open simp del: client_join)
  note joined = this
  have "relay_step cd no_sockets (opened_sock k1 ''a'' no_sockets)" by (rule joined) (simp_all add: no_sockets_def)
  moreover have "relay_step cd (opened_sock k1 ''a'' no_sockets) (two_sockets k1 k2)"
    unfolding two_sockets_def by (rule joined) (simp_all add: opened_sock_def no_sockets_def new_sock_def lessThan_Suc)
  ultimately show ?thesis by (blast intro: reaches.intros)
qed

lemma tagged_codec_ok: "codec_ok tagged_codec"
  by (auto simp: codec_ok_def tagged_codec_def)

lemma tagged_says: "stamped tagged_codec i ''Shi'' = Relayed (CHR ''S'' # i)"
  by (simp add: stamped_def tagged_codec_def)

definition said_one :: "string \<Rightarrow> string \<Rightarrow> wsClient list \<Rightarrow> relay" where
  \<comment> \<open>the first of two clients has said something, to these targets\<close>
  "said_one k1 k2 cs =
     (let w = two_sockets k1 k2; s = socks w ! 0
      in set_sock 0 (s\<lparr>SkPending := Some (''Sa'', cs), SkSaid := SkSaid s @ [''Sa'']\<rparr>) w)"

lemma two_sockets_members:
  "hub_targets k1 ''a'' (hub (two_sockets k1 k2)) = (if k1 = k2 then [\<lparr>WsId = ''b'', WsCh = 1\<rparr>] else [])"
  by (simp add: two_sockets_def opened_sock_def no_sockets_def NewWSHub_def hub_targets_def hub_join_def members_def
      put_room_def get_room_def Let_def)

lemma two_sockets_simps:
  "length (socks (two_sockets k1 k2)) = 2" "\<not> crashed (two_sockets k1 k2)"
  "socks (two_sockets k1 k2) ! 0 = new_sock k1 \<lparr>WsId = ''a'', WsCh = 0\<rparr>"
  "socks (two_sockets k1 k2) ! Suc 0 = new_sock k2 \<lparr>WsId = ''b'', WsCh = 1\<rparr>"
  "chans (hub (two_sockets k1 k2)) = [[], []]"
  by (simp_all add: two_sockets_def opened_sock_def no_sockets_def NewWSHub_def)

lemma said_one_reached:
  "reaches (relay_step tagged_codec) no_sockets (said_one k1 k2 (hub_targets k1 ''a'' (hub (two_sockets k1 k2))))"
proof -
  have "relay_step tagged_codec (two_sockets k1 k2) (said_one k1 k2 (hub_targets k1 ''a'' (hub (two_sockets k1 k2))))"
    unfolding said_one_def Let_def
    by (rule rs_read [where data = "''Shi''"]) (simp_all add: two_sockets_simps new_sock_def tagged_says)
  with two_sockets_reached show ?thesis by (rule reaches_step)
qed

definition heard_one :: relay where
  "heard_one =
     (let w = said_one ''k'' ''k'' [\<lparr>WsId = ''b'', WsCh = 1\<rparr>]; s = socks w ! 0
      in (set_sock 0 (s\<lparr>SkPending := Some (''Sa'', [])\<rparr>) w)\<lparr>hub := send_to \<lparr>WsId = ''b'', WsCh = 1\<rparr> ''Sa'' (hub w)\<rparr>)"

lemma heard_one_reached: "reaches (relay_step tagged_codec) no_sockets heard_one"
proof -
  have "relay_step tagged_codec (said_one ''k'' ''k'' [\<lparr>WsId = ''b'', WsCh = 1\<rparr>]) heard_one"
    unfolding heard_one_def Let_def
    by (rule rs_send) (simp_all add: said_one_def Let_def two_sockets_simps set_sock_def)
  with said_one_reached [of "''k''" "''k''"] show ?thesis by (auto simp: two_sockets_members intro: reaches_step)
qed

lemma heard_one_simps:
  "length (socks heard_one) = 2" "sock_id heard_one 0 = ''a''" "sock_id heard_one (Suc 0) = ''b''"
  "received heard_one (Suc 0) = [''Sa'']"
  "SkSaid (socks heard_one ! 0) = [''Sa'']"
  by (simp_all add: heard_one_def said_one_def Let_def two_sockets_simps set_sock_def new_sock_def received_def send_to_def
      chan_send_def)

theorem relay_delivery_witness:
  "subseq (filter (\<lambda>m. sender_of tagged_codec m = Some ''a'') (received heard_one 1)) (SkSaid (socks heard_one ! 0)) \<and>
   received heard_one 1 = [''Sa''] \<and>
   (\<exists>k < 2. k \<noteq> 1 \<and> sender_of tagged_codec ''Sa'' = Some (sock_id heard_one k) \<and> ''Sa'' \<in> set (SkSaid (socks heard_one ! k)) \<and>
      SkKey (socks heard_one ! k) = SkKey (socks heard_one ! 1))"
  using relay_delivery [OF tagged_codec_ok heard_one_reached, of 0 1] by (simp add: heard_one_simps)

theorem rooms_isolated_witness:
  "set (SkSaid (socks (said_one (room_key 1 ''chat'' []) (room_key 2 ''chat'' []) []) ! 0)) \<inter>
   set (received (said_one (room_key 1 ''chat'' []) (room_key 2 ''chat'' []) []) 1) = {}"
proof (rule rooms_isolated [OF tagged_codec_ok])
  let ?w = "said_one (room_key 1 ''chat'' []) (room_key 2 ''chat'' []) []"
  have "room_key 1 ''chat'' [] \<noteq> room_key 2 ''chat'' []" using room_key_site by fastforce
  then show "reaches (relay_step tagged_codec) no_sockets ?w"
    using said_one_reached [of "room_key 1 ''chat'' []" "room_key 2 ''chat'' []"] by (simp add: two_sockets_members)
  have "length (socks ?w) = 2" by (simp add: said_one_def two_sockets_simps Let_def)
  then show "0 < length (socks ?w)" "1 < length (socks ?w)" "(0::nat) \<noteq> 1" by simp_all
  show "SkKey (socks ?w ! 0) = room_key 1 ''chat'' []" "SkKey (socks ?w ! 1) = room_key 2 ''chat'' []"
    by (simp_all add: said_one_def two_sockets_simps set_sock_def new_sock_def Let_def)
  show "(1::int) \<noteq> 2 \<or> ''chat'' \<noteq> ''chat'' \<and> CHR '':'' \<notin> set ''chat'' \<and> CHR '':'' \<notin> set ''chat''" by simp
qed

theorem null_message_crashes_witness:
  "\<exists>w'. relay_step tagged_codec (two_sockets ''k'' ''k'') w' \<and> crashed w' \<and> (\<forall>w''. \<not> relay_step tagged_codec w' w'')"
  by (rule null_message_crashes [of _ _ 0]) (simp_all add: tagged_codec_def two_sockets_simps new_sock_def)

text \<open>Rooms of one site with a colon in an endpoint's path may share a key.\<close>
lemma room_key_collision: "room_key i ''chat'' ''vip:1'' = room_key i ''chat:vip'' ''1''"
  by (simp add: room_key_def)

end
