(* ===== verification/Realtime.thy ===== *)
theory Realtime
  imports Rooms
begin

text \<open>
  The socket and event-stream handlers of \<^verbatim>\<open>server/public/handler.go\<close> around the hub and the event bus, and the
  webhooks received (\<^verbatim>\<open>server/public/webhooks.go\<close>) and sent (\<^verbatim>\<open>webhooks/outgoing.go\<close>). The WebSocket library,
  HMAC and the HTTP client are outside the repository.
\<close>

section \<open>Sockets and event streams: the handshake\<close>

text \<open>
  Both handlers take the endpoint from the first segment of the path, load its row, and ask for a token,
  from the header or else from the query (a browser cannot set headers on either kind of connection).
\<close>

definition first_segment :: "request \<Rightarrow> string" where
  "first_segment r = hd (split_n2 ''/'' (trim_prefix ''/api/'' (URLPath r)))"

definition stream_token :: "request \<Rightarrow> string" where
  "stream_token r = (if bearer r = [] then query_get r ''token'' else bearer r)"

record streamEndpointConfig =
  SePath :: string
  EventTypes :: "string list"
  SeAuth :: bool

record wsEndpointConfig =
  WePath :: string
  WriteToTable :: string
  WeAuth :: bool
  tableColumns :: "(string \<times> string) list"

definition stream_query :: string where
  "stream_query = ''SELECT path, event_types, requires_auth FROM stream_endpoints WHERE path = ?''"

definition loadStreamEndpoint :: "'db auth_env \<Rightarrow> 'db \<Rightarrow> string \<Rightarrow> streamEndpointConfig option" where
  "loadStreamEndpoint env db path =
     (case first_row (au_db env) db stream_query [GStr path] of
        Some [GStr p, GStr types, auth] \<Rightarrow>
          map_option (\<lambda>a. \<lparr>SePath = p, EventTypes = env_strings (au_api env) types, SeAuth = a\<rparr>) (row_bool auth)
      | _ \<Rightarrow> None)"

definition validTableName :: "string \<Rightarrow> bool" where
  "validTableName s \<longleftrightarrow> s \<noteq> [] \<and> is_letter (hd s) \<and> list_all is_word_char (tl s)"

definition ws_query :: string where
  "ws_query = ''SELECT path, write_to_table, requires_auth FROM ws_endpoints WHERE path = ?''"

definition ws_schema_query :: string where
  "ws_schema_query = ''SELECT schema_def FROM dynamic_tables WHERE table_name = ?''"

definition ws_columns :: "'db auth_env \<Rightarrow> 'db \<Rightarrow> string \<Rightarrow> (string \<times> string) list" where
  "ws_columns env db table =
     (if table \<noteq> [] \<and> validTableName table
      then (case first_row (au_db env) db ws_schema_query [GStr table] of
              Some [GStr schema] \<Rightarrow> (if schema = [] then [] else env_string_map (au_api env) schema)
            | _ \<Rightarrow> [])
      else [])"

definition loadWSEndpoint :: "'db auth_env \<Rightarrow> 'db \<Rightarrow> string \<Rightarrow> wsEndpointConfig option" where
  "loadWSEndpoint env db path =
     (case first_row (au_db env) db ws_query [GStr path] of
        Some [GStr p, table, auth] \<Rightarrow>
          (case (null_string table, row_bool auth) of
             (Some t, Some a) \<Rightarrow> Some \<lparr>WePath = p, WriteToTable = t, WeAuth = a, tableColumns = ws_columns env db t\<rparr>
           | _ \<Rightarrow> None)
      | _ \<Rightarrow> None)"

definition stream_gate :: "'db auth_env \<Rightarrow> bool \<Rightarrow> request \<Rightarrow> bool" where
  "stream_gate env auth r \<longleftrightarrow> auth \<longrightarrow> validateSiteTokenOrJWT env (stream_token r)"

definition ws_open :: "'db auth_env \<Rightarrow> 'db \<Rightarrow> request \<Rightarrow> response + (wsEndpointConfig \<times> string)" where
  \<comment> \<open>\<^verbatim>\<open>apiWebSocket\<close> up to the hub: the configuration and the room's key\<close>
  "ws_open env db r =
     (let path = first_segment r in
      case loadWSEndpoint env db path of
        None \<Rightarrow> Inl (error_response 404 ''websocket endpoint not found'')
      | Some ws \<Rightarrow>
          if \<not> stream_gate env (WeAuth ws) r then Inl (error_response 401 ''unauthorized'')
          else Inr (ws, room_key (au_site env) path (query_get r ''room'')))"

definition ws_field :: "(string \<times> gval) list \<Rightarrow> string \<Rightarrow> (string \<times> gval) option" where
  "ws_field msg col =
     (if col \<in> {''id'', ''created_at''} then None else map_option (\<lambda>v. (col, v)) (map_of msg col))"

definition wsWriteToTable :: "codec \<Rightarrow> wsEndpointConfig \<Rightarrow> (string \<times> gval) list \<Rightarrow> (string \<times> gval list) option" where
  \<comment> \<open>the statement executed, if any, with its arguments; its result is ignored\<close>
  "wsWriteToTable cd ws msg =
     (if tableColumns ws = []
      then Some (''INSERT INTO '' @ WriteToTable ws @ '' (data, created_at) VALUES (?, datetime('' @ squoted ''now'' @ ''))'',
                 [GStr (js_text cd msg)])
      else (let cols = List.map_filter (ws_field msg) (remdups (map fst (tableColumns ws))) in
            if cols = [] then None
            else Some (''INSERT INTO '' @ WriteToTable ws @ '' ('' @ join '', '' (map fst cols @ [''created_at'']) @ '') VALUES ('' @
                   join '', '' (map (\<lambda>_. ''?'') cols @ [''datetime('' @ squoted ''now'' @ '')'']) @ '')'',
                   map snd cols)))"

definition ws_store :: "codec \<Rightarrow> wsEndpointConfig \<Rightarrow> string \<Rightarrow> string \<Rightarrow> (string \<times> gval list) option" where
  \<comment> \<open>what the read goroutine stores of a message, after it is broadcast\<close>
  "ws_store cd ws clientID data =
     (case js_object cd data of
        Object ob \<Rightarrow>
          (if WriteToTable ws \<noteq> [] \<and> validTableName (WriteToTable ws)
           then wsWriteToTable cd ws (AList.update ''_sender'' (GStr clientID) ob) else None)
      | _ \<Rightarrow> None)"

lemma ws_fields:
  "map fst (List.map_filter (ws_field msg) cs) = filter (\<lambda>c. c \<notin> {''id'', ''created_at''} \<and> map_of msg c \<noteq> None) cs"
  "(c, v) \<in> set (List.map_filter (ws_field msg) cs) \<Longrightarrow> map_of msg c = Some v"
  by (induction cs) (auto simp: ws_field_def List.map_filter_simps split: option.splits if_splits)

text \<open>
  A message stored in a table fills exactly the columns of the table's schema it has a field for, save
  the identifier and the creation time, each with the very value the visitor sent, one placeholder for
  each: the visitor chooses no text of the statement, but a password or secret column receives what was
  sent as it is, neither hashed nor encrypted as the data routes store it.
\<close>
theorem ws_row_raw:
  assumes "wsWriteToTable cd ws msg = Some (q, args)" "tableColumns ws \<noteq> []"
    and "valid_identifier (WriteToTable ws)" "list_all valid_identifier (map fst (tableColumns ws))"
  shows "\<exists>cols. set cols = {c \<in> set (map fst (tableColumns ws)). c \<notin> {''id'', ''created_at''} \<and> map_of msg c \<noteq> None} \<and>
    distinct cols \<and> map Some args = map (map_of msg) cols \<and>
    q = ''INSERT INTO '' @ WriteToTable ws @ '' ('' @ join '', '' (cols @ [''created_at'']) @ '') VALUES ('' @
      join '', '' (map (\<lambda>_. ''?'') cols @ [''datetime('' @ squoted ''now'' @ '')'']) @ '')'' \<and>
    placeholders q = length args"
proof (intro exI conjI)
  let ?fs = "List.map_filter (ws_field msg) (remdups (map fst (tableColumns ws)))"
  let ?cols = "map fst ?fs"
  have q: "args = map snd ?fs" "q = ''INSERT INTO '' @ WriteToTable ws @ '' ('' @ join '', '' (?cols @ [''created_at'']) @ '') VALUES ('' @
      join '', '' (map (\<lambda>_. ''?'') ?cols @ [''datetime('' @ squoted ''now'' @ '')'']) @ '')''"
    using assms(1,2) by (auto simp: wsWriteToTable_def Let_def comp_def split: if_splits)
  then show "q = ''INSERT INTO '' @ WriteToTable ws @ '' ('' @ join '', '' (?cols @ [''created_at'']) @ '') VALUES ('' @
      join '', '' (map (\<lambda>_. ''?'') ?cols @ [''datetime('' @ squoted ''now'' @ '')'']) @ '')''" by blast
  show set: "set ?cols = {c \<in> set (map fst (tableColumns ws)). c \<notin> {''id'', ''created_at''} \<and> map_of msg c \<noteq> None}"
    unfolding ws_fields(1) by auto
  show "distinct ?cols" unfolding ws_fields(1) by simp
  show "map Some args = map (map_of msg) ?cols" using ws_fields(2) [of _ _ msg] q(1) by auto
  have "valid_identifier ''created_at''" by code_simp
  then have ids: "list_all valid_identifier (?cols @ [''created_at''])"
    using assms(4) set by (auto simp: list_all_iff)
  have now: "placeholders (''datetime('' @ squoted ''now'' @ '')'') = 0" by code_simp
  have "sum_list (map placeholders (map (\<lambda>_. ''?'') ?cols @ [''datetime('' @ squoted ''now'' @ '')''])) = length ?cols"
    using now by (simp add: sql_constants sum_list_triv comp_def del: append.simps)
  then show "placeholders q = length args"
    unfolding q using joined_identifiers(2) [OF ids] sql_identifier(2) [OF assms(3)]
    by (simp add: sql_constants placeholders_join del: append.simps map_append)
qed

section \<open>Event streams\<close>

record site_event = Event +
  EvSite :: int

definition stream_wants :: "int \<Rightarrow> string list \<Rightarrow> site_event \<Rightarrow> bool" where
  "stream_wants sid types e \<longleftrightarrow> EvSite e = sid \<and> EvType e \<in> set types"

definition stream_handler :: "int \<Rightarrow> string list \<Rightarrow> nat \<Rightarrow> (site_event, site_event list list) HandlerFunc" where
  \<comment> \<open>the subscriber of the stream whose channel has this address\<close>
  "stream_handler sid types a e chs = (False, if stream_wants sid types e then chs[a := chan_send e (chs ! a)] else chs)"

record stream_ctx =
  st_bus :: "(site_event, site_event list list) Bus"
  st_chans :: "site_event list list"

definition stream_open :: "'db auth_env \<Rightarrow> 'db \<Rightarrow> bool \<Rightarrow> request \<Rightarrow> stream_ctx \<Rightarrow> (response + (64 word \<times> nat)) \<times> stream_ctx" where
  \<comment> \<open>\<^verbatim>\<open>apiStream\<close> up to its loop; the third argument: whether the connection can be flushed\<close>
  "stream_open env db flushes r c =
     (case loadStreamEndpoint env db (first_segment r) of
        None \<Rightarrow> (Inl (error_response 404 ''stream endpoint not found''), c)
      | Some se \<Rightarrow>
          if \<not> stream_gate env (SeAuth se) r then (Inl (error_response 401 ''unauthorized''), c)
          else if \<not> flushes then (Inl (error_response 500 ''streaming not supported''), c)
          else (let a = length (st_chans c);
                    (i, b) = SubscribeAll (stream_handler (au_site env) (EventTypes se) a) (st_bus c)
                in (Inr (i, a), \<lparr>st_bus = b, st_chans = st_chans c @ [[]]\<rparr>)))"

definition stream_headers :: headers where
  "stream_headers = [(''Content-Type'', ''text/event-stream''), (''Cache-Control'', ''no-cache''), (''Connection'', ''keep-alive''),
     (''X-Accel-Buffering'', ''no'')]"

definition stream_frame :: "(jobj \<Rightarrow> string option) \<Rightarrow> site_event \<Rightarrow> string" where
  \<comment> \<open>what the loop writes for an event it takes; nothing when the payload has no JSON text\<close>
  "stream_frame to_json e =
     (case to_json (EvPayload e) of
        None \<Rightarrow> []
      | Some d \<Rightarrow> ''event: '' @ EvType e @ [nl] @ ''data: '' @ d @ [nl, nl])"

definition keepalive_frame :: string where
  "keepalive_frame = '': keepalive'' @ [nl, nl]"

definition stream_publish :: "site_event \<Rightarrow> stream_ctx \<Rightarrow> stream_ctx" where
  "stream_publish e c = c\<lparr>st_chans := snd (Publish (EvType e) e (st_bus c) (st_chans c))\<rparr>"

definition stream_close :: "64 word \<Rightarrow> stream_ctx \<Rightarrow> stream_ctx" where
  "stream_close i c = c\<lparr>st_bus := Unsubscribe i (st_bus c)\<rparr>"

definition stream_take :: "nat \<Rightarrow> stream_ctx \<Rightarrow> (site_event \<times> stream_ctx) option" where
  \<comment> \<open>the loop receives from its channel\<close>
  "stream_take a c =
     (case st_chans c ! a of [] \<Rightarrow> None | e # es \<Rightarrow> Some (e, c\<lparr>st_chans := (st_chans c)[a := es]\<rparr>))"

definition spares :: "nat \<Rightarrow> (site_event, site_event list list) HandlerFunc \<Rightarrow> bool" where
  \<comment> \<open>a subscriber that leaves this channel alone\<close>
  "spares a h \<longleftrightarrow> (\<forall>e chs. length (snd (h e chs)) = length chs \<and> snd (h e chs) ! a = chs ! a)"

lemma spares_stream: "b \<noteq> a \<Longrightarrow> spares a (stream_handler sid types b)"
  by (simp add: spares_def stream_handler_def)

lemma run_spared:
  "\<forall>s \<in> set hs. spares a (handler s) \<Longrightarrow>
   length (snd (run_handlers e hs chs)) = length chs \<and> snd (run_handlers e hs chs) ! a = chs ! a"
  by (induction hs arbitrary: chs) (auto simp: spares_def case_prod_beta Let_def)

lemma run_state_append: "snd (run_handlers e (hs @ ks) s) = snd (run_handlers e ks (snd (run_handlers e hs s)))"
  by (induction hs arbitrary: s) (auto simp: case_prod_beta Let_def)

lemma publish_one:
  assumes "global (st_bus c) = gs @ [\<lparr>sub_id = i, handler = stream_handler sid types a\<rparr>]" "a < length (st_chans c)"
    and "\<forall>s \<in> set gs \<union> set (concat (map snd (handlers (st_bus c)))). spares a (handler s)"
  shows "st_bus (stream_publish e c) = st_bus c" "length (st_chans (stream_publish e c)) = length (st_chans c)"
    "st_chans (stream_publish e c) ! a = (if stream_wants sid types e then chan_send e (st_chans c ! a) else st_chans c ! a)"
proof -
  have "set (subs_of (st_bus c) (EvType e)) \<subseteq> set (concat (map snd (handlers (st_bus c))))"
    by (cases "map_of (handlers (st_bus c)) (EvType e)") (auto simp: subs_of_def dest!: map_of_SomeD intro: rev_bexI)
  with assms(3) have typed: "\<forall>s \<in> set (subs_of (st_bus c) (EvType e)). spares a (handler s)" by blast
  define c1 where "c1 = snd (run_handlers e (subs_of (st_bus c) (EvType e)) (st_chans c))"
  define c2 where "c2 = snd (run_handlers e gs c1)"
  have "length c1 = length (st_chans c) \<and> c1 ! a = st_chans c ! a" unfolding c1_def using run_spared [OF typed] .
  then have c2: "length c2 = length (st_chans c)" "c2 ! a = st_chans c ! a"
    unfolding c2_def using run_spared [of gs a e c1] assms(3) by auto
  have "st_chans (stream_publish e c) = snd (stream_handler sid types a e c2)"
    by (simp add: stream_publish_def Publish_def assms(1) c1_def c2_def run_state_append case_prod_beta Let_def)
  then show "length (st_chans (stream_publish e c)) = length (st_chans c)"
    "st_chans (stream_publish e c) ! a = (if stream_wants sid types e then chan_send e (st_chans c ! a) else st_chans c ! a)"
    using c2 assms(2) by (simp_all add: stream_handler_def)
qed (simp add: stream_publish_def)

lemma publish_all:
  assumes "global (st_bus c) = gs @ [\<lparr>sub_id = i, handler = stream_handler sid types a\<rparr>]" "a < length (st_chans c)"
    and "\<forall>s \<in> set gs \<union> set (concat (map snd (handlers (st_bus c)))). spares a (handler s)"
  shows "st_chans (fold stream_publish es c) ! a = fold chan_send (filter (stream_wants sid types) es) (st_chans c ! a)"
  using assms
proof (induction es arbitrary: c)
  case (Cons e es)
  note one = publish_one [OF Cons.prems, of e]
  show ?case using Cons.IH [of "stream_publish e c"] Cons.prems one by simp
qed simp

lemma fold_chan_send: "length ch \<le> 64 \<Longrightarrow> fold chan_send es ch = ch @ take (64 - length ch) es"
proof (induction es arbitrary: ch)
  case (Cons e es)
  show ?case
  proof (cases "length ch < 64")
    case True
    then have "64 - length ch = Suc (64 - length (ch @ [e]))" by simp
    with True show ?thesis using Cons.IH [of "ch @ [e]"] Cons.prems by (simp add: chan_send_def)
  next
    case False
    then show ?thesis using Cons.IH [of ch] Cons.prems by (simp add: chan_send_def)
  qed
qed simp

text \<open>
  C33. A stream that is opened holds a valid token where its endpoint asks for one, and until its client reads
  its channel holds exactly the first 64 of the published events that are of its own site and of the types
  its endpoint lists, in the order they were published: no event of another site reaches it, whatever the
  other subscribers of the bus do.
\<close>
theorem stream_serves:
  assumes "stream_open env db flushes r c = (Inr (i, a), c')"
    and "\<forall>s \<in> set (all_subs (st_bus c)). spares (length (st_chans c)) (handler s)"
  shows "\<exists>se. loadStreamEndpoint env db (first_segment r) = Some se \<and> stream_gate env (SeAuth se) r \<and>
    st_chans (fold stream_publish es c') ! a = take 64 (filter (stream_wants (au_site env) (EventTypes se)) es)"
proof -
  from assms(1) obtain se where se: "loadStreamEndpoint env db (first_segment r) = Some se" "stream_gate env (SeAuth se) r"
      "a = length (st_chans c)" "c' = \<lparr>st_bus = snd (SubscribeAll (stream_handler (au_site env) (EventTypes se) a) (st_bus c)), st_chans = st_chans c @ [[]]\<rparr>"
    by (auto simp: stream_open_def Let_def case_prod_beta split: option.splits if_splits)
  have b: "global (st_bus c') = global (st_bus c) @ [\<lparr>sub_id = nextID (st_bus c) + 1, handler = stream_handler (au_site env) (EventTypes se) a\<rparr>]"
    "handlers (st_bus c') = handlers (st_bus c)"
    by (simp_all add: se(4) SubscribeAll_def Let_def)
  have ok: "\<forall>s \<in> set (global (st_bus c)) \<union> set (concat (map snd (handlers (st_bus c')))). spares a (handler s)"
    using assms(2) unfolding b se(3) all_subs_def by auto
  have "st_chans c' ! a = []" "a < length (st_chans c')" by (simp_all add: se(3,4))
  with publish_all [OF b(1) _ ok, of es] fold_chan_send [of "[]"] se(1,2) show ?thesis by simp
qed

section \<open>Webhooks received\<close>

datatype 'db site_ctx = NoSite | NoDatabase | Opened 'db
  \<comment> \<open>what a public handler finds of the request's site\<close>

record hook_request =
  HrName :: string
  HrRequest :: request

definition hook_query :: string where
  "hook_query = ''SELECT id, secret, is_enabled FROM webhooks WHERE name = ?''"

definition hook_touch :: "int \<Rightarrow> string \<times> gval list" where
  "hook_touch i = (''UPDATE webhooks SET last_triggered = CURRENT_TIMESTAMP WHERE id = ?'', [GInt i])"

definition hook_received_log :: "int \<Rightarrow> string \<Rightarrow> string \<times> gval list" where
  "hook_received_log i payload =
     (''INSERT INTO webhook_logs (webhook_id, direction, event_type, payload, success) VALUES (?, '' @ squoted ''incoming'' @ '', '' @
      squoted ''webhook.received'' @ '', ?, 1)'', [GInt i, GStr payload])"

definition exec_all :: "'db sqlite \<Rightarrow> (string \<times> gval list) list \<Rightarrow> 'db \<Rightarrow> 'db" where
  \<comment> \<open>statements whose results are ignored\<close>
  "exec_all lib qs db = fold (\<lambda>(q, args) d. snd (db_exec lib d q args)) qs db"

definition hook_signature :: "request \<Rightarrow> string" where
  "hook_signature r =
     (let s = Header r ''X-Webhook-Signature'' in if s = [] then Header r ''X-Hub-Signature-256'' else s)"

definition signature_ok :: "(string \<Rightarrow> string \<Rightarrow> string) \<Rightarrow> string \<Rightarrow> string \<Rightarrow> string \<Rightarrow> bool" where
  \<comment> \<open>the MAC of the key and the message against the hexadecimal text of the header\<close>
  "signature_ok mac secret payload signature \<longleftrightarrow> hex_decode (trim_prefix ''sha256='' signature) = Some (mac secret payload)"

definition received_event :: "int \<Rightarrow> int \<Rightarrow> string \<Rightarrow> jobj option \<Rightarrow> site_event" where
  "received_event sid i name payload =
     \<lparr>EvType = ''webhook.received'',
      EvPayload = [(''webhook_id'', JNum (of_int i)), (''webhook_name'', JStr name),
                   (''payload'', case payload of Some ob \<Rightarrow> JObj ob | None \<Rightarrow> JNull)],
      EvSite = sid\<rparr>"

definition IncomingWebhook ::
    "'db auth_env \<Rightarrow> (string \<Rightarrow> jobj option) \<Rightarrow> 'db site_ctx \<Rightarrow> hook_request \<Rightarrow> response \<times> 'db site_ctx \<times> site_event list" where
  \<comment> \<open>the second argument decodes a JSON object; the body is read in full before the limit of 1 MB is applied\<close>
  "IncomingWebhook env parse ctx hr =
     (let r = HrRequest hr; refuse = (\<lambda>status msg. (error_response status msg, ctx, [])) in
      case ctx of
        NoSite \<Rightarrow> refuse 404 ''site not found''
      | NoDatabase \<Rightarrow> refuse (if HrName hr = [] then 404 else 500)
                        (if HrName hr = [] then ''webhook name required'' else ''database error'')
      | Opened db \<Rightarrow>
          if HrName hr = [] then refuse 404 ''webhook name required''
          else (case first_row (au_db env) db hook_query [GStr (HrName hr)] of
              Some [GInt i, GStr secret, enabled] \<Rightarrow>
                (case row_bool enabled of
                   None \<Rightarrow> refuse 404 ''webhook not found''
                 | Some e \<Rightarrow>
                     (let payload = take (2 ^ 20) (ReqBody r); signature = hook_signature r in
                      if \<not> e then refuse 403 ''webhook is disabled''
                      else if secret \<noteq> [] \<and> signature \<noteq> [] \<and> \<not> signature_ok (au_hmac env) secret payload signature
                      then refuse 401 ''invalid signature''
                      else (json_response 200 (GObj [(''success'', GBool True), (''message'', GStr ''webhook received'')]),
                            Opened (exec_all (au_db env) [hook_touch i, hook_received_log i payload] db),
                            if env_bus (au_api env) then [received_event (au_site env) i (HrName hr) (parse payload)] else [])))
            | _ \<Rightarrow> refuse 404 ''webhook not found''))"

section \<open>Webhooks sent\<close>

record hook_target =
  HtId :: int
  HtName :: string
  HtURL :: string
  HtSecret :: string

definition targets_query :: string where
  "targets_query = ''SELECT w.id, w.name, w.url, w.secret FROM webhooks w JOIN webhook_subscriptions ws ON ws.webhook_id = w.id WHERE ws.event_type = ? AND w.is_enabled = 1 AND w.url IS NOT NULL AND w.url != '' @ squoted []"

definition hook_target_of :: "gval list \<Rightarrow> hook_target option" where
  "hook_target_of vs =
     (case vs of
        [GInt i, GStr name, GStr url, secret] \<Rightarrow>
          map_option (\<lambda>s. \<lparr>HtId = i, HtName = name, HtURL = url, HtSecret = s\<rparr>) (null_string secret)
      | _ \<Rightarrow> None)"

definition handleEvent :: "'db sqlite \<Rightarrow> 'db option \<Rightarrow> site_event \<Rightarrow> hook_target list" where
  \<comment> \<open>the deliveries started, each in a goroutine; the second argument: the site's database when it is open\<close>
  "handleEvent lib opened e =
     (if EvSite e = 0 then []
      else (case opened of
              None \<Rightarrow> []
            | Some db \<Rightarrow>
                (case db_query lib db targets_query [GStr (EvType e)] of
                   Inl _ \<Rightarrow> []
                 | Inr (_, rs) \<Rightarrow> List.map_filter hook_target_of rs)))"

record delivery =
  dl_pauses :: "int list"
  dl_posts :: "(string \<times> headers \<times> string) list"
  dl_status :: int
  dl_body :: string
  dl_success :: bool

definition delivery_headers :: "(string \<Rightarrow> string \<Rightarrow> string) \<Rightarrow> string \<Rightarrow> string \<Rightarrow> headers" where
  "delivery_headers mac secret payload =
     [(''Content-Type'', ''application/json''), (''User-Agent'', ''IATAN-Webhook/1.0'')] @
     (if secret \<noteq> [] then [(''X-Webhook-Signature'', ''sha256='' @ hex_encode (mac secret payload))] else [])"

fun attempt_from ::
    "(string \<Rightarrow> string \<Rightarrow> string) \<Rightarrow> (nat \<Rightarrow> string + (int \<times> string)) \<Rightarrow> (string \<Rightarrow> bool) \<Rightarrow> hook_target \<Rightarrow> string \<Rightarrow>
     nat \<Rightarrow> nat \<Rightarrow> delivery \<Rightarrow> delivery" where
  \<comment> \<open>the loop from an attempt on: the client's answer to each attempt is its status and its text, cut at 4096
      bytes; an address no request can be made for is never sent\<close>
  "attempt_from mac reply makes t payload 0 n d = d"
| "attempt_from mac reply makes t payload (Suc k) n d =
     (let d1 = d\<lparr>dl_pauses := dl_pauses d @ (if n > 0 then [int (n * n) * 2] else [])\<rparr> in
      if \<not> makes (HtURL t) then attempt_from mac reply makes t payload k (Suc n) d1
      else (let d2 = d1\<lparr>dl_posts := dl_posts d1 @ [(HtURL t, delivery_headers mac (HtSecret t) payload, payload)]\<rparr> in
            case reply n of
              Inl _ \<Rightarrow> attempt_from mac reply makes t payload k (Suc n) d2
            | Inr (status, txt) \<Rightarrow>
                (let d3 = d2\<lparr>dl_status := status, dl_body := take 4096 txt\<rparr> in
                 if 200 \<le> status \<and> status < 300 then d3\<lparr>dl_success := True\<rparr>
                 else attempt_from mac reply makes t payload k (Suc n) d3)))"

definition delivered ::
    "(string \<Rightarrow> string \<Rightarrow> string) \<Rightarrow> (nat \<Rightarrow> string + (int \<times> string)) \<Rightarrow> (string \<Rightarrow> bool) \<Rightarrow> hook_target \<Rightarrow> string \<Rightarrow> delivery" where
  "delivered mac reply makes t payload =
     attempt_from mac reply makes t payload 3 0 \<lparr>dl_pauses = [], dl_posts = [], dl_status = 0, dl_body = [], dl_success = False\<rparr>"

definition logDelivery :: "int \<Rightarrow> string \<Rightarrow> string \<Rightarrow> delivery \<Rightarrow> string \<times> gval list" where
  "logDelivery i eventType payload d =
     (''INSERT INTO webhook_logs (webhook_id, direction, event_type, payload, status_code, response, success) VALUES (?, '' @
      squoted ''outgoing'' @ '', ?, ?, ?, ?, ?)'',
      [GInt i, GStr eventType, GStr payload, GInt (dl_status d), GStr (dl_body d), GBool (dl_success d)])"

definition deliver ::
    "'db sqlite \<Rightarrow> (string \<Rightarrow> string \<Rightarrow> string) \<Rightarrow> (nat \<Rightarrow> string + (int \<times> string)) \<Rightarrow> (string \<Rightarrow> bool) \<Rightarrow>
     (site_event \<Rightarrow> string option) \<Rightarrow> hook_target \<Rightarrow> site_event \<Rightarrow> 'db option \<Rightarrow> delivery option \<times> 'db option" where
  \<comment> \<open>the payload's text includes the event's time; nothing is logged for a site whose database is closed\<close>
  "deliver lib mac reply makes to_json t e opened =
     (case to_json e of
        None \<Rightarrow> (None, opened)
      | Some payload \<Rightarrow>
          (let d = delivered mac reply makes t payload;
               qs = logDelivery (HtId t) (EvType e) payload d # (if dl_success d then [hook_touch (HtId t)] else [])
           in (Some d, map_option (exec_all lib qs) opened)))"

section \<open>Signatures and retries\<close>

text \<open>
  C34. Of an enabled webhook with a secret, a request is accepted exactly when it carries no signature at all
  or the signature of its body: a wrong signature changes nothing and publishes nothing, but leaving the
  header out passes the check, and the event reaches the brain.
\<close>
theorem webhook_gate:
  assumes "first_row (au_db env) db hook_query [GStr (HrName hr)] = Some [GInt i, GStr secret, GInt 1]" "secret \<noteq> []"
    and "HrName hr \<noteq> []" "IncomingWebhook env parse (Opened db) hr = (resp, ctx, evs)"
  defines "r \<equiv> HrRequest hr"
  shows "(if hook_signature r = [] \<or> signature_ok (au_hmac env) secret (take (2 ^ 20) (ReqBody r)) (hook_signature r)
    then Status resp = 200 \<and>
      evs = (if env_bus (au_api env) then [received_event (au_site env) i (HrName hr) (parse (take (2 ^ 20) (ReqBody r)))] else [])
    else Status resp = 401 \<and> ctx = Opened db \<and> evs = [])"
  using assms by (auto simp: IncomingWebhook_def Let_def row_bool_def json_response_def error_response_def split: if_splits)

lemma signature_accepted: "signature_ok mac secret payload (''sha256='' @ hex_encode (mac secret payload))"
  by (simp only: signature_ok_def trim_prefix_append hex_decode_encode)

lemma attempt_posts:
  "\<exists>m \<le> k. dl_posts (attempt_from mac reply makes t payload k n d) =
     dl_posts d @ replicate m (HtURL t, delivery_headers mac (HtSecret t) payload, payload)"
proof (induction k arbitrary: n d)
  case (Suc k)
  have step: "\<exists>m \<le> Suc k. dl_posts (attempt_from mac reply makes t payload k (Suc n) d') =
      dl_posts d @ replicate m (HtURL t, delivery_headers mac (HtSecret t) payload, payload)"
    if "dl_posts d' = dl_posts d @ replicate j (HtURL t, delivery_headers mac (HtSecret t) payload, payload)" "j \<le> 1" for d' j
  proof -
    obtain m where "m \<le> k" "dl_posts (attempt_from mac reply makes t payload k (Suc n) d') =
        dl_posts d' @ replicate m (HtURL t, delivery_headers mac (HtSecret t) payload, payload)"
      using Suc.IH by blast
    with that show ?thesis by (intro exI [of _ "j + m"]) (simp add: replicate_add)
  qed
  show ?case
    using step [where j = 0] step [where j = 1] by (auto simp: Let_def split: sum.split)
qed simp

lemma attempt_success:
  "\<not> dl_success d \<Longrightarrow> dl_success (attempt_from mac reply makes t payload k n d) \<longleftrightarrow>
     makes (HtURL t) \<and> (\<exists>i < k. \<exists>s txt. reply (n + i) = Inr (s, txt) \<and> 200 \<le> s \<and> s < 300)"
proof (induction k arbitrary: n d)
  case (Suc k)
  have ex: "(\<exists>i < Suc k. \<exists>s txt. reply (n + i) = Inr (s, txt) \<and> 200 \<le> s \<and> s < 300) \<longleftrightarrow>
      (\<exists>s txt. reply n = Inr (s, txt) \<and> 200 \<le> s \<and> s < 300) \<or>
      (\<exists>i < k. \<exists>s txt. reply (Suc n + i) = Inr (s, txt) \<and> 200 \<le> s \<and> s < 300)"
    by (auto simp: less_Suc_eq_0_disj)
  show ?case
    unfolding ex using Suc.prems by (auto simp: Let_def Suc.IH split: sum.split)
qed simp

lemma attempt_pauses:
  "\<exists>m \<le> k. dl_pauses (attempt_from mac reply makes t payload k n d) =
     dl_pauses d @ map (\<lambda>i. int (i * i) * 2) (filter (\<lambda>i. 0 < i) [n..<n + m])"
proof (induction k arbitrary: n d)
  case (Suc k)
  have step: "\<exists>m \<le> Suc k. dl_pauses (attempt_from mac reply makes t payload k (Suc n) d') =
      dl_pauses d @ map (\<lambda>i. int (i * i) * 2) (filter (\<lambda>i. 0 < i) [n..<n + m])"
    if "dl_pauses d' = dl_pauses d @ (if n > 0 then [int (n * n) * 2] else [])" for d'
  proof -
    obtain m where "m \<le> k" "dl_pauses (attempt_from mac reply makes t payload k (Suc n) d') =
        dl_pauses d' @ map (\<lambda>i. int (i * i) * 2) (filter (\<lambda>i. 0 < i) [Suc n..<Suc n + m])"
      using Suc.IH by blast
    with that show ?thesis by (intro exI [of _ "Suc m"]) (simp add: upt_conv_Cons del: upt_Suc)
  qed
  have one: "dl_pauses d @ (if n > 0 then [int (n * n) * 2] else []) =
      dl_pauses d @ map (\<lambda>i. int (i * i) * 2) (filter (\<lambda>i. 0 < i) [n..<n + 1])" by simp
  show ?case
    using step one by (auto simp: Let_def split: sum.split)
qed (auto intro: exI [of _ 0])


text \<open>
  C36. Every request the dispatcher makes for a webhook with a secret is accepted by a server of this program
  that receives it under the same secret, when its body is at most 1 MB.
\<close>
theorem webhook_round_trip:
  assumes "deliver lib mac reply makes to_json t e opened = (Some d, opened')" "(url, hs, sent) \<in> set (dl_posts d)"
    and "HtSecret t \<noteq> []" "length sent \<le> 2 ^ 20" "mac = au_hmac env"
    and "first_row (au_db env) db hook_query [GStr (HrName hr)] = Some [GInt i, GStr (HtSecret t), GInt 1]" "HrName hr \<noteq> []"
    and "ReqBody (HrRequest hr) = sent" "Some (Header (HrRequest hr) ''X-Webhook-Signature'') = map_of hs ''X-Webhook-Signature''"
  shows "Status (fst (IncomingWebhook env parse (Opened db) hr)) = 200"
proof -
  obtain payload where "d = delivered mac reply makes t payload"
    using assms(1) by (auto simp: deliver_def Let_def split: option.splits)
  then have hs: "hs = delivery_headers mac (HtSecret t) payload" "sent = payload"
    using assms(2) attempt_posts [of 3 mac reply makes t payload 0 "\<lparr>dl_pauses = [], dl_posts = [], dl_status = 0, dl_body = [], dl_success = False\<rparr>"]
    by (auto simp: delivered_def)
  have sig: "Header (HrRequest hr) ''X-Webhook-Signature'' = ''sha256='' @ hex_encode (mac (HtSecret t) payload)"
    using assms(3,9) by (simp add: hs delivery_headers_def)
  then have "hook_signature (HrRequest hr) = ''sha256='' @ hex_encode (mac (HtSecret t) payload)"
    by (simp add: hook_signature_def Let_def)
  with assms(4-8) hs(2) signature_accepted [of mac "HtSecret t" payload] show ?thesis
    by (simp add: IncomingWebhook_def Let_def row_bool_def json_response_def)
qed

section \<open>A site with a stream, a socket and a webhook\<close>

definition live_db :: "unit sqlite" where
  "live_db = \<lparr>db_query = (\<lambda>_ q args.
       if q = stream_query then Inr ([], [[GStr ''news'', GStr ''t'', GInt 0]])
       else if q = hook_query then Inr ([], [[GInt 4, GStr ''k'', GInt 1]])
       else Inr ([], [])),
     db_exec = (\<lambda>_ _ _. (Inr (1, 1), ()))\<rparr>"

definition live_env :: "unit auth_env" where
  "live_env = visitors_env\<lparr>au_api := (au_api visitors_env)\<lparr>env_db := live_db, env_bus := True, env_strings := (\<lambda>_. [''data.insert''])\<rparr>\<rparr>"

lemma live_simps [simp]:
  "env_db (au_api live_env) = live_db" "env_site (au_api live_env) = 1" "env_bus (au_api live_env)"
  "env_strings (au_api live_env) t = [''data.insert'']" "au_hmac live_env k d = k @ d"
  by (simp_all add: live_env_def)

lemma live_rows:
  "first_row live_db () stream_query args = Some [GStr ''news'', GStr ''t'', GInt 0]"
  "first_row live_db () hook_query args = Some [GInt 4, GStr ''k'', GInt 1]"
  by (simp_all add: first_row_def live_db_def stream_query_def hook_query_def)

theorem ws_row_raw_witness:
  "\<exists>q. wsWriteToTable tagged_codec \<lparr>WePath = ''chat'', WriteToTable = ''posts'', WeAuth = False, tableColumns = [(''id'', ''INTEGER''), (''pin'', ''PASSWORD'')]\<rparr>
     [(''pin'', GStr ''1234''), (''id'', GInt 9), (''x'', GNil)] = Some (q, [GStr ''1234'']) \<and> placeholders q = 1"
proof -
  let ?ws = "\<lparr>WePath = ''chat'', WriteToTable = ''posts'', WeAuth = False, tableColumns = [(''id'', ''INTEGER''), (''pin'', ''PASSWORD'')]\<rparr>"
  let ?msg = "[(''pin'', GStr ''1234''), (''id'', GInt 9), (''x'', GNil)]"
  obtain q where q: "wsWriteToTable tagged_codec ?ws ?msg = Some (q, [GStr ''1234''])"
    by (simp add: wsWriteToTable_def ws_field_def List.map_filter_simps)
  have ids: "valid_identifier ''posts''" "valid_identifier ''id''" "valid_identifier ''pin''" by code_simp+
  have "tableColumns ?ws \<noteq> []" "valid_identifier (WriteToTable ?ws)" "list_all valid_identifier (map fst (tableColumns ?ws))"
    using ids by simp_all
  from ws_row_raw [OF q this] q show ?thesis by auto
qed

definition site_event_of :: "int \<Rightarrow> string \<Rightarrow> site_event" where
  "site_event_of sid ty = \<lparr>EvType = ty, EvPayload = [], EvSite = sid\<rparr>"

theorem stream_serves_witness:
  "\<exists>i a c'. stream_open live_env () True (anonymous ''GET'' ''/api/news/stream'' []) \<lparr>st_bus = NewBus, st_chans = []\<rparr> = (Inr (i, a), c') \<and>
     st_chans (fold stream_publish [site_event_of 2 ''data.insert'', site_event_of 1 ''data.insert'', site_event_of 1 ''data.delete''] c') ! a =
       [site_event_of 1 ''data.insert'']"
proof -
  let ?r = "anonymous ''GET'' ''/api/news/stream'' []" and ?c = "\<lparr>st_bus = NewBus, st_chans = []\<rparr>"
  have load: "loadStreamEndpoint live_env () (first_segment ?r) = Some \<lparr>SePath = ''news'', EventTypes = [''data.insert''], SeAuth = False\<rparr>"
    by (simp add: loadStreamEndpoint_def live_rows row_bool_def)
  obtain i a c' where o: "stream_open live_env () True ?r ?c = (Inr (i, a), c')"
    by (simp add: stream_open_def load stream_gate_def SubscribeAll_def Let_def)
  let ?es = "[site_event_of 2 ''data.insert'', site_event_of 1 ''data.insert'', site_event_of 1 ''data.delete'']"
  have "\<forall>s \<in> set (all_subs (st_bus ?c)). spares (length (st_chans ?c)) (handler s)" by (simp add: all_subs_def NewBus_def)
  from stream_serves [OF o this, of ?es]
  have "st_chans (fold stream_publish ?es c') ! a = take 64 (filter (stream_wants 1 [''data.insert'']) ?es)"
    using load by simp
  also have "\<dots> = [site_event_of 1 ''data.insert'']" by (simp add: stream_wants_def site_event_of_def)
  finally show ?thesis using o by blast
qed

definition hook_post :: "string \<Rightarrow> string \<Rightarrow> hook_request" where
  "hook_post signature txt = \<lparr>HrName = ''gh'', HrRequest = (anonymous ''POST'' ''/webhooks/gh'' [])
     \<lparr>Header := (\<lambda>h. if h = ''X-Webhook-Signature'' then signature else []), ReqBody := txt\<rparr>\<rparr>"

theorem webhook_gate_witness:
  "Status (fst (IncomingWebhook live_env (\<lambda>_. None) (Opened ()) (hook_post ''sha256=00'' ''x''))) = 401 \<and>
   Status (fst (IncomingWebhook live_env (\<lambda>_. None) (Opened ()) (hook_post [] ''x''))) = 200"
proof -
  have row: "first_row (au_db live_env) () hook_query [GStr (HrName (hook_post s t))] = Some [GInt 4, GStr ''k'', GInt 1]" for s t
    by (simp add: live_rows)
  have no: "hook_signature (HrRequest (hook_post [] ''x'')) = []" "hook_signature (HrRequest (hook_post ''sha256=00'' ''x'')) = ''sha256=00''"
    by (simp_all add: hook_signature_def hook_post_def)
  have bad: "\<not> signature_ok (au_hmac live_env) ''k'' (take (2 ^ 20) (ReqBody (HrRequest (hook_post ''sha256=00'' ''x'')))) ''sha256=00''"
    by (simp add: signature_ok_def hook_post_def trim_prefix_def has_prefix_def hex_val_def)
  obtain resp ctx evs where a: "IncomingWebhook live_env (\<lambda>_. None) (Opened ()) (hook_post ''sha256=00'' ''x'') = (resp, ctx, evs)"
    by (metis prod_cases3)
  obtain resp' ctx' evs' where b: "IncomingWebhook live_env (\<lambda>_. None) (Opened ()) (hook_post [] ''x'') = (resp', ctx', evs')"
    by (metis prod_cases3)
  have "Status resp = 401"
    using webhook_gate [OF row _ _ a] bad no by (simp add: hook_post_def)
  moreover have "Status resp' = 200"
    using webhook_gate [OF row _ _ b] no by (simp add: hook_post_def)
  ultimately show ?thesis by (simp add: a b)
qed

definition gh_target :: hook_target where
  "gh_target = \<lparr>HtId = 4, HtName = ''gh'', HtURL = ''https://hub'', HtSecret = ''k''\<rparr>"

definition third_time :: "nat \<Rightarrow> string + (int \<times> string)" where
  "third_time n = (if n = 0 then Inl ''timeout'' else if n = 1 then Inr (500, ''busy'') else Inr (204, []))"

lemma third_time_delivery:
  "deliver live_db (\<lambda>k d. k @ d) third_time (\<lambda>_. True) (\<lambda>_. Some ''{}'') gh_target (site_event_of 1 ''x'') None =
     (Some \<lparr>dl_pauses = [2, 8], dl_posts = replicate 3 (''https://hub'', delivery_headers (\<lambda>k d. k @ d) ''k'' ''{}'', ''{}''),
        dl_status = 204, dl_body = [], dl_success = True\<rparr>, None)"
  by (simp add: deliver_def delivered_def third_time_def gh_target_def Let_def numeral_3_eq_3)


theorem webhook_round_trip_witness:
  "Status (fst (IncomingWebhook live_env (\<lambda>_. None) (Opened ()) (hook_post (''sha256='' @ hex_encode ''k{}'') ''{}''))) = 200"
  by (rule webhook_round_trip [OF third_time_delivery, of "''https://hub''" "delivery_headers (\<lambda>k d. k @ d) ''k'' ''{}''" "''{}''"])
    (simp_all add: gh_target_def fun_eq_iff live_rows hook_post_def delivery_headers_def)

end
