(* ===== verification/Html.thy ===== *)
theory Html
  imports Prelude "HOL-Library.Multiset"
begin

text \<open>
  The text processing behind the pages of \<^verbatim>\<open>server/public/handler.go\<close>: HTML escaping, the regular expressions that
  find tags, blocks and attributes (each as a function from a text to the length of its match at the text's
  beginning), the extraction and removal of style sheets and scripts, and the lexical functions of Go's
  \<^verbatim>\<open>path/filepath\<close>. Case is folded for ASCII letters only. Shown: extraction moves text without losing or
  doubling any, a lexically clean relative path has its parent references in front, and escaped texts cannot
  leave their attribute.
\<close>

section \<open>Escaping\<close>

definition html_escape_char :: "char \<Rightarrow> string" where
  "html_escape_char c =
     (if c = CHR ''&'' then ''&amp;'' else if c = CHR 0x27 then ''&#39;'' else if c = CHR ''<'' then ''&lt;''
      else if c = CHR ''>'' then ''&gt;'' else if c = dquote then ''&#34;'' else [c])"

definition html_escape :: "string \<Rightarrow> string" where
  "html_escape s = concat (map html_escape_char s)"

definition markup_char :: "char \<Rightarrow> bool" where
  "markup_char c \<longleftrightarrow> c = CHR ''<'' \<or> c = CHR ''>'' \<or> c = dquote \<or> c = CHR 0x27"

lemma html_escape_safe: "c \<in> set (html_escape s) \<Longrightarrow> \<not> markup_char c"
  by (induction s) (auto simp: html_escape_def html_escape_char_def markup_char_def split: if_splits)

section \<open>Patterns\<close>

type_synonym pattern = "string \<Rightarrow> nat option"

function re_scan :: "pattern \<Rightarrow> string \<Rightarrow> (bool \<times> string) list" where
  \<comment> \<open>the text cut into its leftmost matches and single characters\<close>
  "re_scan m [] = []"
| "re_scan m (c # s) =
     (case m (c # s) of
        Some (Suc n) \<Rightarrow> (True, take (Suc n) (c # s)) # re_scan m (drop (Suc n) (c # s))
      | _ \<Rightarrow> (False, [c]) # re_scan m s)"
  by pat_completeness auto
termination by (relation "measure (length \<circ> snd)") auto

definition find_all :: "pattern \<Rightarrow> string \<Rightarrow> string list" where
  "find_all m s = map snd (filter fst (re_scan m s))"

definition replace_all :: "pattern \<Rightarrow> (string \<Rightarrow> string) \<Rightarrow> string \<Rightarrow> string" where
  "replace_all m f s = concat (map (\<lambda>(b, t). if b then f t else t) (re_scan m s))"

definition remove_all :: "pattern \<Rightarrow> string \<Rightarrow> string" where
  "remove_all m = replace_all m (\<lambda>_. [])"

definition re_blank :: "char \<Rightarrow> bool" where
  \<comment> \<open>\<^verbatim>\<open>\s\<close>\<close>
  "re_blank c \<longleftrightarrow> of_char c \<in> {9, 10, 12, 13, 32 :: nat}"

definition fold_prefix :: "string \<Rightarrow> string \<Rightarrow> bool" where
  "fold_prefix p s \<longleftrightarrow> to_lower (take (length p) s) = p"

definition tag_body :: "string \<Rightarrow> string \<Rightarrow> string option" where
  \<comment> \<open>of \<^verbatim>\<open><name[^>]*>\<close>: what stands between the name and the first closing bracket\<close>
  "tag_body name s =
     (if fold_prefix (CHR ''<'' # name) s then map_option fst (cut ''>'' (drop (Suc (length name)) s)) else None)"

definition tag_at :: "string \<Rightarrow> (string \<Rightarrow> bool) \<Rightarrow> pattern" where
  "tag_at name P s =
     (case tag_body name s of Some b \<Rightarrow> (if P b then Some (length name + length b + 2) else None) | None \<Rightarrow> None)"

definition block_at :: "string \<Rightarrow> pattern" where
  \<comment> \<open>\<^verbatim>\<open>(?isU)<name[\s>].*</name>\<close>\<close>
  "block_at name s =
     (case drop (Suc (length name)) s of
        [] \<Rightarrow> None
      | c # rest \<Rightarrow>
          if fold_prefix (CHR ''<'' # name) s \<and> (re_blank c \<or> c = CHR ''>'')
          then map_option (\<lambda>(a, _). 2 * length name + length a + 5) (cut (''</'' @ name @ ''>'') (to_lower rest))
          else None)"

definition close_at :: "string \<Rightarrow> pattern" where
  \<comment> \<open>\<^verbatim>\<open></name\s*>\<close>\<close>
  "close_at name s =
     (let rest = drop (length name + 2) s; sp = takeWhile re_blank rest in
      if fold_prefix (''</'' @ name) s \<and> has_prefix ''>'' (drop (length sp) rest)
      then Some (length name + length sp + 3) else None)"

definition stylesheet_body :: "string \<Rightarrow> bool" where
  "stylesheet_body b \<longleftrightarrow>
     list_ex (\<lambda>(q, q'). contains (to_lower b) (''rel='' @ [q] @ ''stylesheet'' @ [q'])) (List.product [dquote, CHR 0x27] [dquote, CHR 0x27])"

definition cssLinkRe :: pattern where "cssLinkRe = tag_at ''link'' stylesheet_body"
definition styleBlockRe :: pattern where "styleBlockRe = block_at ''style''"
definition scriptBlockRe :: pattern where "scriptBlockRe = block_at ''script''"
definition scriptSelfCloseRe :: pattern where
  "scriptSelfCloseRe = tag_at ''script'' (\<lambda>b. has_suffix ''/'' (trim_right_by re_blank b))"
definition scriptOpenTagRe :: pattern where "scriptOpenTagRe = tag_at ''script'' (\<lambda>_. True)"
definition doctypeRe :: pattern where "doctypeRe = tag_at ''!doctype'' (\<lambda>_. True)"
definition htmlOpenRe :: pattern where "htmlOpenRe = tag_at ''html'' (\<lambda>_. True)"
definition htmlCloseRe :: pattern where "htmlCloseRe = close_at ''html''"
definition headBlockRe :: pattern where "headBlockRe = block_at ''head''"
definition bodyOpenRe :: pattern where "bodyOpenRe = tag_at ''body'' (\<lambda>_. True)"
definition bodyCloseRe :: pattern where "bodyCloseRe = close_at ''body''"
definition navBlockRe :: pattern where "navBlockRe = block_at ''nav''"
definition footBlockRe :: pattern where "footBlockRe = block_at ''footer''"

section \<open>Attributes\<close>

definition is_quote :: "char \<Rightarrow> bool" where
  "is_quote c \<longleftrightarrow> c = dquote \<or> c = CHR 0x27"

definition attr_at :: "string \<Rightarrow> string \<Rightarrow> string option" where
  \<comment> \<open>\<^verbatim>\<open>name\s*=\s*["']([^"']+)["']\<close> at the beginning of the text\<close>
  "attr_at name s =
     (if fold_prefix name s
      then (case dropWhile re_blank (drop (length name) s) of
              e # s1 \<Rightarrow>
                if e \<noteq> CHR ''='' then None
                else (case dropWhile re_blank s1 of
                    q # s2 \<Rightarrow>
                      (let v = takeWhile (\<lambda>c. \<not> is_quote c) s2 in
                       if is_quote q \<and> v \<noteq> [] \<and> length v < length s2 then Some v else None)
                  | [] \<Rightarrow> None)
            | [] \<Rightarrow> None)
      else None)"

fun find_attr :: "string \<Rightarrow> string \<Rightarrow> string" where
  "find_attr name [] = []"
| "find_attr name (c # s) = (case attr_at name (c # s) of Some v \<Rightarrow> v | None \<Rightarrow> find_attr name s)"

definition extractHref :: "string \<Rightarrow> string" where "extractHref = find_attr ''href''"
definition extractSrc :: "string \<Rightarrow> string" where "extractSrc = find_attr ''src''"

fun has_src :: "bool \<Rightarrow> string \<Rightarrow> bool" where
  \<comment> \<open>\<^verbatim>\<open>\bsrc\s*=\<close>; the first argument: whether a word character stands before the text\<close>
  "has_src word [] = False"
| "has_src word (c # s) \<longleftrightarrow>
     \<not> word \<and> fold_prefix ''src'' (c # s) \<and> has_prefix ''='' (dropWhile re_blank (drop 3 (c # s))) \<or> has_src (is_word_char c) s"

definition open_tag :: "string \<Rightarrow> string" where
  "open_tag block = (case find_all scriptOpenTagRe block of t # _ \<Rightarrow> t | [] \<Rightarrow> [])"

definition isExternalScript :: "string \<Rightarrow> bool" where
  "isExternalScript block \<longleftrightarrow> open_tag block \<noteq> [] \<and> has_src False (open_tag block)"

definition extractScriptSrc :: "string \<Rightarrow> string" where
  "extractScriptSrc block = (if open_tag block = [] then [] else extractSrc (open_tag block))"

section \<open>Moving style sheets and scripts\<close>

definition dedupStrings :: "string list \<Rightarrow> string list" where
  "dedupStrings xs = fold (\<lambda>s out. if s \<in> set out then out else out @ [s]) xs []"

definition hoist :: "pattern \<Rightarrow> string list \<times> string \<Rightarrow> string list \<times> string" where
  \<comment> \<open>collect the matches and cut them out of the text\<close>
  "hoist m = (\<lambda>(acc, s). (acc @ find_all m s, remove_all m s))"

definition extractAssetTags :: "string \<Rightarrow> string list \<times> string list \<times> string" where
  \<comment> \<open>the tags of the head, those at the end of the body (both joined by line breaks later), and the rest\<close>
  "extractAssetTags content =
     (let (head, c1) = hoist styleBlockRe (hoist cssLinkRe ([], content));
          (bodyEnd, c2) = hoist scriptSelfCloseRe (hoist scriptBlockRe ([], c1))
      in (head, bodyEnd, c2))"

definition known_asset :: "string list \<Rightarrow> string \<Rightarrow> bool" where
  "known_asset names t \<longleftrightarrow> list_ex (\<lambda>n. contains (to_lower t) (''/assets/'' @ n)) names"

definition strip_refs :: "string list \<Rightarrow> string \<Rightarrow> string" where
  \<comment> \<open>\<^verbatim>\<open>stripSharedAssetRefs\<close> for the lower-case names of the site's assets\<close>
  "strip_refs names content =
     (if names = [] then content
      else replace_all scriptSelfCloseRe (\<lambda>t. if known_asset names t then [] else t)
        (replace_all scriptBlockRe (\<lambda>t. if isExternalScript t \<and> known_asset names t then [] else t)
          (replace_all cssLinkRe (\<lambda>t. if known_asset names t then [] else t) content)))"

definition nonempty :: "string list \<Rightarrow> string list" where
  "nonempty = filter (\<lambda>s. s \<noteq> [])"

definition stripForSPA :: "string \<Rightarrow> string \<times> string list \<times> string list" where
  "stripForSPA content =
     (let css = nonempty (map extractHref (find_all cssLinkRe content));
          c1 = remove_all cssLinkRe content;
          js = nonempty (map extractScriptSrc (filter isExternalScript (find_all scriptBlockRe c1)));
          c2 = replace_all scriptBlockRe (\<lambda>t. if isExternalScript t then [] else t) c1;
          js' = nonempty (map extractSrc (find_all scriptSelfCloseRe c2))
      in (trim_space (remove_all scriptSelfCloseRe c2), css, js @ js'))"

definition stripDocumentShell :: "string \<Rightarrow> string" where
  "stripDocumentShell content =
     (let lower = to_lower content in
      if \<not> contains lower ''<!doctype'' \<and> \<not> contains lower ''<html'' then content
      else (let rescued = concat (map (\<lambda>h. find_all cssLinkRe h @ find_all styleBlockRe h @ find_all scriptBlockRe h)
                                   (find_all headBlockRe content));
                c = remove_all bodyCloseRe (remove_all bodyOpenRe (remove_all htmlCloseRe (remove_all htmlOpenRe
                      (remove_all headBlockRe (remove_all doctypeRe content)))))
            in trim_space (if rescued \<noteq> [] then join [nl] rescued @ [nl] @ c else c)))"

lemma re_scan_concat: "concat (map snd (re_scan m s)) = s"
  by (induction m s rule: re_scan.induct) (auto split: option.split nat.split)

lemma remove_find: "mset (remove_all m s) + mset (concat (find_all m s)) = mset s"
proof -
  have "mset (concat (map (\<lambda>(b, t). if b then [] else t) xs)) + mset (concat (map snd (filter fst xs))) = mset (concat (map snd xs))"
    for xs :: "(bool \<times> string) list"
    by (induction xs) (auto simp: ac_simps)
  then show ?thesis by (simp add: remove_all_def replace_all_def find_all_def re_scan_concat)
qed

lemma hoist_text: "hoist m (acc, s) = (acc', s') \<Longrightarrow> mset (concat acc') + mset s' = mset (concat acc) + mset s"
  using remove_find [of m s] by (auto simp: hoist_def ac_simps)

text \<open>Moving the tags keeps the text: each character is in the head, at the end of the body or in the rest.\<close>
lemma extractAssetTags_keeps:
  assumes "extractAssetTags content = (headTags, bodyTags, rest)"
  shows "mset (concat headTags) + mset (concat bodyTags) + mset rest = mset content"
proof -
  obtain h1 c1 h2 c2 b1 c3 where steps: "hoist cssLinkRe ([], content) = (h1, c1)" "hoist styleBlockRe (h1, c1) = (h2, c2)"
      "hoist scriptBlockRe ([], c2) = (b1, c3)" by (metis surj_pair)
  then have "hoist scriptSelfCloseRe (b1, c3) = (bodyTags, rest)" "headTags = h2"
    using assms by (simp_all add: extractAssetTags_def Let_def split: prod.splits)
  with steps [THEN hoist_text] show ?thesis using hoist_text [of scriptSelfCloseRe b1 c3 bodyTags rest]
    by (simp add: add.assoc)
qed

lemma dedup_fold:
  "distinct out \<Longrightarrow> distinct (fold (\<lambda>s out. if s \<in> set out then out else out @ [s]) xs out) \<and>
   set (fold (\<lambda>s out. if s \<in> set out then out else out @ [s]) xs out) = set out \<union> set xs"
  by (induction xs arbitrary: out) auto

lemma dedupStrings_set: "distinct (dedupStrings xs)" "set (dedupStrings xs) = set xs"
  using dedup_fold [of "[]" xs] by (simp_all add: dedupStrings_def)

section \<open>Paths\<close>

fun clean_parts :: "bool \<Rightarrow> string list \<Rightarrow> string list \<Rightarrow> string list" where
  \<comment> \<open>the elements kept, the last first\<close>
  "clean_parts rooted out [] = out"
| "clean_parts rooted out (p # ps) =
     (if p = [] \<or> p = ''.'' then clean_parts rooted out ps
      else if p = ''..'' then
        (if out \<noteq> [] \<and> hd out \<noteq> ''..'' then clean_parts rooted (tl out) ps
         else if rooted then clean_parts rooted out ps
         else clean_parts rooted (p # out) ps)
      else clean_parts rooted (p # out) ps)"

definition is_abs :: "string \<Rightarrow> bool" where
  "is_abs p \<longleftrightarrow> has_prefix ''/'' p"

definition path_clean :: "string \<Rightarrow> string" where
  \<comment> \<open>\<^verbatim>\<open>filepath.Clean\<close> on a system with slashes\<close>
  "path_clean p =
     (let out = join ''/'' (rev (clean_parts (is_abs p) [] (split_on CHR ''/'' p)))
      in if is_abs p then ''/'' @ out else if out = [] then ''.'' else out)"

definition path_join :: "string list \<Rightarrow> string" where
  "path_join ps = (let qs = filter (\<lambda>p. p \<noteq> []) ps in if qs = [] then [] else path_clean (join ''/'' qs))"

definition path_base :: "string \<Rightarrow> string" where
  "path_base p =
     (let q = trim_right_by (\<lambda>c. c = CHR ''/'') p
      in if p = [] then ''.'' else if q = [] then ''/'' else last (split_on CHR ''/'' q))"

definition path_ext :: "string \<Rightarrow> string" where
  "path_ext p =
     (let f = last (split_on CHR ''/'' p)
      in case last_index CHR ''.'' f of Some i \<Rightarrow> drop i f | None \<Rightarrow> [])"

definition plain_part :: "string \<Rightarrow> bool" where
  "plain_part p \<longleftrightarrow> p \<noteq> [] \<and> p \<noteq> ''.'' \<and> p \<noteq> ''..'' \<and> CHR ''/'' \<notin> set p"


lemma clean_parts_shape:
  assumes "\<exists>n ps. out = ps @ replicate n ''..'' \<and> list_all plain_part ps" "list_all (\<lambda>p. CHR ''/'' \<notin> set p) qs"
  shows "\<exists>n ps. clean_parts rooted out qs = ps @ replicate n ''..'' \<and> list_all plain_part ps"
  using assms
proof (induction rooted out qs rule: clean_parts.induct)
  case (2 rooted out p ps)
  then obtain n xs where o: "out = xs @ replicate n ''..''" "list_all plain_part xs" by blast
  have up: "\<exists>n ys. ''..'' # out = ys @ replicate n ''..'' \<and> list_all plain_part ys" if "\<not> (out \<noteq> [] \<and> hd out \<noteq> ''..'')"
  proof -
    have "xs = []" using that o by (cases xs) (auto simp: plain_part_def)
    then show ?thesis using o(1) by (intro exI [of _ "Suc n"] exI [of _ "[]"]) simp
  qed
  have down: "\<exists>n ys. tl out = ys @ replicate n ''..'' \<and> list_all plain_part ys"
  proof (cases xs)
    case Nil
    then show ?thesis using o by (intro exI [of _ "n - 1"] exI [of _ "[]"]) (cases n; simp)
  next
    case (Cons x xs')
    then show ?thesis using o by auto
  qed
  have add: "\<exists>n ys. p # out = ys @ replicate n ''..'' \<and> list_all plain_part ys" if "p \<notin> {[], ''.'', ''..''}"
    using that o "2.prems"(2) by (intro exI [of _ n] exI [of _ "p # xs"]) (auto simp: plain_part_def)
  show ?case using 2 up down add by (cases "p = ''..''") auto
qed auto

lemma join_first: "ws \<noteq> [] \<Longrightarrow> \<exists>t. join sep ws = hd ws @ t"
  by (cases "(sep, ws)" rule: join.cases) auto

lemma parent_first: "n \<noteq> 0 \<Longrightarrow> \<exists>t. join ''/'' (replicate n ''..'' @ ps) = ''..'' @ t"
  using join_first [of "replicate n ''..'' @ ps" "''/''"] by (cases n) auto

lemma clean_parts_id: "list_all plain_part ps \<Longrightarrow> clean_parts rooted out ps = rev ps @ out"
  by (induction ps arbitrary: out) (auto simp: plain_part_def)

lemma split_parts: "p \<in> set (split_on CHR ''/'' s) \<Longrightarrow> CHR ''/'' \<notin> set p"
  using split_by_pieces [of p "\<lambda>x. x = CHR ''/''" s] by (auto simp: split_on_def)

lemma plain_join: "ps \<noteq> [] \<Longrightarrow> list_all plain_part ps \<Longrightarrow> \<not> is_abs (join ''/'' ps) \<and> join ''/'' ps \<noteq> []"
  by (cases "(''/'', ps)" rule: join.cases) (auto simp: is_abs_def has_prefix_def plain_part_def neq_Nil_conv take_Cons' split: if_splits)

lemma split_plain: "ps \<noteq> [] \<Longrightarrow> list_all plain_part ps \<Longrightarrow> split_on CHR ''/'' (join ''/'' ps) = ps"
  using split_on_join [of ps "CHR ''/''"] by (auto simp: list_all_iff plain_part_def)

lemma path_clean_plain:
  assumes "ps \<noteq> []" "list_all plain_part ps"
  shows "path_clean (join ''/'' ps) = join ''/'' ps"
  using plain_join [OF assms] split_plain [OF assms] clean_parts_id [OF assms(2), of False "[]"]
  by (simp add: path_clean_def Let_def)

lemma path_clean_parts:
  \<comment> \<open>a clean relative path is the current directory or plain elements behind parent references\<close>
  assumes "\<not> is_abs p"
  shows "path_clean p = ''.'' \<or> (\<exists>n ps. replicate n ''..'' @ ps \<noteq> [] \<and> path_clean p = join ''/'' (replicate n ''..'' @ ps) \<and> list_all plain_part ps)"
proof -
  have "list_all (\<lambda>q. CHR ''/'' \<notin> set q) (split_on CHR ''/'' p)" using split_parts by (auto simp: list_all_iff)
  then obtain n ps where c: "clean_parts False [] (split_on CHR ''/'' p) = ps @ replicate n ''..''" "list_all plain_part ps"
    using clean_parts_shape [of "[]" "split_on CHR ''/'' p" False] by auto
  then have r: "path_clean p = (let out = join ''/'' (replicate n ''..'' @ rev ps) in if out = [] then ''.'' else out)"
    using assms by (simp add: path_clean_def)
  show ?thesis
  proof (cases "replicate n ''..'' @ rev ps = []")
    case True
    then show ?thesis using r by simp
  next
    case False
    have "hd (replicate n ''..'' @ rev ps) \<noteq> []"
    proof (cases n)
      case 0
      then have "hd (rev ps) \<in> set ps" using False by (metis append_Nil hd_in_set replicate_0 set_rev)
      then show ?thesis using 0 c(2) by (auto simp: list_all_iff plain_part_def)
    qed simp
    then have "join ''/'' (replicate n ''..'' @ rev ps) \<noteq> []" using join_first [OF False, of "''/''"] by auto
    then have "path_clean p = join ''/'' (replicate n ''..'' @ rev ps)" using r by (simp only: Let_def if_False)
    moreover have "list_all plain_part (rev ps)" using c(2) by simp
    ultimately show ?thesis using False by blast
  qed
qed

lemma clean_beneath:
  \<comment> \<open>a clean path that begins like a plain path leaves no directory\<close>
  assumes "has_prefix (join ''/'' ds) (path_clean p)" "ds \<noteq> []" "list_all plain_part ds" "hd (hd ds) \<noteq> CHR ''.''"
  shows "list_all plain_part (split_on CHR ''/'' (path_clean p))"
proof -
  obtain c cs where d: "hd ds = c # cs" "c \<noteq> CHR ''.''" "c \<noteq> CHR ''/''"
    using assms(2-4) by (cases ds; cases "hd ds") (auto simp: plain_part_def)
  obtain rest where "join ''/'' ds = c # rest" using d(1) join_first [OF assms(2), of "''/''"] by auto
  then have first: "\<exists>t. path_clean p = c # t" using assms(1) by (auto dest: has_prefixE)
  then have "\<not> is_abs p" using d(3) by (auto simp: path_clean_def Let_def split: if_splits)
  moreover have "path_clean p \<noteq> ''.''" using first d(2) by auto
  ultimately obtain n ps where n: "replicate n ''..'' @ ps \<noteq> []" "path_clean p = join ''/'' (replicate n ''..'' @ ps)" "list_all plain_part ps"
    using path_clean_parts by blast
  have "n = 0"
  proof (rule ccontr)
    assume "n \<noteq> 0"
    from parent_first [OF this, of ps] first n(2) d(2) show False by auto
  qed
  with n show ?thesis using split_plain [of ps] by simp
qed

lemma clean_relative:
  \<comment> \<open>the check the file handlers make of a name\<close>
  assumes "path_clean s = s" "\<not> is_abs s" "\<not> has_prefix ''..'' s" "s \<noteq> ''.''"
  shows "list_all plain_part (split_on CHR ''/'' s)"
proof -
  obtain n ps where n: "replicate n ''..'' @ ps \<noteq> []" "s = join ''/'' (replicate n ''..'' @ ps)" "list_all plain_part ps"
    using path_clean_parts [OF assms(2)] assms(1,4) by auto
  have "n = 0"
  proof (rule ccontr)
    assume "n \<noteq> 0"
    from parent_first [OF this, of ps] n(2) assms(3) show False by (auto simp del: append.simps)
  qed
  with n show ?thesis using split_plain [of ps] by simp
qed

end
