(* ===== verification/Pages.thy ===== *)
theory Pages
  imports Realtime Html
begin

text \<open>
  The pages of a site (\<^verbatim>\<open>server/public/handler.go\<close>): the site of a request, redirects, the look-up of a page with
  its fallbacks and parameters, the document rendered for a browser and the JSON for the single-page router,
  the site map, the static assets and the uploads. SQLite, SHA-256, JSON, the file system and the multipart
  parser are arguments. Shown: which page answers a path, that parameters rebuild the path, that texts of a
  page's metadata cannot leave their attributes, that the files read and written lie in the site's
  directories, and what becomes of an uploaded file.
\<close>

section \<open>The site of a request\<close>

record SiteInfo =
  SiId :: int
  SiName :: string
  SiDomain :: "string option"
  SiDescription :: "string option"
  SiStatus :: string

definition GetSiteByDomain :: "SiteInfo list option \<Rightarrow> string \<Rightarrow> SiteInfo option" where
  \<comment> \<open>of the table of sites, in the order of their identifiers; \<^term>\<open>None\<close> when it cannot be read\<close>
  "GetSiteByDomain table host = (case table of None \<Rightarrow> None | Some rs \<Rightarrow> find (\<lambda>s. SiDomain s = Some host) rs)"

definition ListActiveSites :: "SiteInfo list option \<Rightarrow> SiteInfo list option" where
  "ListActiveSites table = map_option (filter (\<lambda>s. SiStatus s = ''active'')) table"

definition html_response :: "nat \<Rightarrow> string \<Rightarrow> response" where
  "html_response status doc = \<lparr>Status = status, RespHeaders = [(''Content-Type'', ''text/html; charset=utf-8'')], RespBody = GStr doc\<rparr>"

definition wantsHTML :: "request \<Rightarrow> bool" where
  "wantsHTML r \<longleftrightarrow> contains (Header r ''Accept'') ''text/html''"

definition serveErrorPage :: "(nat \<Rightarrow> string \<Rightarrow> string \<Rightarrow> string) \<Rightarrow> nat \<Rightarrow> string \<Rightarrow> string \<Rightarrow> response" where
  \<comment> \<open>the first argument: the fixed text around the status and the two escaped texts\<close>
  "serveErrorPage skeleton status title message = html_response status (skeleton status (html_escape title) (html_escape message))"

definition host_name :: "string \<Rightarrow> string" where
  "host_name host = (case last_index CHR '':'' host of Some i \<Rightarrow> take i host | None \<Rightarrow> host)"

definition SiteResolver :: "(nat \<Rightarrow> string \<Rightarrow> string \<Rightarrow> string) \<Rightarrow> SiteInfo list option \<Rightarrow> request \<Rightarrow> response + SiteInfo" where
  "SiteResolver skeleton table r =
     (let refuse = (\<lambda>title message. Inl (if wantsHTML r then serveErrorPage skeleton 404 title message
                                         else error_response 404 ''site not found'')) in
      case (case GetSiteByDomain table (host_name (ReqHost r)) of
              Some s \<Rightarrow> Some s
            | None \<Rightarrow> (case ListActiveSites table of Some (s # _) \<Rightarrow> Some s | _ \<Rightarrow> None)) of
        None \<Rightarrow> refuse ''Site Not Found'' ''There is no site configured for this domain.''
      | Some s \<Rightarrow>
          if SiStatus s \<noteq> ''active'' then refuse ''Site Unavailable'' ''This site is currently unavailable. Please check back later.''
          else Inr s)"

section \<open>Looking up a page\<close>

record pageMetadata =
  MdDescription :: string
  MdOGImage :: string
  MdCanonical :: string
  MdKeywords :: string

record layoutData =
  HeadContent :: string
  BodyBeforeMain :: string
  BodyAfterMain :: string
  LayoutTemplate :: string

record page =
  PgTitle :: string
  PgContent :: string
  PgMetadata :: string
  PgLayout :: string
  PgAssets :: string

record 'db page_env =
  pe_lib :: "'db sqlite"
  pe_digest :: "string \<Rightarrow> string"
  pe_strings :: "string \<Rightarrow> string list option"
  pe_meta :: "string \<Rightarrow> pageMetadata"
  pe_params :: "(string \<times> string) list \<Rightarrow> string"
  pe_location :: "request \<Rightarrow> string \<Rightarrow> string"
  pe_read :: "string \<Rightarrow> string option"
  pe_frame :: "nat \<Rightarrow> string \<Rightarrow> string \<Rightarrow> string"

definition page_query :: string where
  "page_query = ''SELECT title, content, metadata, layout, assets FROM pages WHERE path = ? AND status = '' @ squoted ''published'' @ '' AND is_deleted = 0''"

definition page_of_row :: "gval list \<Rightarrow> page option" where
  "page_of_row vs =
     (case map null_string vs of
        [Some t, Some c, Some m, Some l, Some a] \<Rightarrow> Some \<lparr>PgTitle = t, PgContent = c, PgMetadata = m, PgLayout = l, PgAssets = a\<rparr>
      | _ \<Rightarrow> None)"

definition find_page :: "'db sqlite \<Rightarrow> 'db \<Rightarrow> string \<Rightarrow> page option" where
  "find_page lib db path = Option.bind (first_row lib db page_query [GStr path]) page_of_row"

definition redirect_query :: string where
  "redirect_query = ''SELECT target_path, status_code FROM redirects WHERE source_path = ?''"

definition checkRedirect :: "'db sqlite \<Rightarrow> 'db \<Rightarrow> string \<Rightarrow> (string \<times> int) option" where
  "checkRedirect lib db path =
     (case first_row lib db redirect_query [GStr path] of Some [GStr t, GInt c] \<Rightarrow> Some (t, c) | _ \<Rightarrow> None)"

definition homeFallbacks :: "string \<Rightarrow> string list" where
  "homeFallbacks path =
     (if path = ''/'' then [''/index.html'', ''/index'', ''/home'']
      else if path = ''/index.html'' \<or> path = ''/index'' then [''/''] else [])"

fun param_match :: "string list \<Rightarrow> string list \<Rightarrow> (string \<times> string) list \<Rightarrow> (string \<times> string) list option" where
  "param_match (c # cs) (p # ps) acc =
     (if has_prefix '':'' c then param_match cs ps (AList.update (drop 1 c) p acc)
      else if c = p then param_match cs ps acc else None)"
| "param_match [] [] acc = Some acc"
| "param_match _ _ acc = None"

definition params_query :: string where
  "params_query = ''SELECT path FROM pages WHERE path LIKE '' @ squoted ''%:%'' @ '' AND status = '' @ squoted ''published'' @ '' AND is_deleted = 0''"

fun first_param :: "string list \<Rightarrow> gval list list \<Rightarrow> (string \<times> (string \<times> string) list) option" where
  "first_param req [] = None"
| "first_param req (r # rs) =
     (let cand = (case r of [GStr c] \<Rightarrow> c | _ \<Rightarrow> []) in
      case param_match (split_on CHR ''/'' cand) req [] of
        Some ps \<Rightarrow> Some (cand, ps)
      | None \<Rightarrow> first_param req rs)"

definition findParamPage :: "'db sqlite \<Rightarrow> 'db \<Rightarrow> string \<Rightarrow> (string \<times> (string \<times> string) list) option" where
  "findParamPage lib db path =
     (case db_query lib db params_query [] of
        Inl _ \<Rightarrow> None
      | Inr (_, rs) \<Rightarrow> first_param (split_on CHR ''/'' path) rs)"

fun first_found :: "(string \<Rightarrow> page option) \<Rightarrow> string list \<Rightarrow> (string \<times> page) option" where
  "first_found look [] = None"
| "first_found look (p # ps) = (case look p of Some pg \<Rightarrow> Some (p, pg) | None \<Rightarrow> first_found look ps)"

definition param_page :: "'db sqlite \<Rightarrow> 'db \<Rightarrow> string \<Rightarrow> (page \<times> (string \<times> string) list) option" where
  "param_page lib db path =
     (case findParamPage lib db path of
        None \<Rightarrow> None
      | Some (t, ps) \<Rightarrow> map_option (\<lambda>pg. (pg, ps)) (find_page lib db t))"

definition served_page :: "'db sqlite \<Rightarrow> 'db \<Rightarrow> string \<Rightarrow> (string \<times> page \<times> (string \<times> string) list) option" where
  \<comment> \<open>of \<^verbatim>\<open>ServePage\<close>: the path the document gets, the page and its parameters\<close>
  "served_page lib db path =
     (case find_page lib db path of
        Some pg \<Rightarrow> Some (path, pg, [])
      | None \<Rightarrow>
          (case first_found (find_page lib db) (homeFallbacks path) of
             Some (alt, pg) \<Rightarrow> Some (alt, pg, [])
           | None \<Rightarrow> map_option (\<lambda>(pg, ps). (path, pg, ps)) (param_page lib db path)))"

definition routed_page :: "'db sqlite \<Rightarrow> 'db \<Rightarrow> string \<Rightarrow> (page \<times> (string \<times> string) list option) option" where
  \<comment> \<open>of \<^verbatim>\<open>Page\<close>, the router's look-up\<close>
  "routed_page lib db path =
     (case find_page lib db path of
        Some pg \<Rightarrow> Some (pg, None)
      | None \<Rightarrow> map_option (\<lambda>(pg, ps). (pg, Some ps)) (param_page lib db path))"

section \<open>The rendered document\<close>

definition layout_query :: string where
  "layout_query = ''SELECT head_content, body_before_main, body_after_main, template FROM layouts WHERE name = ?''"

definition loadLayout :: "'db sqlite \<Rightarrow> 'db \<Rightarrow> string \<Rightarrow> layoutData option" where
  "loadLayout lib db name =
     (case first_row lib db layout_query [GStr name] of
        Some [GStr h, GStr b, GStr a, t] \<Rightarrow>
          map_option (\<lambda>t. \<lparr>HeadContent = h, BodyBeforeMain = b, BodyAfterMain = a, LayoutTemplate = t\<rparr>) (null_string t)
      | _ \<Rightarrow> None)"

definition getAssetVersionHash :: "'db page_env \<Rightarrow> 'db \<Rightarrow> string" where
  "getAssetVersionHash env db =
     (case first_row (pe_lib env) db ''SELECT MAX(created_at) FROM assets'' [] of
        Some [GStr t] \<Rightarrow> (if t = [] then [] else take 8 (pe_digest env t))
      | _ \<Rightarrow> [])"

definition version_suffix :: "string \<Rightarrow> string" where
  "version_suffix h = (if h = [] then [] else ''?v='' @ h)"

definition asset_tags :: "string list \<Rightarrow> string \<Rightarrow> string \<times> string" where
  \<comment> \<open>links for the style sheets, tags for the scripts; other files are passed over\<close>
  "asset_tags names vsuf =
     (concat (map (\<lambda>fn. if has_suffix ''.css'' (to_lower fn)
                then ''  <link rel='' @ [dquote] @ ''stylesheet'' @ [dquote] @ '' href='' @ [dquote] @ ''/assets/'' @ fn @ vsuf @ [dquote] @ ''>'' @ [nl]
                else []) names),
      concat (map (\<lambda>fn. if has_suffix ''.js'' (to_lower fn)
                then ''  <script src='' @ [dquote] @ ''/assets/'' @ fn @ vsuf @ [dquote] @ ''></script>'' @ [nl] else []) names))"

definition global_assets_query :: string where
  "global_assets_query = ''SELECT filename FROM assets WHERE scope = '' @ squoted ''global'' @ '' AND (filename LIKE '' @ squoted ''%.css'' @
     '' OR filename LIKE '' @ squoted ''%.js'' @ '') ORDER BY filename''"

definition text_rows :: "'db sqlite \<Rightarrow> 'db \<Rightarrow> string \<Rightarrow> string list option" where
  \<comment> \<open>the rows of one text column; other rows are passed over\<close>
  "text_rows lib db q =
     (case db_query lib db q [] of
        Inl _ \<Rightarrow> None
      | Inr (_, rs) \<Rightarrow> Some (List.map_filter (\<lambda>r. case r of [GStr s] \<Rightarrow> Some s | _ \<Rightarrow> None) rs))"

definition autoInjectAssets :: "'db page_env \<Rightarrow> 'db \<Rightarrow> string \<times> string" where
  "autoInjectAssets env db =
     (case text_rows (pe_lib env) db global_assets_query of
        None \<Rightarrow> ([], [])
      | Some names \<Rightarrow> asset_tags names (version_suffix (getAssetVersionHash env db)))"

definition page_assets :: "'db page_env \<Rightarrow> string \<Rightarrow> string list" where
  \<comment> \<open>the names a page declares\<close>
  "page_assets env json =
     (if json = [] \<or> json = ''null'' then []
      else (case pe_strings env json of None \<Rightarrow> [] | Some ns \<Rightarrow> nonempty (map trim_space ns)))"

definition injectPageAssets :: "'db page_env \<Rightarrow> string \<Rightarrow> string \<Rightarrow> string \<times> string" where
  "injectPageAssets env json versionHash = asset_tags (page_assets env json) (version_suffix versionHash)"

definition parsePageAssetURLs :: "'db page_env \<Rightarrow> string \<Rightarrow> string list \<times> string list" where
  "parsePageAssetURLs env json =
     (let ns = (case pe_strings env json of None \<Rightarrow> [] | Some ns \<Rightarrow> nonempty (map trim_space ns))
      in (map (\<lambda>fn. ''/assets/'' @ fn) (filter (\<lambda>fn. has_suffix ''.css'' (to_lower fn)) ns),
          map (\<lambda>fn. ''/assets/'' @ fn) (filter (\<lambda>fn. has_suffix ''.js'' (to_lower fn)) ns)))"

definition shared_assets_query :: string where
  "shared_assets_query = ''SELECT filename FROM assets WHERE (filename LIKE '' @ squoted ''%.css'' @ '' OR filename LIKE '' @ squoted ''%.js'' @ '')''"

definition stripSharedAssetRefs :: "'db sqlite \<Rightarrow> 'db \<Rightarrow> string \<Rightarrow> string" where
  "stripSharedAssetRefs lib db content =
     (case text_rows lib db shared_assets_query of
        None \<Rightarrow> content
      | Some names \<Rightarrow> strip_refs (map to_lower names) content)"

definition line :: "string \<Rightarrow> string" where "line s = s @ [nl]"
definition optional_line :: "string \<Rightarrow> string" where "optional_line s = (if s = [] then [] else line s)"

definition meta_tag :: "string \<Rightarrow> string \<Rightarrow> string \<Rightarrow> string" where
  \<comment> \<open>one tag with an escaped value\<close>
  "meta_tag kind name val =
     line (''  <meta '' @ kind @ ''='' @ [dquote] @ name @ [dquote] @ '' content='' @ [dquote] @ html_escape val @ [dquote] @ ''>'')"

definition meta_unless :: "string \<Rightarrow> string \<Rightarrow> string \<Rightarrow> string" where
  "meta_unless kind name val = (if val = [] then [] else meta_tag kind name val)"

definition page_metadata :: "'db page_env \<Rightarrow> string \<Rightarrow> pageMetadata" where
  "page_metadata env json =
     (if json \<noteq> [] \<and> json \<noteq> ''{}'' then pe_meta env json
      else \<lparr>MdDescription = [], MdOGImage = [], MdCanonical = [], MdKeywords = []\<rparr>)"

definition head_canonical :: "SiteInfo \<Rightarrow> string \<Rightarrow> pageMetadata \<Rightarrow> string" where
  "head_canonical si pagePath meta =
     (if MdCanonical meta = [] then (case SiDomain si of Some (c # cs) \<Rightarrow> ''https://'' @ (c # cs) @ pagePath | _ \<Rightarrow> [])
      else MdCanonical meta)"

definition head_description :: "SiteInfo \<Rightarrow> pageMetadata \<Rightarrow> string" where
  "head_description si meta =
     (if MdDescription meta = [] then (case SiDescription si of Some d \<Rightarrow> d | None \<Rightarrow> []) else MdDescription meta)"

definition doc_head :: "SiteInfo \<Rightarrow> string \<Rightarrow> string \<Rightarrow> pageMetadata \<Rightarrow> string" where
  \<comment> \<open>from the title to the canonical address\<close>
  "doc_head si pagePath title meta =
     (let pageTitle = (if title = [] then html_escape (SiName si) else html_escape title @ '' | '' @ html_escape (SiName si));
          canonical = head_canonical si pagePath meta;
          description = head_description si meta
      in line (''  <title>'' @ pageTitle @ ''</title>'') @
         meta_unless ''name'' ''description'' description @ meta_unless ''name'' ''keywords'' (MdKeywords meta) @
         meta_tag ''property'' ''og:title'' title @ meta_unless ''property'' ''og:description'' description @
         meta_unless ''property'' ''og:image'' (MdOGImage meta) @
         (if canonical = [] then []
          else meta_tag ''property'' ''og:url'' canonical @
            line (''  <link rel='' @ [dquote] @ ''canonical'' @ [dquote] @ '' href='' @ [dquote] @ html_escape canonical @ [dquote] @ ''>'')))"

definition doc_opening :: string where
  "doc_opening = line ''<!DOCTYPE html>'' @ line (''<html lang='' @ [dquote] @ ''en'' @ [dquote] @ '' dir='' @ [dquote] @ ''ltr'' @ [dquote] @ ''>'') @
     line ''<head>'' @ line (''  <meta charset='' @ [dquote] @ ''utf-8'' @ [dquote] @ ''>'') @
     line (''  <meta name='' @ [dquote] @ ''viewport'' @ [dquote] @ '' content='' @ [dquote] @ ''width=device-width, initial-scale=1'' @ [dquote] @ ''>'')"

definition replace_first :: "string \<Rightarrow> string \<Rightarrow> string \<Rightarrow> string" where
  "replace_first old new s = (case cut old s of Some (a, b) \<Rightarrow> a @ new @ b | None \<Rightarrow> s)"

definition doc_body :: "layoutData option \<Rightarrow> bool \<Rightarrow> string \<Rightarrow> string" where
  "doc_body layout noWrap content =
     (case (if noWrap then None else layout) of
        None \<Rightarrow> line content
      | Some l \<Rightarrow>
          if LayoutTemplate l \<noteq> [] then line (replace_first ''{{content}}'' content (LayoutTemplate l))
          else optional_line (BodyBeforeMain l) @ line ''<main>'' @ remove_all footBlockRe (remove_all navBlockRe content) @
            [nl] @ line ''</main>'' @ optional_line (BodyAfterMain l))"

definition renderDocument :: "'db page_env \<Rightarrow> 'db \<Rightarrow> SiteInfo \<Rightarrow> string \<Rightarrow> page \<Rightarrow> (string \<times> string) list \<Rightarrow> string" where
  "renderDocument env db si pagePath pg params =
     (let layoutName = (if PgLayout pg \<in> {[], ''none''} then ''default'' else PgLayout pg);
          layout = loadLayout (pe_lib env) db layoutName;
          (css, js) = autoInjectAssets env db;
          (pageCSS, pageJS) = injectPageAssets env (PgAssets pg) (getAssetVersionHash env db);
          (headTags, bodyEndTags, content) =
            extractAssetTags (stripSharedAssetRefs (pe_lib env) db (stripDocumentShell (PgContent pg)))
      in doc_opening @ doc_head si pagePath (PgTitle pg) (page_metadata env (PgMetadata pg)) @ css @ pageCSS @
         (case layout of Some l \<Rightarrow> (if HeadContent l = [] then [] else ''  '' @ line (HeadContent l)) | None \<Rightarrow> []) @
         optional_line (join [nl] headTags) @ line ''</head>'' @ line ''<body>'' @
         doc_body layout (PgLayout pg = ''none'') content @
         line (''<script>window.__routeParams='' @ (if params = [] then ''{}'' else pe_params env params) @ '';</script>'') @
         js @ pageJS @ optional_line (join [nl] bodyEndTags) @ line ''</body>'' @ ''</html>'')"

section \<open>Answering page requests\<close>

definition serve404 :: "'db page_env \<Rightarrow> 'db option \<Rightarrow> SiteInfo \<Rightarrow> response" where
  "serve404 env opened si =
     (case Option.bind opened (\<lambda>db. map_option (\<lambda>pg. (db, pg)) (find_page (pe_lib env) db ''/404'')) of
        Some (db, pg) \<Rightarrow> html_response 404 (renderDocument env db si ''/404'' pg [])
      | None \<Rightarrow> serveErrorPage (pe_frame env) 404 ''Page Not Found'' (''The page you'' @ [CHR 0x27] @ ''re looking for doesn'' @ [CHR 0x27] @ ''t exist or has been moved.''))"

definition trackPageView :: "'db page_env \<Rightarrow> string \<Rightarrow> request \<Rightarrow> string \<times> gval list" where
  "trackPageView env pagePath r =
     (''INSERT INTO analytics (page_path, visitor_hash, referrer, user_agent) VALUES (?, ?, ?, ?)'',
      [GStr pagePath, GStr (take 16 (pe_digest env (ClientIP r @ Header r ''User-Agent''))), GStr (Header r ''Referer''),
       GStr (Header r ''User-Agent'')])"

definition ServePage :: "'db page_env \<Rightarrow> (SiteInfo \<times> 'db option) option \<Rightarrow> request \<Rightarrow> response \<times> (string \<times> gval list) list" where
  \<comment> \<open>the answer, and the statement a goroutine executes; the second argument: the site, and its database unless
      it cannot be opened\<close>
  "ServePage env ctx r =
     (case ctx of
        None \<Rightarrow> (error_response 404 ''site not found'', [])
      | Some (si, None) \<Rightarrow> (error_response 500 ''database error'', [])
      | Some (si, Some db) \<Rightarrow>
          (let path = (if URLPath r = [] then ''/'' else URLPath r) in
           case checkRedirect (pe_lib env) db path of
             Some (t, c) \<Rightarrow> (\<lparr>Status = nat c, RespHeaders = [(''Location'', pe_location env r t)], RespBody = GNil\<rparr>, [])
           | None \<Rightarrow>
               (case served_page (pe_lib env) db path of
                  None \<Rightarrow> (serve404 env (Some db) si, [])
                | Some (p, pg, ps) \<Rightarrow> (html_response 200 (renderDocument env db si p pg ps), [trackPageView env p r]))))"

definition versioned :: "string \<Rightarrow> string \<Rightarrow> string" where
  "versioned hash url =
     (if hash \<noteq> [] \<and> has_prefix ''/assets/'' url \<and> CHR ''?'' \<notin> set url then url @ ''?v='' @ hash else url)"

definition texts :: "string list \<Rightarrow> gval" where "texts ss = GArr (map GStr ss)"

definition Page :: "'db page_env \<Rightarrow> (SiteInfo \<times> 'db option) option \<Rightarrow> request \<Rightarrow> response" where
  "Page env ctx r =
     (case ctx of
        None \<Rightarrow> error_response 404 ''site not found''
      | Some (si, None) \<Rightarrow> error_response 500 ''database error''
      | Some (si, Some db) \<Rightarrow>
          (let path = (if query_get r ''path'' = [] then ''/'' else query_get r ''path'') in
           case checkRedirect (pe_lib env) db path of
             Some (t, c) \<Rightarrow> json_response 200 (GObj [(''redirect'', GStr t), (''status_code'', GInt c)])
           | None \<Rightarrow>
               (case routed_page (pe_lib env) db path of
                  None \<Rightarrow> error_response 404 ''page not found''
                | Some (pg, params) \<Rightarrow>
                    (let cleaned = remove_all footBlockRe (remove_all navBlockRe (stripSharedAssetRefs (pe_lib env) db (PgContent pg)));
                         (content, css, js) = stripForSPA cleaned;
                         (dbCSS, dbJS) = (if PgAssets pg \<in> {[], ''null''} then ([], []) else parsePageAssetURLs env (PgAssets pg));
                         hash = getAssetVersionHash env db;
                         allCSS = map (versioned hash) (dbCSS @ css);
                         allJS = map (versioned hash) (dbJS @ js);
                         fields = [(''path'', GStr path), (''title'', GStr (PgTitle pg)), (''content'', GStr (trim_space content)),
                                   (''metadata'', GStr (PgMetadata pg)), (''site_id'', GInt (SiId si)),
                                   (''layout'', GStr (if PgLayout pg = [] then ''default'' else PgLayout pg))] @
                                  (case params of Some ps \<Rightarrow> [(''params'', GObj (map (map_prod id GStr) ps))] | None \<Rightarrow> []) @
                                  (if allCSS = [] then [] else [(''page_css'', texts (dedupStrings allCSS))]) @
                                  (if allJS = [] then [] else [(''page_js'', texts (dedupStrings allJS))])
                     in (json_response 200 (GObj fields))
                          \<lparr>RespHeaders := [(''Cache-Control'', ''no-store''), (''Content-Type'', ''application/json'')]\<rparr>))))"

section \<open>Site map and robots\<close>

definition site_address :: "SiteInfo option \<Rightarrow> request \<Rightarrow> string" where
  "site_address si r =
     ''https://'' @ (case Option.bind si SiDomain of Some (c # cs) \<Rightarrow> c # cs | _ \<Rightarrow> ReqHost r)"

definition sitemap_query :: string where
  "sitemap_query = ''SELECT path, updated_at FROM pages WHERE status = '' @ squoted ''published'' @ '' AND is_deleted = 0 ORDER BY path''"

definition sitemap_entry :: "(int \<Rightarrow> string) \<Rightarrow> string \<Rightarrow> gval list \<Rightarrow> string" where
  \<comment> \<open>the first argument prints the date of an instant\<close>
  "sitemap_entry date base vs =
     (case vs of
        [GStr path, GTime t] \<Rightarrow>
          line ''  <url>'' @ line (''    <loc>'' @ html_escape (base @ path) @ ''</loc>'') @
          line (''    <lastmod>'' @ date t @ ''</lastmod>'') @ line ''  </url>''
      | _ \<Rightarrow> [])"

definition Sitemap :: "'db sqlite \<Rightarrow> (int \<Rightarrow> string) \<Rightarrow> (SiteInfo \<times> 'db option) option \<Rightarrow> request \<Rightarrow> response" where
  "Sitemap lib date ctx r =
     (let failed = \<lparr>Status = 500, RespHeaders = [(''Content-Type'', ''text/plain; charset=utf-8''), (''X-Content-Type-Options'', ''nosniff'')],
             RespBody = GStr (line ''internal error'')\<rparr> in
      case ctx of
        None \<Rightarrow> error_response 404 ''site not found''
      | Some (si, None) \<Rightarrow> failed
      | Some (si, Some db) \<Rightarrow>
          (case db_query lib db sitemap_query [] of
             Inl _ \<Rightarrow> failed
           | Inr (_, rs) \<Rightarrow>
               \<lparr>Status = 200, RespHeaders = [(''Content-Type'', ''application/xml; charset=utf-8'')],
                RespBody = GStr (line (''<?xml version='' @ [dquote] @ ''1.0'' @ [dquote] @ '' encoding='' @ [dquote] @ ''UTF-8'' @ [dquote] @ ''?>'') @
                  line (''<urlset xmlns='' @ [dquote] @ ''http://www.sitemaps.org/schemas/sitemap/0.9'' @ [dquote] @ ''>'') @
                  concat (map (sitemap_entry date (site_address (Some si) r)) rs) @ line ''</urlset>'')\<rparr>))"

definition Robots :: "SiteInfo option \<Rightarrow> request \<Rightarrow> response" where
  "Robots si r =
     \<lparr>Status = 200, RespHeaders = [(''Content-Type'', ''text/plain; charset=utf-8'')],
      RespBody = GStr (line ''User-agent: *'' @ line ''Allow: /'' @ line (''Sitemap: '' @ site_address si r @ ''/sitemap.xml''))\<rparr>"

section \<open>Static files\<close>

definition mime_table :: "(string \<times> string) list" where
  "mime_table =
     [(''.css'', ''text/css''), (''.js'', ''application/javascript''), (''.svg'', ''image/svg+xml''), (''.json'', ''application/json''),
      (''.html'', ''text/html''), (''.htm'', ''text/html''), (''.png'', ''image/png''), (''.jpg'', ''image/jpeg''), (''.jpeg'', ''image/jpeg''),
      (''.gif'', ''image/gif''), (''.webp'', ''image/webp''), (''.woff'', ''font/woff''), (''.woff2'', ''font/woff2''), (''.ttf'', ''font/ttf''),
      (''.otf'', ''font/otf''), (''.ico'', ''image/x-icon''), (''.xml'', ''application/xml''), (''.pdf'', ''application/pdf''),
      (''.mp4'', ''video/mp4''), (''.webm'', ''video/webm''), (''.mp3'', ''audio/mpeg'')]"

definition mimeByExtension :: "string \<Rightarrow> string" where
  "mimeByExtension filename = (case map_of mime_table (to_lower (path_ext filename)) of Some t \<Rightarrow> t | None \<Rightarrow> [])"

definition site_dir :: "int \<Rightarrow> string" where
  "site_dir i = path_join [''data'', ''sites'', show_int i]"

definition not_found :: response where
  \<comment> \<open>\<^verbatim>\<open>http.NotFound\<close>\<close>
  "not_found = \<lparr>Status = 404, RespHeaders = [(''Content-Type'', ''text/plain; charset=utf-8''), (''X-Content-Type-Options'', ''nosniff'')],
     RespBody = GStr (line ''404 page not found'')\<rparr>"

datatype file_kind = Asset | Upload

definition kind_dir :: "file_kind \<Rightarrow> string" where
  "kind_dir k = (case k of Asset \<Rightarrow> ''assets'' | Upload \<Rightarrow> ''files'')"

definition kind_query :: "file_kind \<Rightarrow> string" where
  "kind_query k = ''SELECT storage_path, content_type FROM '' @ kind_dir k @ '' WHERE filename = ?''"

definition cache_control :: "file_kind \<Rightarrow> string" where
  "cache_control k = (case k of Asset \<Rightarrow> ''public, max-age=31536000, immutable'' | Upload \<Rightarrow> ''public, max-age=86400, must-revalidate'')"

definition plain_name :: "string \<Rightarrow> bool" where
  \<comment> \<open>a file name the handlers look up\<close>
  "plain_name f \<longleftrightarrow> f \<noteq> [] \<and> path_clean f = f \<and> \<not> is_abs f \<and> \<not> has_prefix ''..'' f"

definition stored_path :: "file_kind \<Rightarrow> int \<Rightarrow> string \<Rightarrow> string \<Rightarrow> string option" where
  \<comment> \<open>the path read for a file and its stored path\<close>
  "stored_path k sid filename storagePath =
     (let f = (if storagePath = [] then path_join [site_dir sid, kind_dir k, filename] else storagePath)
      in if has_prefix (site_dir sid) (path_clean f) then Some f else None)"

definition served_type :: "string \<Rightarrow> string \<Rightarrow> string" where
  "served_type filename stored =
     (let ct = mimeByExtension filename
      in if ct \<noteq> [] then ct else if stored \<noteq> [] then stored else ''application/octet-stream'')"

definition file_etag :: "(string \<Rightarrow> string) \<Rightarrow> string \<Rightarrow> string" where
  "file_etag digest d = dquote # take 17 (digest d) @ [dquote]"

definition serve_file :: "file_kind \<Rightarrow> 'db page_env \<Rightarrow> (SiteInfo \<times> 'db option) option \<Rightarrow> request \<Rightarrow> response" where
  \<comment> \<open>\<^verbatim>\<open>ServeAsset\<close> and \<^verbatim>\<open>ServeFile\<close>\<close>
  "serve_file k env ctx r =
     (case ctx of
        Some (si, opened) \<Rightarrow>
          (let filename = trim_prefix (''/'' @ kind_dir k @ ''/'') (URLPath r) in
           if \<not> plain_name filename then not_found
           else (case Option.bind opened (\<lambda>db. first_row (pe_lib env) db (kind_query k) [GStr filename]) of
               Some [p, t] \<Rightarrow>
                 (case (null_string p, null_string t) of
                    (Some storagePath, Some stored) \<Rightarrow>
                      (case Option.bind (stored_path k (SiId si) filename storagePath) (pe_read env) of
                         None \<Rightarrow> not_found
                       | Some d \<Rightarrow>
                           (let etag = file_etag (pe_digest env) d in
                            if Header r ''If-None-Match'' = etag
                            then \<lparr>Status = 304, RespHeaders = [(''ETag'', etag)], RespBody = GNil\<rparr>
                            else \<lparr>Status = 200,
                                  RespHeaders = [(''ETag'', etag), (''Content-Type'', served_type filename stored),
                                    (''Cache-Control'', cache_control k), (''Content-Length'', show_nat (length d))],
                                  RespBody = GStr d\<rparr>))
                  | _ \<Rightarrow> not_found)
             | _ \<Rightarrow> not_found))
      | None \<Rightarrow> not_found)"

definition ServeAsset :: "'db page_env \<Rightarrow> (SiteInfo \<times> 'db option) option \<Rightarrow> request \<Rightarrow> response" where
  "ServeAsset = serve_file Asset"

definition ServeFile :: "'db page_env \<Rightarrow> (SiteInfo \<times> 'db option) option \<Rightarrow> request \<Rightarrow> response" where
  "ServeFile = serve_file Upload"

section \<open>Uploads\<close>

record uploadEndpointConfig =
  UePath :: string
  AllowedTypes :: "string list"
  MaxSizeMB :: int
  UeAuth :: bool
  UeTable :: string

datatype multipart = FormTooLarge | NoFile | FormFile string string "string option"
  \<comment> \<open>the form of a request under a limit: its file's name, content type and text, if it can be read\<close>

record 'db upload_env =
  up_api :: "'db api_env"
  up_form :: "int \<Rightarrow> int \<Rightarrow> string \<Rightarrow> multipart"
  up_ext :: "string \<Rightarrow> string list"
  up_now :: int
  up_mkdir :: "string \<Rightarrow> bool"
  up_write :: "string \<Rightarrow> bool"
  up_quote :: "string \<Rightarrow> string"

definition upload_query :: string where
  "upload_query = ''SELECT path, allowed_types, max_size_mb, requires_auth, table_name FROM upload_endpoints WHERE path = ?''"

definition loadUploadEndpoint :: "'db api_env \<Rightarrow> 'db \<Rightarrow> string \<Rightarrow> uploadEndpointConfig option" where
  "loadUploadEndpoint env db path =
     (case first_row (env_db env) db upload_query [GStr path] of
        Some [GStr p, GStr types, GInt mb, auth, table] \<Rightarrow>
          (case (row_bool auth, null_string table) of
             (Some a, Some t) \<Rightarrow>
               Some \<lparr>UePath = p, AllowedTypes = env_strings env types, MaxSizeMB = (if mb = 0 then 5 else mb), UeAuth = a, UeTable = t\<rparr>
           | _ \<Rightarrow> None)
      | _ \<Rightarrow> None)"

definition mimeTypeMatches :: "string \<Rightarrow> string \<Rightarrow> bool" where
  "mimeTypeMatches contentType pat \<longleftrightarrow>
     pat = ''*/*'' \<or> pat = ''*'' \<or> equal_fold contentType pat \<or>
     has_suffix ''/*'' pat \<and> has_prefix (to_lower (butlast pat)) (to_lower contentType)"

definition trim_suffix :: "string \<Rightarrow> string \<Rightarrow> string" where
  "trim_suffix suf s = (if has_suffix suf s then take (length s - length suf) s else s)"

definition upload_name :: "'db upload_env \<Rightarrow> string \<Rightarrow> string \<Rightarrow> string" where
  "upload_name env name ct =
     (let ext = (if path_ext name \<noteq> [] then path_ext name else case up_ext env ct of e # _ \<Rightarrow> e | [] \<Rightarrow> [])
      in show_int (up_now env) @ ''_'' @ trim_suffix ext (path_base name) @ ext)"

definition upload_dir :: "int \<Rightarrow> string" where
  "upload_dir sid = path_join [''data'', ''sites'', show_int sid, ''files'', ''uploads'']"

definition file_insert :: string where
  "file_insert = ''INSERT INTO files (filename, content_type, size, storage_path) VALUES (?, ?, ?, ?)''"

definition linked_insert :: "string \<Rightarrow> string" where
  "linked_insert table = ''INSERT INTO '' @ table @ '' (filename, url, content_type, size) VALUES (?, ?, ?, ?)''"

type_synonym disk = "(string \<times> string) list"

definition store_upload ::
    "'db upload_env \<Rightarrow> uploadEndpointConfig \<Rightarrow> string \<Rightarrow> string \<Rightarrow> string \<Rightarrow> 'db \<Rightarrow> disk \<Rightarrow> response \<times> 'db \<times> disk" where
  "store_upload env ue name ct d db files =
     (let uniqueName = upload_name env name ct;
          dir = upload_dir (env_site (up_api env));
          path = path_join [dir, uniqueName];
          storageName = ''uploads/'' @ uniqueName;
          bytes = int (length d);
          failed = error_response 500 ''storage error'' in
      if \<not> up_mkdir env dir \<or> \<not> up_write env path then (failed, db, files)
      else (case db_exec (env_db (up_api env)) db file_insert [GStr storageName, GStr ct, GInt bytes, GStr path] of
          (Inl _, db1) \<Rightarrow> (failed, db1, AList.delete path files)
        | (Inr _, db1) \<Rightarrow>
            (let url = ''/files/'' @ storageName;
                 db2 = (if UeTable ue \<noteq> []
                        then snd (db_exec (env_db (up_api env)) db1 (linked_insert (UeTable ue)) [GStr name, GStr url, GStr ct, GInt bytes])
                        else db1)
             in (json_response 201 (GObj [(''url'', GStr url), (''filename'', GStr name), (''size'', GInt bytes), (''type'', GStr ct)]),
                 db2, AList.update path d files))))"

definition apiUpload :: "'db upload_env \<Rightarrow> 'db \<Rightarrow> disk \<Rightarrow> request \<Rightarrow> string \<Rightarrow> response \<times> 'db \<times> disk" where
  "apiUpload env db files r path =
     (let refuse = (\<lambda>status msg. (error_response status msg, db, files)) in
      case loadUploadEndpoint (up_api env) db path of
        None \<Rightarrow> refuse 404 ''upload endpoint not found''
      | Some ue \<Rightarrow>
          (let maxBytes = wrap64 (MaxSizeMB ue * 1048576);
               too_large = ''file too large (max '' @ show_int (MaxSizeMB ue) @ '' MB)'' in
           if UeAuth ue \<and> \<not> validateSiteToken (up_api env) (bearer r) then refuse 401 ''unauthorized''
           else (case up_form env (wrap64 (maxBytes + 1024)) maxBytes (ReqBody r) of
               FormTooLarge \<Rightarrow> refuse 400 too_large
             | NoFile \<Rightarrow> refuse 400 (''file field is required (use multipart form with field name '' @ squoted ''file'' @ '')'')
             | FormFile name header content \<Rightarrow>
                 (let ct = (if header = [] then ''application/octet-stream'' else header) in
                  if \<not> list_ex (mimeTypeMatches ct) (AllowedTypes ue) then refuse 400 (''file type '' @ up_quote env ct @ '' not allowed'')
                  else (case content of
                      None \<Rightarrow> refuse 400 too_large
                    | Some d \<Rightarrow>
                        if int (length d) > maxBytes then refuse 400 too_large
                        else store_upload env ue name ct d db files)))))"

section \<open>Parameters rebuild the path\<close>

definition param_names :: "string list \<Rightarrow> string list" where
  "param_names cs = map (drop 1) (filter (has_prefix '':'') cs)"

definition fill :: "(string \<times> string) list \<Rightarrow> string \<Rightarrow> string" where
  "fill ps c = (if has_prefix '':'' c then (case map_of ps (drop 1 c) of Some v \<Rightarrow> v | None \<Rightarrow> []) else c)"

lemma param_match_keeps:
  "param_match cs ps acc = Some res \<Longrightarrow> k \<notin> set (param_names cs) \<Longrightarrow> map_of res k = map_of acc k"
  by (induction cs ps acc rule: param_match.induct) (auto simp: param_names_def split: if_splits)

lemma param_match_fill:
  "param_match cs ps acc = Some res \<Longrightarrow> distinct (param_names cs) \<Longrightarrow> map (fill res) cs = ps"
proof (induction cs ps acc rule: param_match.induct)
  case (1 c cs p ps acc)
  show ?case
  proof (cases "has_prefix '':'' c")
    case True
    then have "map_of res (drop 1 c) = Some p"
      using 1(3,4) param_match_keeps [of cs ps "AList.update (drop 1 c) p acc" res "drop 1 c"] by (simp add: param_names_def)
    with True 1 show ?thesis by (simp add: fill_def param_names_def)
  next
    case False
    with 1 show ?thesis by (auto simp: fill_def param_names_def split: if_splits)
  qed
qed auto

lemma first_param_match: "first_param req rs = Some (t, ps) \<Longrightarrow> param_match (split_on CHR ''/'' t) req [] = Some ps"
  by (induction req rs rule: first_param.induct) (auto simp: Let_def split: option.splits)

text \<open>
  C39. The page with parameters that answers a path fits it: when no name occurs twice in the page's path,
  putting the values back in place of their names gives the requested path again.
\<close>
theorem params_rebuild_path:
  assumes "findParamPage lib db path = Some (t, ps)" "distinct (param_names (split_on CHR ''/'' t))"
  shows "join ''/'' (map (fill ps) (split_on CHR ''/'' t)) = path"
proof -
  have "param_match (split_on CHR ''/'' t) (split_on CHR ''/'' path) [] = Some ps"
    using assms(1) first_param_match by (auto simp: findParamPage_def split: sum.splits)
  from param_match_fill [OF this assms(2)] show ?thesis by (simp add: join_split_on)
qed

section \<open>The two look-ups of a page\<close>

lemma first_found_None: "first_found look ps = None \<longleftrightarrow> (\<forall>p \<in> set ps. look p = None)"
  by (induction ps) (auto split: option.split)

text \<open>
  A browser that follows a link and a browser that loads the address get the same page with the same
  parameters, for every path but the three of the home page that \<^verbatim>\<open>ServePage\<close> replaces; for those the two
  agree when none of the replacements exists.
\<close>
theorem router_agrees:
  assumes "\<forall>alt \<in> set (homeFallbacks path). find_page lib db alt = None"
  shows "served_page lib db path =
    map_option (\<lambda>(pg, ps). (path, pg, case ps of Some ps \<Rightarrow> ps | None \<Rightarrow> [])) (routed_page lib db path)"
proof -
  have "first_found (find_page lib db) (homeFallbacks path) = None"
    using assms by (simp add: first_found_None)
  then show ?thesis
    by (auto simp: served_page_def routed_page_def option.map_comp comp_def case_prod_beta split: option.split)
qed

text \<open>The router has no replacement for a home page saved under another name.\<close>
lemma router_misses_home:
  assumes "find_page lib db ''/'' = None" "find_page lib db ''/index.html'' = Some pg" "findParamPage lib db ''/'' = None"
  shows "served_page lib db ''/'' = Some (''/index.html'', pg, [])" "routed_page lib db ''/'' = None"
  using assms by (simp_all add: served_page_def routed_page_def homeFallbacks_def param_page_def)

section \<open>Texts of a page cannot leave their attributes\<close>

definition markup :: "string \<Rightarrow> string" where
  "markup = filter markup_char"

lemma markup_append [simp]: "markup (s @ t) = markup s @ markup t" "markup [] = []"
  by (simp_all add: markup_def)

lemma markup_escape [simp]: "markup (html_escape s) = []"
  using html_escape_safe by (auto simp: markup_def filter_empty_conv)

lemma markup_tag: "markup (meta_tag kind name val) = markup (meta_tag kind name [])"
  by (simp add: meta_tag_def line_def del: append.simps)

definition same_fields :: "string list \<Rightarrow> string list \<Rightarrow> bool" where
  \<comment> \<open>the same of the texts are empty\<close>
  "same_fields = list_all2 (\<lambda>s t. s = [] \<longleftrightarrow> t = [])"

definition head_texts :: "SiteInfo \<Rightarrow> string \<Rightarrow> string \<Rightarrow> pageMetadata \<Rightarrow> string list" where
  "head_texts si pagePath title meta =
     [title, head_description si meta, MdKeywords meta, MdOGImage meta, head_canonical si pagePath meta]"

text \<open>
  C40. The tags of a document's head depend only on which of the texts are given: whatever the title, the
  description, the keywords, the image, the address and the name of the site say, the brackets and quotes of
  the head are the same, in the same order.
\<close>
theorem head_markup_fixed:
  assumes "same_fields (head_texts si p t m) (head_texts si' p' t' m')"
  shows "filter markup_char (doc_head si p t m) = filter markup_char (doc_head si' p' t' m')"
proof -
  have unless: "markup (meta_unless kind name v) = (if v = [] then [] else markup (meta_tag kind name []))" for kind name v
    by (simp add: meta_unless_def markup_tag [of kind name v])
  have link: "markup (line (''  <link rel='' @ [dquote] @ ''canonical'' @ [dquote] @ '' href='' @ [dquote] @ html_escape v @ [dquote] @ ''>'')) =
      markup (line (''  <link rel='' @ [dquote] @ ''canonical'' @ [dquote] @ '' href='' @ [dquote] @ [dquote] @ ''>''))" for v
    by (simp add: line_def del: append.simps)
  have og: "markup (meta_tag ''property'' ''og:title'' v) = markup (meta_tag ''property'' ''og:title'' [])"
    "markup (meta_tag ''property'' ''og:url'' v) = markup (meta_tag ''property'' ''og:url'' [])" for v by (rule markup_tag)+
  have title: "markup (line (''  <title>'' @ html_escape n @ ''</title>'')) = markup (''  <title>'' @ ''</title>'')"
    "markup (line (''  <title>'' @ html_escape v @ '' | '' @ html_escape n @ ''</title>'')) = markup (''  <title>'' @ ''</title>'')" for v n
  proof -
    have "markup '' | '' = []" "markup [nl] = []" by code_simp+
    then show "markup (line (''  <title>'' @ html_escape n @ ''</title>'')) = markup (''  <title>'' @ ''</title>'')"
      "markup (line (''  <title>'' @ html_escape v @ '' | '' @ html_escape n @ ''</title>'')) = markup (''  <title>'' @ ''</title>'')"
      by (simp_all add: line_def del: append.simps)
  qed
  have "markup (doc_head si p t m) = markup (doc_head si' p' t' m')"
    using assms unfolding doc_head_def Let_def same_fields_def head_texts_def
    by (simp add: unless link og(1) [of t] og(1) [of t'] og(2) [of "head_canonical si p m"] og(2) [of "head_canonical si' p' m'"] title
        del: append.simps)
  then show ?thesis by (simp add: markup_def)
qed

section \<open>Files stay in their directories\<close>

lemma show_int_plain: "plain_part (show_int i)"
proof -
  have ne: "show_nat n \<noteq> []" for n by (subst show_nat.simps) simp
  have nd: "\<not> is_digit CHR ''.''" "\<not> is_digit CHR ''/''" by code_simp+
  have chars: "c \<in> set (show_int i) \<Longrightarrow> c \<noteq> CHR ''.'' \<and> c \<noteq> CHR ''/''" for c
    using show_nat_digits nd by (auto simp: show_int_def list_all_iff split: if_splits)
  have "show_int i \<noteq> []" using ne by (simp add: show_int_def)
  moreover have "show_int i \<noteq> ''.''" "show_int i \<noteq> ''..''" "CHR ''/'' \<notin> set (show_int i)"
    using chars [of "CHR ''.''"] chars [of "CHR ''/''"] by auto
  ultimately show ?thesis by (simp add: plain_part_def)
qed

lemma plain_dirs: "plain_part ''data''" "plain_part ''sites''" "plain_part ''files''" "plain_part ''assets''" "plain_part ''uploads''"
  by (simp_all add: plain_part_def)

lemma path_join_plain:
  assumes "ps \<noteq> []" "list_all plain_part ps"
  shows "path_join ps = join ''/'' ps"
proof -
  have "filter (\<lambda>p. p \<noteq> []) ps = ps" using assms(2) by (auto simp: list_all_iff plain_part_def)
  then show ?thesis using assms path_clean_plain by (simp add: path_join_def Let_def)
qed

lemma site_dir_parts: "site_dir i = join ''/'' [''data'', ''sites'', show_int i]"
  unfolding site_dir_def using path_join_plain [of "[''data'', ''sites'', show_int i]"] show_int_plain plain_dirs by simp

lemma join_append: "xs \<noteq> [] \<Longrightarrow> ys \<noteq> [] \<Longrightarrow> join sep (xs @ ys) = join sep xs @ sep @ join sep ys"
  by (induction sep xs rule: join.induct) (auto simp: neq_Nil_conv)

lemma has_prefix_iff: "has_prefix p s \<longleftrightarrow> (\<exists>r. s = p @ r)"
  by (auto dest: has_prefixE)

lemma split_prefix:
  \<comment> \<open>a text that begins with a path has its elements, but the last may go on\<close>
  assumes "has_prefix (join ''/'' (ds @ [d])) s" "list_all (\<lambda>w. CHR ''/'' \<notin> set w) (ds @ [d])"
  shows "\<exists>e es. split_on CHR ''/'' s = ds @ (d @ e) # es"
proof -
  obtain r where s: "s = join ''/'' (ds @ [d]) @ r" using assms(1) by (auto dest: has_prefixE)
  have last: "\<exists>e es. split_on CHR ''/'' (d @ r) = (d @ e) # es" if "CHR ''/'' \<notin> set d"
  proof -
    have "split_on CHR ''/'' (d @ r) = (d @ hd (split_on CHR ''/'' r)) # tl (split_on CHR ''/'' r)"
      using that by (induction d) (auto simp: split_on_def split: list.split)
    then show ?thesis by blast
  qed
  have one: "split_on CHR ''/'' (w @ CHR ''/'' # t) = w # split_on CHR ''/'' t" if "CHR ''/'' \<notin> set w" for w t
    using that by (induction w) (auto simp: split_on_def)
  show ?thesis
    unfolding s using assms(2) last one
    by (induction ds) (auto simp: join_append [of "[_]", simplified] simp del: split_by.simps)
qed

text \<open>
  C37. Whatever a stored path says and whatever is asked for, an asset or an uploaded file is answered only
  from a path whose elements, once it is cleaned, hold no reference to a parent and begin with \<^verbatim>\<open>data\<close>,
  \<^verbatim>\<open>sites\<close> and an element that begins with the site's number. (That the third element only has to begin with
  the number lets a stored path of site 1 lead into the directory of site 12.)
\<close>
theorem files_confined:
  assumes "serve_file k env (Some (si, opened)) r = resp" "Status resp = 200"
  shows "\<exists>f d e es. pe_read env f = Some d \<and> RespBody resp = GStr d \<and>
    split_on CHR ''/'' (path_clean f) = [''data'', ''sites''] @ (show_int (SiId si) @ e) # es \<and> list_all plain_part (split_on CHR ''/'' (path_clean f))"
proof -
  obtain filename storagePath f d where f: "stored_path k (SiId si) filename storagePath = Some f" "pe_read env f = Some d" "RespBody resp = GStr d"
    using assms
    by (auto simp: serve_file_def not_found_def Let_def split: if_splits option.splits list.splits bind_splits)
  have pre: "has_prefix (site_dir (SiId si)) (path_clean f)"
    using f(1) by (auto simp: stored_path_def Let_def split: if_splits)
  have ds: "list_all plain_part [''data'', ''sites'', show_int (SiId si)]" using plain_dirs show_int_plain by simp
  have "\<exists>e es. split_on CHR ''/'' (path_clean f) = [''data'', ''sites''] @ (show_int (SiId si) @ e) # es"
    using split_prefix [of "[''data'', ''sites'']" "show_int (SiId si)" "path_clean f"] pre ds
    by (simp add: site_dir_parts plain_part_def)
  moreover have "list_all plain_part (split_on CHR ''/'' (path_clean f))"
    using clean_beneath [OF pre [unfolded site_dir_parts] _ ds] by simp
  ultimately show ?thesis using f by blast
qed

section \<open>What becomes of an upload\<close>

lemma split_single: "CHR ''/'' \<notin> set s \<Longrightarrow> split_on CHR ''/'' s = [s]"
  unfolding split_on_def by (rule split_by_none) auto

lemma path_base_plain: "CHR ''/'' \<notin> set name \<Longrightarrow> name \<noteq> [] \<Longrightarrow> path_base name = name"
proof -
  assume a: "CHR ''/'' \<notin> set name" "name \<noteq> []"
  then have "trim_right_by (\<lambda>c. c = CHR ''/'') name = name"
    by (cases name rule: rev_cases) (auto simp: trim_right_by_def)
  with a show ?thesis by (simp add: path_base_def Let_def split_single)
qed

lemma path_ext_chars: "c \<in> set (path_ext name) \<Longrightarrow> c \<in> set name \<and> c \<noteq> CHR ''/''"
proof -
  assume c: "c \<in> set (path_ext name)"
  then have "c \<in> set (last (split_on CHR ''/'' name))"
    by (auto simp: path_ext_def Let_def split: option.splits dest: in_set_dropD)
  moreover have "last (split_on CHR ''/'' name) \<in> set (split_on CHR ''/'' name)" by (simp add: split_on_def)
  ultimately show ?thesis unfolding split_on_def by (blast dest: split_by_pieces)
qed

lemma path_ext_plain: "CHR ''/'' \<notin> set s \<Longrightarrow> path_ext s = (case last_index CHR ''.'' s of Some i \<Rightarrow> drop i s | None \<Rightarrow> [])"
  by (simp add: path_ext_def Let_def split_single)

lemma last_index_append: "last_index c (s @ t) = (case last_index c t of Some i \<Rightarrow> Some (length s + i) | None \<Rightarrow> last_index c s)"
  by (induction s) (auto split: option.split)

lemma trim_suffix_ext:
  assumes "CHR ''/'' \<notin> set name" "path_ext name \<noteq> []"
  shows "trim_suffix (path_ext name) name @ path_ext name = name"
proof -
  obtain i where i: "last_index CHR ''.'' name = Some i" "path_ext name = drop i name"
    using assms by (auto simp: path_ext_plain split: option.splits)
  have "has_suffix (drop i name) name"
    unfolding has_suffix_def has_prefix_def by (simp add: rev_drop)
  moreover have "i \<le> length name" using i(1) last_index_Some [of "CHR ''.''" name i] by auto
  ultimately show ?thesis using i(2) by (simp add: trim_suffix_def)
qed

lemma upload_name_plain:
  assumes "CHR ''/'' \<notin> set name" "name \<noteq> []" "\<forall>e \<in> set (up_ext env ct). CHR ''/'' \<notin> set e"
  shows "plain_part (upload_name env name ct)"
proof -
  have "CHR ''/'' \<notin> set (path_ext name)" using path_ext_chars by blast
  moreover have "CHR ''/'' \<notin> set (trim_suffix e name)" for e using assms(1) by (auto simp: trim_suffix_def dest: in_set_takeD)
  moreover have "CHR ''/'' \<notin> set (show_int (up_now env))" using show_int_plain by (simp add: plain_part_def)
  moreover have "CHR ''_'' \<in> set (upload_name env name ct)" by (simp add: upload_name_def Let_def)
  ultimately have "CHR ''/'' \<notin> set (upload_name env name ct)" "CHR ''_'' \<in> set (upload_name env name ct)"
    using assms by (cases "up_ext env ct"; auto simp: upload_name_def Let_def path_base_plain)+
  then show ?thesis unfolding plain_part_def by fastforce
qed

definition upload_parts :: "int \<Rightarrow> string list" where
  "upload_parts i = [''data'', ''sites'', show_int i, ''files'', ''uploads'']"

lemma upload_paths:
  assumes "plain_part u"
  shows "path_join [upload_dir i, u] = join ''/'' (upload_parts i @ [u])"
    "has_prefix (site_dir i) (path_clean (join ''/'' (upload_parts i @ [u])))"
    "plain_name (''uploads/'' @ u)"
proof -
  have ps: "list_all plain_part (upload_parts i @ [u])" using assms plain_dirs show_int_plain by (simp add: upload_parts_def)
  have dir: "upload_dir i = join ''/'' (upload_parts i)"
    unfolding upload_dir_def using path_join_plain [of "upload_parts i"] ps by (simp add: upload_parts_def)
  have "join ''/'' [upload_dir i, u] = join ''/'' (upload_parts i @ [u])"
    unfolding dir by (simp add: upload_parts_def)
  moreover have "filter (\<lambda>p. p \<noteq> []) [upload_dir i, u] = [upload_dir i, u]"
    using assms by (auto simp: dir upload_parts_def plain_part_def)
  moreover have clean: "path_clean (join ''/'' (upload_parts i @ [u])) = join ''/'' (upload_parts i @ [u])"
    by (rule path_clean_plain [OF _ ps]) simp
  ultimately show "path_join [upload_dir i, u] = join ''/'' (upload_parts i @ [u])" by (simp add: path_join_def Let_def)
  show "has_prefix (site_dir i) (path_clean (join ''/'' (upload_parts i @ [u])))"
    unfolding clean site_dir_parts has_prefix_iff by (simp add: upload_parts_def)
  have two: "list_all plain_part [''uploads'', u]" using assms plain_dirs by simp
  have j: "join ''/'' [''uploads'', u] = ''uploads/'' @ u" by simp
  have "path_clean (''uploads/'' @ u) = ''uploads/'' @ u" using path_clean_plain [OF _ two] unfolding j by blast
  then show "plain_name (''uploads/'' @ u)" by (simp add: plain_name_def is_abs_def has_prefix_def)
qed


section \<open>Which site a host name reaches\<close>

lemmas resolver_defs = GetSiteByDomain_def ListActiveSites_def serveErrorPage_def html_response_def error_response_def
  json_response_def Let_def

text \<open>
  A request is served by an active site. It is the site that has the requested host as its domain, when
  one has it: such a site that is not active is refused and never replaced by another. Every other
  host name is answered by the first active site.
\<close>
theorem host_reaches_site:
  assumes "SiteResolver skeleton (Some sites) r = res"
  shows "case find (\<lambda>s. SiDomain s = Some (host_name (ReqHost r))) sites of
    Some s \<Rightarrow> if SiStatus s = ''active'' then res = Inr s else \<exists>resp. res = Inl resp \<and> Status resp = 404
  | None \<Rightarrow> (case filter (\<lambda>s. SiStatus s = ''active'') sites of
      s # _ \<Rightarrow> res = Inr s
    | [] \<Rightarrow> \<exists>resp. res = Inl resp \<and> Status resp = 404)"
proof (cases "find (\<lambda>s. SiDomain s = Some (host_name (ReqHost r))) sites")
  case None
  show ?thesis
  proof (cases "filter (\<lambda>s. SiStatus s = ''active'') sites")
    case Nil
    then show ?thesis using None assms by (auto simp: SiteResolver_def resolver_defs)
  next
    case (Cons s ss)
    then have "s \<in> set (filter (\<lambda>s. SiStatus s = ''active'') sites)" by simp
    then have "SiStatus s = ''active''" by simp
    then show ?thesis using None Cons assms by (simp add: SiteResolver_def resolver_defs)
  qed
next
  case (Some s)
  then show ?thesis using assms by (auto simp: SiteResolver_def resolver_defs)
qed

section \<open>A concrete site\<close>

definition shop_page :: page where
  "shop_page = \<lparr>PgTitle = ''Post'', PgContent = ''<p>hi</p>'', PgMetadata = ''{}'', PgLayout = [], PgAssets = []\<rparr>"

definition shop_db :: "unit sqlite" where
  "shop_db = \<lparr>
     db_query = (\<lambda>_ q args.
       if q = page_query \<and> args \<in> {[GStr ''/posts/:id''], [GStr ''/index.html'']}
       then Inr ([], [[GStr ''Post'', GStr ''<p>hi</p>'', GStr ''{}'', GNil, GNil]])
       else if q = params_query then Inr ([], [[GStr ''/posts/:id'']])
       else if q = kind_query Asset then Inr ([], [[GStr ''data/sites/12/files/x'', GNil]])
       else if q = kind_query Upload then Inr ([], [[GStr ''data/sites/1/files/uploads/7_evil.html'', GStr ''image/png'']])
       else if q = upload_query then Inr ([], [[GStr ''pics'', GStr ''[]'', GInt 0, GInt 0, GNil]])
       else Inr ([], [])),
     db_exec = (\<lambda>db _ _. (Inr (1, 1), db))\<rparr>"

definition shop_site :: SiteInfo where
  "shop_site = \<lparr>SiId = 1, SiName = ''Shop'', SiDomain = Some ''shop.test'', SiDescription = None, SiStatus = ''active''\<rparr>"

definition shop_pages :: "(string \<Rightarrow> string option) \<Rightarrow> unit page_env" where
  "shop_pages files = \<lparr>pe_lib = shop_db, pe_digest = (\<lambda>s. s), pe_strings = (\<lambda>_. None),
     pe_meta = (\<lambda>_. \<lparr>MdDescription = [], MdOGImage = [], MdCanonical = [], MdKeywords = []\<rparr>),
     pe_params = (\<lambda>_. ''{}''), pe_location = (\<lambda>_ t. t), pe_read = files, pe_frame = (\<lambda>_ t m. t @ m)\<rparr>"

lemmas shop_queries = page_query_def params_query_def kind_query_def upload_query_def kind_dir_def

lemma shop_rows:
  "db_query shop_db () params_query args = Inr ([], [[GStr ''/posts/:id'']])"
  "first_row shop_db () (kind_query Asset) args = Some [GStr ''data/sites/12/files/x'', GNil]"
  "first_row shop_db () (kind_query Upload) args = Some [GStr ''data/sites/1/files/uploads/7_evil.html'', GStr ''image/png'']"
  "first_row shop_db () upload_query args = Some [GStr ''pics'', GStr ''[]'', GInt 0, GInt 0, GNil]"
  by (simp_all add: first_row_def shop_db_def shop_queries)

lemma shop_page_rows:
  "find_page shop_db () p = (if p \<in> {''/posts/:id'', ''/index.html''} then Some shop_page else None)"
  by (simp add: find_page_def first_row_def shop_db_def page_of_row_def null_string_def shop_queries shop_page_def)

lemma shop_params: "findParamPage shop_db () ''/posts/7'' = Some (''/posts/:id'', [(''id'', ''7'')])"
proof -
  have "split_on CHR ''/'' ''/posts/:id'' = [[], ''posts'', '':id'']" "split_on CHR ''/'' ''/posts/7'' = [[], ''posts'', ''7'']" by code_simp+
  then show ?thesis by (simp add: findParamPage_def shop_rows has_prefix_def)
qed

theorem params_rebuild_path_witness:
  "join ''/'' (map (fill [(''id'', ''7'')]) (split_on CHR ''/'' ''/posts/:id'')) = ''/posts/7''"
proof (rule params_rebuild_path [OF shop_params])
  show "distinct (param_names (split_on CHR ''/'' ''/posts/:id''))" by code_simp
qed

theorem router_agrees_witness:
  "served_page shop_db () ''/posts/7'' = Some (''/posts/7'', shop_page, [(''id'', ''7'')]) \<and>
   routed_page shop_db () ''/posts/7'' = Some (shop_page, Some [(''id'', ''7'')])"
proof -
  have "\<forall>alt \<in> set (homeFallbacks ''/posts/7''). find_page shop_db () alt = None" by (simp add: homeFallbacks_def)
  from router_agrees [OF this] show ?thesis
    by (simp add: routed_page_def param_page_def shop_params shop_page_rows)
qed

definition plain_meta :: "string \<Rightarrow> pageMetadata" where
  "plain_meta d = \<lparr>MdDescription = d, MdOGImage = [], MdCanonical = ''c'', MdKeywords = []\<rparr>"

theorem head_markup_fixed_witness:
  "filter markup_char (doc_head shop_site ''/'' ''<script>'' (plain_meta (dquote # ''><b>''))) =
   filter markup_char (doc_head shop_site ''/'' ''Title'' (plain_meta ''text''))"
  by (rule head_markup_fixed)
    (simp add: same_fields_def head_texts_def plain_meta_def head_description_def head_canonical_def)

theorem files_confined_witness:
  "\<exists>d e es. d = ''secret'' \<and> split_on CHR ''/'' (path_clean ''data/sites/12/files/x'') = [''data'', ''sites''] @ (show_int 1 @ e) # es \<and>
     RespBody (serve_file Asset (shop_pages (map_of [(''data/sites/12/files/x'', d)])) (Some (shop_site, Some ()))
       (anonymous ''GET'' ''/assets/logo.png'' [])) = GStr d"
proof -
  let ?env = "shop_pages (map_of [(''data/sites/12/files/x'', ''secret'')])" and ?r = "anonymous ''GET'' ''/assets/logo.png'' []"
  have names: "plain_name ''logo.png''" "trim_prefix ''/assets/'' ''/assets/logo.png'' = ''logo.png''" by code_simp+
  have path: "stored_path Asset 1 ''logo.png'' ''data/sites/12/files/x'' = Some ''data/sites/12/files/x''" by code_simp
  have ok: "Status (serve_file Asset ?env (Some (shop_site, Some ())) ?r) = 200"
    by (simp add: serve_file_def Let_def kind_dir_def anonymous_def names shop_pages_def shop_rows shop_site_def path null_string_def file_etag_def)
  from files_confined [OF refl this] show ?thesis
    by (auto simp: shop_pages_def shop_site_def split: if_splits)
qed

theorem host_reaches_site_witness:
  "SiteResolver (\<lambda>_ t m. t @ m) (Some [shop_site]) (anonymous ''GET'' ''/'' []\<lparr>ReqHost := ''evil.test:8080''\<rparr>) = Inr shop_site"
proof -
  have "host_name ''evil.test:8080'' = ''evil.test''" by code_simp
  with host_reaches_site [OF refl, of "\<lambda>_ t m. t @ m" "[shop_site]" "anonymous ''GET'' ''/'' []\<lparr>ReqHost := ''evil.test:8080''\<rparr>"]
  show ?thesis by (simp add: shop_site_def anonymous_def)
qed

definition shop_upload :: "unit upload_env" where
  "shop_upload = \<lparr>up_api = users_env\<lparr>env_db := shop_db, env_strings := (\<lambda>_. [''image/*''])\<rparr>,
     up_form = (\<lambda>_ _ body. FormFile ''evil.html'' ''image/png'' (Some body)), up_ext = (\<lambda>_. []), up_now = 7,
     up_mkdir = (\<lambda>_. True), up_write = (\<lambda>_. True), up_quote = (\<lambda>s. s)\<rparr>"


end
