(* ===== verification/Spec2Isabelle.thy ===== *)
theory Spec2Isabelle
  imports Scheduler Admin Pages
begin

text \<open>
  A verification development for IATAN, a Go server that builds and runs web sites with language
  models. Work in progress: header completed with the components.
\<close>

end
